(* ===== verification/Prelude.thy ===== *)
theory Prelude
  imports Main "HOL-Library.Word"
begin

text \<open>
  Shared vocabulary of the development: the failure values of the modelled C++ code, the
  sequencing of fallible steps, the integer conversions of the platform (64-bit
  \<open>size_t\<close>, 32-bit \<open>int\<close>), the pieces of the C++ standard library that the sources
  call on character ranges (\<open>std::find\<close>, \<open>std::search\<close>, \<open>std::copy\<close>,
  \<open>isspace\<close>, \<open>strrchr\<close>, \<open>snprintf\<close> with a decimal directive), and generic lemmas on
  lists that the components share.
\<close>

section \<open>Collections of facts\<close>

named_theorems res_simps \<open>evaluation of fallible steps\<close>
named_theorems conv_simps \<open>integer conversions inside their range\<close>


section \<open>Failure values\<close>

text \<open>
  What a modelled step can do other than return: undefined behaviour of a memory access
  outside an object, of a signed overflow or of a null pointer, the exception of a
  \<open>std::vector\<close> that would exceed its maximal size or of the call of an empty
  \<open>std::function\<close>, reaching the end of a value-returning function without a return, an endless loop inside a
  callback, and the \<open>abort()\<close> that ends a
  \<open>LOG_FATAL\<close> statement.
\<close>

datatype failure =
    OutOfBounds
  | SignedOverflow
  | NullDeref
  | LengthError
  | Aborted
  | BadFunctionCall
  | MissingReturn
  | Diverges

type_synonym 'a res = "failure + 'a"

definition rbind :: "'a res \<Rightarrow> ('a \<Rightarrow> 'b res) \<Rightarrow> 'b res" where
  "rbind m k = (case m of Inl e \<Rightarrow> Inl e | Inr x \<Rightarrow> k x)"

lemma rbind_Inr [simp, res_simps]: "rbind (Inr x) k = k x"
  by (simp add: rbind_def)

lemma rbind_Inl [simp, res_simps]: "rbind (Inl e) k = Inl e"
  by (simp add: rbind_def)

lemma rbind_assoc: "rbind (rbind m f) g = rbind m (\<lambda>x. rbind (f x) g)"
  by (simp add: rbind_def split: sum.split)

lemma rbind_right_id [simp]: "rbind m Inr = m"
  by (simp add: rbind_def split: sum.split)

lemma rbind_eq_Inr_iff: "rbind m k = Inr y \<longleftrightarrow> (\<exists>x. m = Inr x \<and> k x = Inr y)"
  by (auto simp: rbind_def split: sum.split)

lemma rbind_eq_Inl_iff: "rbind m k = Inl e \<longleftrightarrow> m = Inl e \<or> (\<exists>x. m = Inr x \<and> k x = Inl e)"
  by (auto simp: rbind_def split: sum.split)

lemma rbind_cong [fundef_cong]:
  "m = m' \<Longrightarrow> (\<And>x. m' = Inr x \<Longrightarrow> k x = k' x) \<Longrightarrow> rbind m k = rbind m' k'"
  by (simp add: rbind_def split: sum.split)

text \<open>
  The outcome of a step whose only failure is the \<open>abort()\<close> of a \<open>LOG_FATAL\<close> statement, with a
  postcondition for the normal case.
\<close>

definition aborts_or :: "('a \<Rightarrow> bool) \<Rightarrow> 'a res \<Rightarrow> bool" where
  "aborts_or P r \<longleftrightarrow> (case r of Inl e \<Rightarrow> e = Aborted | Inr x \<Rightarrow> P x)"

lemma aborts_or_simps [simp, res_simps]: "aborts_or P (Inr x) \<longleftrightarrow> P x" "aborts_or P (Inl e) \<longleftrightarrow> e = Aborted"
  by (simp_all add: aborts_or_def)

lemma aborts_or_mono: "aborts_or P r \<Longrightarrow> (\<And>x. P x \<Longrightarrow> Q x) \<Longrightarrow> aborts_or Q r"
  by (auto simp: aborts_or_def split: sum.splits)

lemma aborts_or_rbind: "aborts_or P m \<Longrightarrow> (\<And>x. P x \<Longrightarrow> aborts_or Q (k x)) \<Longrightarrow> aborts_or Q (rbind m k)"
  by (cases m) auto

text \<open>A fallible step performed once per element of a list, stopping at the first failure.\<close>

fun res_iter :: "('x \<Rightarrow> 's \<Rightarrow> 's res) \<Rightarrow> 'x list \<Rightarrow> 's \<Rightarrow> 's res" where
  "res_iter f [] s = Inr s"
| "res_iter f (x # xs) s = rbind (f x s) (\<lambda>s'. res_iter f xs s')"

lemma res_iter_append: "res_iter f (xs @ ys) s = rbind (res_iter f xs s) (\<lambda>s'. res_iter f ys s')"
  by (induction xs arbitrary: s) (auto simp: rbind_def split: sum.split)


lemma res_iter_length: "length xs = length ys \<Longrightarrow> res_iter (\<lambda>_. f) xs s = res_iter (\<lambda>_. f) ys s"
  by (induction xs ys arbitrary: s rule: list_induct2) (simp_all add: rbind_def split: sum.split)


section \<open>Integer conversions\<close>

text \<open>
  \<open>size_t\<close> values are natural numbers below \<open>2 ^ 64\<close>, \<open>int\<close> values are integers
  between \<open>- 2 ^ 31\<close> and \<open>2 ^ 31 - 1\<close>. A conversion to either type reduces its argument
  modulo the width, which is also what arithmetic on \<open>size_t\<close> does.
\<close>

definition size_t :: "int \<Rightarrow> nat" where
  "size_t i = nat (i mod 2 ^ 64)"

definition int32 :: "int \<Rightarrow> int" where
  "int32 i = (i + 2 ^ 31) mod 2 ^ 32 - 2 ^ 31"

definition INT_MAX :: int where
  "INT_MAX = 2 ^ 31 - 1"

definition INT_MIN :: int where
  "INT_MIN = - (2 ^ 31)"

definition vector_max_size :: nat where
  "vector_max_size = 2 ^ 63 - 1"

lemma size_t_of_nat [conv_simps]: "n < 2 ^ 64 \<Longrightarrow> size_t (int n) = n"
  by (simp add: size_t_def)

lemma size_t_nonneg [conv_simps]: "0 \<le> i \<Longrightarrow> i < 2 ^ 64 \<Longrightarrow> size_t i = nat i"
  by (simp add: size_t_def)

lemma size_t_diff [conv_simps]: "m \<le> n \<Longrightarrow> n < 2 ^ 64 \<Longrightarrow> size_t (int n - int m) = n - m"
  by (simp add: size_t_def)

lemma size_t_sum [conv_simps]: "m + n < 2 ^ 64 \<Longrightarrow> size_t (int m + int n) = m + n"
  by (simp add: size_t_def)

lemma size_t_less: "size_t i < 2 ^ 64"
proof -
  have "0 \<le> i mod 2 ^ 64" "i mod 2 ^ 64 < (2 ^ 64 :: int)" by simp_all
  then show ?thesis unfolding size_t_def by simp
qed

lemma size_t_negative:
  assumes "- (2 ^ 64) \<le> i" "i < 0"
  shows "size_t i = nat (i + 2 ^ 64)"
proof -
  have "i mod 2 ^ 64 = (i + 2 ^ 64) mod 2 ^ 64" by simp
  also have "\<dots> = i + 2 ^ 64" using assms by (intro mod_pos_pos_trivial) auto
  finally show ?thesis by (simp add: size_t_def)
qed

lemma int32_id [conv_simps]: "- (2 ^ 31) \<le> i \<Longrightarrow> i < 2 ^ 31 \<Longrightarrow> int32 i = i"
  by (simp add: int32_def)

lemma int32_of_nat [conv_simps]: "n < 2 ^ 31 \<Longrightarrow> int32 (int n) = int n"
  by (simp add: int32_def)

lemma int32_range: "INT_MIN \<le> int32 i \<and> int32 i \<le> INT_MAX"
proof -
  have "0 \<le> (i + 2 ^ 31) mod 2 ^ 32" "(i + 2 ^ 31) mod 2 ^ 32 < (2 ^ 32 :: int)" by simp_all
  then show ?thesis unfolding int32_def INT_MIN_def INT_MAX_def by simp
qed

lemmas limit_defs = INT_MAX_def INT_MIN_def vector_max_size_def


section \<open>Character ranges\<close>

text \<open>
  A range \<open>[first, last)\<close> of characters is a list, a pointer into it an offset, and
  \<open>last\<close> its length. \<open>std_find c xs\<close> and \<open>std_search p xs\<close> are the offsets that
  \<open>std::find\<close> and \<open>std::search\<close> return.
\<close>

type_synonym bytes = "char list"

definition std_find :: "char \<Rightarrow> bytes \<Rightarrow> nat" where
  "std_find c xs = length (takeWhile (\<lambda>x. x \<noteq> c) xs)"

fun std_search :: "bytes \<Rightarrow> bytes \<Rightarrow> nat" where
  "std_search p [] = 0"
| "std_search p (x # xs) =
     (if take (length p) (x # xs) = p then 0 else Suc (std_search p xs))"

definition CR :: char where "CR = CHR 0x0D"
definition LF :: char where "LF = CHR 0x0A"
definition NUL :: char where "NUL = CHR 0x00"
definition CRLF :: bytes where "CRLF = [CR, LF]"

text \<open>The characters that \<open>isspace\<close> accepts in the C locale.\<close>

definition isspace :: "char \<Rightarrow> bool" where
  "isspace c \<longleftrightarrow> c \<in> {CHR '' '', CHR 0x09, CHR 0x0A, CHR 0x0B, CHR 0x0C, CHR 0x0D}"

text \<open>
  \<open>write_at xs i ys\<close> is the memory \<open>xs\<close> after the bytes \<open>ys\<close> were stored from offset
  \<open>i\<close> on; \<open>segment xs i j\<close> is the content of \<open>[i, j)\<close>.
\<close>

definition write_at :: "'a list \<Rightarrow> nat \<Rightarrow> 'a list \<Rightarrow> 'a list" where
  "write_at xs i ys = take i xs @ ys @ drop (i + length ys) xs"

definition segment :: "'a list \<Rightarrow> nat \<Rightarrow> nat \<Rightarrow> 'a list" where
  "segment xs i j = drop i (take j xs)"

text \<open>\<open>std::vector::resize\<close>: cut off, or fill up with value-initialised elements.\<close>

definition vector_resize :: "nat \<Rightarrow> bytes \<Rightarrow> bytes" where
  "vector_resize n xs = take n xs @ replicate (n - length xs) NUL"

text \<open>A C string in a character array ends before the first null character.\<close>

definition c_str :: "bytes \<Rightarrow> bytes" where
  "c_str xs = takeWhile (\<lambda>c. c \<noteq> NUL) xs"

text \<open>
  \<open>snprintf (buf, n, \<dots>)\<close> stores at most \<open>n - 1\<close> characters of the formatted text and a
  terminating null character: \<open>snprintf_to n s\<close> is the C string it leaves in \<open>buf\<close>.
\<close>

definition snprintf_to :: "nat \<Rightarrow> bytes \<Rightarrow> bytes" where
  "snprintf_to n s = take (n - 1) s"

lemma length_write_at [simp]:
  "i + length ys \<le> length xs \<Longrightarrow> length (write_at xs i ys) = length xs"
  by (simp add: write_at_def)

lemma write_at_Nil [simp]: "write_at xs i [] = xs"
  by (simp add: write_at_def)

lemma length_segment [simp]: "j \<le> length xs \<Longrightarrow> length (segment xs i j) = j - i"
  by (simp add: segment_def)

lemma segment_empty [simp]: "segment xs i i = []"
  by (simp add: segment_def)

lemma segment_full [simp]: "segment xs 0 (length xs) = xs"
  by (simp add: segment_def)

lemma drop_segment: "drop k (segment xs i j) = segment xs (i + k) j"
  by (simp add: segment_def add.commute)

lemma take_segment: "i + k \<le> j \<Longrightarrow> take k (segment xs i j) = segment xs i (i + k)"
  by (simp add: segment_def take_drop min_def add.commute)

lemma segment_append_adjacent:
  assumes "i \<le> j" "j \<le> k"
  shows "segment xs i j @ segment xs j k = segment xs i k"
proof -
  have "segment xs i j = take (j - i) (segment xs i k)"
    using assms by (simp add: take_segment)
  moreover have "segment xs j k = drop (j - i) (segment xs i k)"
    using assms by (simp add: drop_segment)
  ultimately show ?thesis by simp
qed

lemma take_write_at: "j \<le> i \<Longrightarrow> i \<le> length xs \<Longrightarrow> take j (write_at xs i ys) = take j xs"
  by (simp add: write_at_def min_def)

lemma segment_write_at_before:
  "j \<le> i \<Longrightarrow> i \<le> length xs \<Longrightarrow> segment (write_at xs i ys) k j = segment xs k j"
  by (simp add: segment_def take_write_at)

lemma segment_write_at_same:
  "i + length ys \<le> length xs \<Longrightarrow> segment (write_at xs i ys) i (i + length ys) = ys"
  by (simp add: segment_def write_at_def)

lemma segment_append_write_at:
  assumes "k \<le> i" "i + length ys \<le> length xs"
  shows "segment (write_at xs i ys) k (i + length ys) = segment xs k i @ ys"
proof -
  have "segment (write_at xs i ys) k (i + length ys)
      = segment (write_at xs i ys) k i @ segment (write_at xs i ys) i (i + length ys)"
    using assms by (simp add: segment_append_adjacent)
  then show ?thesis
    using assms by (simp add: segment_write_at_before segment_write_at_same)
qed

lemma length_vector_resize [simp]: "length (vector_resize n xs) = n"
  by (simp add: vector_resize_def)

lemma segment_vector_resize:
  "j \<le> n \<Longrightarrow> j \<le> length xs \<Longrightarrow> segment (vector_resize n xs) i j = segment xs i j"
  by (simp add: segment_def vector_resize_def min_def)

lemma std_find_le [simp]: "std_find c xs \<le> length xs"
  by (simp add: std_find_def length_takeWhile_le)

lemma std_find_append_hit [simp]:
  "c \<notin> set xs \<Longrightarrow> std_find c (xs @ c # ys) = length xs"
  by (induction xs) (auto simp: std_find_def)

lemma std_find_miss [simp]: "c \<notin> set xs \<Longrightarrow> std_find c xs = length xs"
  by (induction xs) (auto simp: std_find_def)

lemma std_find_eq_length_iff: "std_find c xs = length xs \<longleftrightarrow> c \<notin> set xs"
  by (induction xs) (auto simp: std_find_def)

lemma std_search_le: "std_search p xs \<le> length xs"
  by (induction p xs rule: std_search.induct) auto

lemma std_search_hit:
  assumes "std_search p xs < length xs"
  shows "take (length p) (drop (std_search p xs) xs) = p"
  using assms by (induction p xs rule: std_search.induct) (auto split: if_splits)

lemma std_search_first:
  assumes "i < std_search p xs"
  shows "take (length p) (drop i xs) \<noteq> p"
  using assms
proof (induction p xs arbitrary: i rule: std_search.induct)
  case (1 p)
  then show ?case by simp
next
  case (2 p x xs)
  then show ?case by (cases i) (auto split: if_splits)
qed

lemma std_search_hit_room:
  assumes "std_search p xs < length xs"
  shows "std_search p xs + length p \<le> length xs"
proof -
  have "length (take (length p) (drop (std_search p xs) xs)) = length p"
    using std_search_hit [OF assms] by simp
  then show ?thesis using assms by (auto simp: min_def split: if_splits)
qed

text \<open>The two directions: a hit splits the range, and every occurrence is at or behind it.\<close>

lemma std_search_split:
  assumes "std_search p xs < length xs"
  shows "\<exists>us vs. xs = us @ p @ vs \<and> length us = std_search p xs"
proof (intro exI conjI)
  show "xs = take (std_search p xs) xs @ p @ drop (length p) (drop (std_search p xs) xs)"
    using append_take_drop_id [of "length p" "drop (std_search p xs) xs"]
    unfolding std_search_hit [OF assms] by simp
  show "length (take (std_search p xs) xs) = std_search p xs"
    using assms by simp
qed

lemma std_search_occurs: "xs = us @ p @ vs \<Longrightarrow> std_search p xs \<le> length us"
  using std_search_first [of "length us" p xs] by fastforce

text \<open>A match inside a range is not changed by bytes that arrive behind it.\<close>

lemma std_search_append:
  assumes "std_search p xs < length xs"
  shows "std_search p (xs @ ys) = std_search p xs"
proof (rule antisym)
  have room: "std_search p xs + length p \<le> length xs" by (rule std_search_hit_room [OF assms])
  obtain us vs where "xs = us @ p @ vs" "length us = std_search p xs"
    using std_search_split [OF assms] by blast
  then show "std_search p (xs @ ys) \<le> std_search p xs"
    using std_search_occurs [of "xs @ ys" us p "vs @ ys"] by simp
  show "std_search p xs \<le> std_search p (xs @ ys)"
  proof (rule ccontr)
    assume less: "\<not> std_search p xs \<le> std_search p (xs @ ys)"
    let ?i = "std_search p (xs @ ys)"
    have "take (length p) (drop ?i (xs @ ys)) = p"
      using less assms by (intro std_search_hit) simp
    moreover have "?i + length p \<le> length xs" using less room by simp
    ultimately have "take (length p) (drop ?i xs) = p" by simp
    then show False using std_search_first [of ?i p xs] less by simp
  qed
qed

lemma std_search_CRLF_line [simp]:
  "CR \<notin> set line \<Longrightarrow> std_search CRLF (line @ CRLF @ rest) = length line"
proof (induction line)
  case Nil
  then show ?case by (simp add: CRLF_def)
next
  case (Cons c line)
  then have "take (length CRLF) ((c # line) @ CRLF @ rest) \<noteq> CRLF" by (auto simp: CRLF_def)
  with Cons show ?case by simp
qed


section \<open>Decimal numerals\<close>

text \<open>
  The text that the directives \<open>%d\<close>, \<open>%u\<close> and \<open>%zd\<close> produce, and \<open>%0wd\<close> with a field
  width \<open>w\<close> for the non-negative numbers of a date.
\<close>

definition digit :: "nat \<Rightarrow> char" where
  "digit d = char_of (48 + d)"

lemma digit_eval [simp]:
  "digit 0 = CHR ''0''" "digit (Suc 0) = CHR ''1''" "digit 1 = CHR ''1''" "digit 2 = CHR ''2''" "digit 3 = CHR ''3''"
  "digit 4 = CHR ''4''" "digit 5 = CHR ''5''" "digit 6 = CHR ''6''" "digit 7 = CHR ''7''"
  "digit 8 = CHR ''8''" "digit 9 = CHR ''9''"
  by code_simp+

fun show_nat :: "nat \<Rightarrow> bytes" where
  "show_nat n = (if n < 10 then [digit n] else show_nat (n div 10) @ [digit (n mod 10)])"

declare show_nat.simps [simp del]

definition show_int :: "int \<Rightarrow> bytes" where
  "show_int i = (if i < 0 then CHR ''-'' # show_nat (nat (- i)) else show_nat (nat i))"

definition show_padded :: "nat \<Rightarrow> nat \<Rightarrow> bytes" where
  "show_padded w n = replicate (w - length (show_nat n)) (CHR ''0'') @ show_nat n"

definition digit_value :: "char \<Rightarrow> nat" where
  "digit_value c = of_char c - 48"

fun read_nat :: "nat \<Rightarrow> bytes \<Rightarrow> nat" where
  "read_nat a [] = a"
| "read_nat a (c # cs) = read_nat (10 * a + digit_value c) cs"

lemma digit_value_digit [simp]: "d < 10 \<Longrightarrow> digit_value (digit d) = d"
  by (simp add: digit_value_def digit_def)

lemma read_nat_append: "read_nat a (xs @ ys) = read_nat (read_nat a xs) ys"
  by (induction xs arbitrary: a) simp_all

lemma read_show_nat [simp]: "read_nat 0 (show_nat n) = n"
proof (induction n rule: show_nat.induct)
  case (1 n)
  then show ?case
    by (cases "n < 10") (simp_all add: show_nat.simps [of n] read_nat_append)
qed

lemma show_nat_inject [simp]: "show_nat m = show_nat n \<longleftrightarrow> m = n"
  by (metis read_show_nat)

lemma show_nat_not_Nil [simp]: "show_nat n \<noteq> []"
  by (simp add: show_nat.simps [of n])

lemma set_show_nat: "set (show_nat n) \<subseteq> digit ` {..<10}"
proof (induction n rule: show_nat.induct)
  case (1 n)
  then show ?case by (cases "n < 10") (auto simp: show_nat.simps [of n])
qed

lemma length_show_nat_le: "n < 10 ^ Suc k \<Longrightarrow> length (show_nat n) \<le> Suc k"
proof (induction k arbitrary: n)
  case 0
  then show ?case by (simp add: show_nat.simps [of n])
next
  case (Suc k)
  then have "n div 10 < 10 ^ Suc k" by (simp add: less_mult_imp_div_less mult.commute)
  then show ?case using Suc.IH [of "n div 10"] by (simp add: show_nat.simps [of n])
qed

lemma length_show_nat_ge: "10 ^ k \<le> n \<Longrightarrow> k < length (show_nat n)"
proof (induction k arbitrary: n)
  case 0
  then show ?case by simp
next
  case (Suc k)
  then have "10 ^ k \<le> n div 10" by (simp add: div_le_mono less_eq_div_iff_mult_less_eq mult.commute)
  moreover have "10 \<le> n"
  proof (rule order_trans)
    show "10 \<le> (10::nat) ^ Suc k" by simp
  qed (rule Suc.prems)
  ultimately show ?case using Suc.IH [of "n div 10"] by (simp add: show_nat.simps [of n])
qed

lemma length_show_padded:
  "n < 10 ^ Suc k \<Longrightarrow> length (show_padded (Suc k) n) = Suc k"
  using length_show_nat_le [of n k] by (simp add: show_padded_def)

lemma show_int_inject [simp]: "show_int i = show_int j \<longleftrightarrow> i = j"
proof -
  have "show_nat n \<noteq> CHR ''-'' # xs" for n xs
  proof
    assume "show_nat n = CHR ''-'' # xs"
    then obtain d where "d < 10" "CHR ''-'' = digit d" using set_show_nat [of n] by auto
    then have "of_char (CHR ''-'') = (48 + d :: nat)" by (simp add: digit_def)
    then show False by simp
  qed
  then show ?thesis by (auto simp: show_int_def nat_eq_iff2 split: if_splits) (metis)+
qed

end
