(* ===== verification/Net_Buffer.thy ===== *)
theory Net_Buffer
  imports Prelude
begin

text \<open>
  The application-level buffer of a connection (\<open>src/net/Buffer.h\<close>, \<open>src/net/Buffer.cc\<close>):
  a vector of characters with a read and a write index. A pointer into the vector is an
  offset. An access outside the vector, a signed overflow and an impossible resize are
  failures of the operation. The \<open>readv\<close> and \<open>write\<close> system calls are parameters: what
  they return (and the bytes they deliver) is an argument of the model.

  The theory ends with the contract of the buffer as a locale (\<open>byte_queue\<close>): every
  operation acts on the readable bytes as on a queue of characters.
\<close>

section \<open>State and accessors\<close>

record buffer =
  buffer_data :: bytes
  readIndex :: nat
  writeIndex :: nat

definition InitialPrependSize :: nat where
  "InitialPrependSize = 8"

definition InitialSize :: nat where
  "InitialSize = 1024"

definition Buffer_size :: "buffer \<Rightarrow> nat" where
  "Buffer_size b = length (buffer_data b)"

definition Buffer_ctor :: "nat \<Rightarrow> buffer res" where
  "Buffer_ctor initialSize =
     (let n = size_t (int InitialPrependSize + int initialSize)
      in if n > vector_max_size then Inl LengthError
         else Inr \<lparr>buffer_data = replicate n NUL,
                   readIndex = InitialPrependSize, writeIndex = InitialPrependSize\<rparr>)"

definition Buffer_readableBytes :: "buffer \<Rightarrow> nat" where
  "Buffer_readableBytes b = size_t (int (writeIndex b) - int (readIndex b))"

definition Buffer_writeableBytes :: "buffer \<Rightarrow> nat" where
  "Buffer_writeableBytes b = size_t (int (Buffer_size b) - int (writeIndex b))"

definition Buffer_prependableBytes :: "buffer \<Rightarrow> nat" where
  "Buffer_prependableBytes b = readIndex b"

text \<open>The pointers \<open>peek()\<close> and \<open>beginWrite()\<close>, as offsets from \<open>begin_()\<close>.\<close>

definition Buffer_peek :: "buffer \<Rightarrow> nat" where
  "Buffer_peek b = readIndex b"

definition Buffer_beginWrite :: "buffer \<Rightarrow> nat" where
  "Buffer_beginWrite b = writeIndex b"

text \<open>\<open>std::string (begin_() + i, len)\<close>: the bytes have to lie inside the vector.\<close>

definition string_at :: "buffer \<Rightarrow> nat \<Rightarrow> nat \<Rightarrow> bytes res" where
  "string_at b i len =
     (if i + len \<le> Buffer_size b then Inr (segment (buffer_data b) i (i + len))
      else Inl OutOfBounds)"


section \<open>Taking bytes out\<close>

definition Buffer_retrieveAll :: "buffer \<Rightarrow> buffer" where
  "Buffer_retrieveAll b =
     b\<lparr>readIndex := InitialPrependSize, writeIndex := InitialPrependSize\<rparr>"

text \<open>
  The parameter \<open>len\<close> is an \<open>int\<close>; comparing it with \<open>readableBytes()\<close> and adding it to
  \<open>readIndex_\<close> converts it to \<open>size_t\<close>.
\<close>

definition Buffer_retrieve :: "int \<Rightarrow> buffer \<Rightarrow> buffer" where
  "Buffer_retrieve len b =
     (if size_t len < Buffer_readableBytes b
      then b\<lparr>readIndex := size_t (int (readIndex b) + len)\<rparr>
      else Buffer_retrieveAll b)"

definition Buffer_retrieveUtil :: "nat \<Rightarrow> buffer \<Rightarrow> buffer" where
  "Buffer_retrieveUtil end_off b =
     Buffer_retrieve (int32 (int end_off - int (Buffer_peek b))) b"

definition Buffer_getAllAsString :: "buffer \<Rightarrow> bytes res" where
  "Buffer_getAllAsString b = string_at b (Buffer_peek b) (Buffer_readableBytes b)"

definition Buffer_retrieveAsString :: "nat \<Rightarrow> buffer \<Rightarrow> (bytes \<times> buffer) res" where
  "Buffer_retrieveAsString len b =
     rbind (string_at b (Buffer_peek b) len)
       (\<lambda>s. Inr (s, Buffer_retrieve (int32 (int len)) b))"

definition Buffer_retrieveAllAsString :: "buffer \<Rightarrow> (bytes \<times> buffer) res" where
  "Buffer_retrieveAllAsString b = Buffer_retrieveAsString (Buffer_readableBytes b) b"


section \<open>Putting bytes in\<close>

text \<open>
  \<open>std::copy\<close> of \<open>[frm, till)\<close> of the vector to \<open>dest\<close>, inside the same vector.
\<close>

definition copy_within :: "nat \<Rightarrow> nat \<Rightarrow> nat \<Rightarrow> bytes \<Rightarrow> bytes res" where
  "copy_within frm till dest xs =
     (if frm \<le> till \<and> till \<le> length xs \<and> dest + (till - frm) \<le> length xs
      then Inr (write_at xs dest (segment xs frm till))
      else Inl OutOfBounds)"

definition Buffer_resize :: "int \<Rightarrow> buffer \<Rightarrow> buffer res" where
  "Buffer_resize len b =
     (if len + int InitialPrependSize > INT_MAX then Inl SignedOverflow
      else if size_t (int (Buffer_prependableBytes b) + int (Buffer_writeableBytes b))
                < size_t (len + int InitialPrependSize)
      then (let n = size_t (int (writeIndex b) + len)
            in if n > vector_max_size then Inl LengthError
               else Inr (b\<lparr>buffer_data := vector_resize n (buffer_data b)\<rparr>))
      else (let readablebytes = Buffer_readableBytes b
            in rbind (copy_within (readIndex b) (writeIndex b) InitialPrependSize (buffer_data b))
                 (\<lambda>xs. Inr (b\<lparr>buffer_data := xs, readIndex := InitialPrependSize,
                              writeIndex := size_t (int readablebytes + int InitialPrependSize)\<rparr>))))"

definition Buffer_ensureWriteableBytes :: "nat \<Rightarrow> buffer \<Rightarrow> buffer res" where
  "Buffer_ensureWriteableBytes len b =
     (if Buffer_writeableBytes b < len then Buffer_resize (int32 (int len)) b else Inr b)"

definition Buffer_append :: "bytes \<Rightarrow> buffer \<Rightarrow> buffer res" where
  "Buffer_append data b =
     rbind (Buffer_ensureWriteableBytes (length data) b)
       (\<lambda>b'. if Buffer_beginWrite b' + length data \<le> Buffer_size b'
             then Inr (b'\<lparr>buffer_data := write_at (buffer_data b') (Buffer_beginWrite b') data,
                         writeIndex := size_t (int (writeIndex b') + int (length data))\<rparr>)
             else Inl OutOfBounds)"

text \<open>
  \<open>findCRLF()\<close> searches the readable range; \<open>None\<close> is the null pointer, otherwise the
  offset of the match.
\<close>

definition Buffer_findCRLF :: "buffer \<Rightarrow> nat option" where
  "Buffer_findCRLF b =
     (let crlf = Buffer_peek b
            + std_search CRLF (segment (buffer_data b) (Buffer_peek b) (Buffer_beginWrite b))
      in if crlf = Buffer_beginWrite b then None else Some crlf)"


section \<open>System calls on the buffer\<close>

text \<open>
  The outcome of \<open>readv\<close> and \<open>write\<close>: an error number (the call returned \<open>-1\<close>), or what
  was transferred. \<open>readv\<close> fills the writable part of the vector first and the array
  \<open>extrabuf\<close> on the stack afterwards; the second entry is offered only when the first is
  shorter than the array (\<open>iovcnt\<close>).
\<close>

type_synonym errno = int

definition extrabuf_size :: nat where
  "extrabuf_size = 65536"

definition readv_capacity :: "buffer \<Rightarrow> nat" where
  "readv_capacity b =
     (let iovcnt = (if Buffer_writeableBytes b < extrabuf_size then 2 else 1 :: nat)
      in Buffer_writeableBytes b + (if iovcnt = 2 then extrabuf_size else 0))"

definition Buffer_readFd ::
    "errno + bytes \<Rightarrow> buffer \<Rightarrow> (int \<times> errno option \<times> buffer) res" where
  "Buffer_readFd outcome b =
     (case outcome of
        Inl e \<Rightarrow> Inr (-1, Some e, b)
      | Inr data \<Rightarrow>
          (let writeablebytes = Buffer_writeableBytes b;
               n = length data;
               b1 = b\<lparr>buffer_data := write_at (buffer_data b) (writeIndex b) (take writeablebytes data)\<rparr>
           in if n \<le> writeablebytes
              then Inr (int n, None, b1\<lparr>writeIndex := size_t (int (writeIndex b) + int n)\<rparr>)
              else rbind (Buffer_append (drop writeablebytes data)
                            (b1\<lparr>writeIndex := Buffer_size b1\<rparr>))
                     (\<lambda>b2. Inr (int n, None, b2))))"

text \<open>
  \<open>writeFd\<close> passes the readable bytes to \<open>write\<close> and returns what the call returned. The
  buffer is not changed (the caller moves the read index); the third component of the result
  is the part of the bytes that the call took.
\<close>

definition Buffer_writeFd :: "errno + nat \<Rightarrow> buffer \<Rightarrow> (int \<times> errno option \<times> bytes) res" where
  "Buffer_writeFd outcome b =
     rbind (string_at b (Buffer_peek b) (Buffer_readableBytes b))
       (\<lambda>s. case outcome of
               Inl e \<Rightarrow> Inr (-1, Some e, [])
             | Inr n \<Rightarrow> Inr (int n, None, take n s))"


section \<open>Invariant and abstraction\<close>

definition Buffer_inv :: "buffer \<Rightarrow> bool" where
  "Buffer_inv b \<longleftrightarrow> InitialPrependSize \<le> readIndex b \<and> readIndex b \<le> writeIndex b \<and>
     writeIndex b \<le> Buffer_size b \<and> Buffer_size b \<le> vector_max_size"

definition Buffer_abs :: "buffer \<Rightarrow> bytes" where
  "Buffer_abs b = segment (buffer_data b) (readIndex b) (writeIndex b)"

text \<open>
  Room for \<open>n\<close> more bytes: the vector can still grow by them and the request fits the
  \<open>int\<close> parameter of \<open>resize_\<close> with the prepended area added.
\<close>

definition Buffer_room :: "nat \<Rightarrow> buffer \<Rightarrow> bool" where
  "Buffer_room n b \<longleftrightarrow> int n + int InitialPrependSize \<le> INT_MAX \<and> Buffer_size b + n \<le> vector_max_size"

lemmas Buffer_inv_defs = Buffer_inv_def limit_defs InitialPrependSize_def

named_theorems buffer_simps \<open>accessors of a well-formed buffer\<close>

lemma Buffer_readableBytes_inv [buffer_simps]:
  "Buffer_inv b \<Longrightarrow> Buffer_readableBytes b = writeIndex b - readIndex b"
  by (simp add: Buffer_readableBytes_def Buffer_inv_defs conv_simps)

lemma Buffer_writeableBytes_inv [buffer_simps]:
  "Buffer_inv b \<Longrightarrow> Buffer_writeableBytes b = Buffer_size b - writeIndex b"
  by (simp add: Buffer_writeableBytes_def Buffer_inv_defs conv_simps)

lemma Buffer_abs_length [buffer_simps]:
  "Buffer_inv b \<Longrightarrow> length (Buffer_abs b) = writeIndex b - readIndex b"
  by (simp add: Buffer_abs_def Buffer_inv_def Buffer_size_def)

lemma Buffer_readableBytes_abs: "Buffer_inv b \<Longrightarrow> Buffer_readableBytes b = length (Buffer_abs b)"
  by (simp add: buffer_simps)

lemma Buffer_string_at_abs [buffer_simps]:
  "Buffer_inv b \<Longrightarrow> string_at b (readIndex b) (writeIndex b - readIndex b) = Inr (Buffer_abs b)"
  by (simp add: string_at_def Buffer_inv_def Buffer_abs_def)

lemma Buffer_abs_bound: "Buffer_inv b \<Longrightarrow> length (Buffer_abs b) < 2 ^ 63"
  by (auto simp: buffer_simps Buffer_inv_defs)


section \<open>The operations on the readable bytes\<close>

lemma Buffer_ctor_ok:
  assumes "n + InitialPrependSize \<le> vector_max_size"
  obtains b where "Buffer_ctor n = Inr b" "Buffer_inv b" "Buffer_abs b = []"
    "Buffer_size b = n + InitialPrependSize"
proof
  let ?b = "\<lparr>buffer_data = replicate (n + InitialPrependSize) NUL,
              readIndex = InitialPrependSize, writeIndex = InitialPrependSize\<rparr>"
  show "Buffer_ctor n = Inr ?b"
    using assms size_t_sum [of InitialPrependSize n]
    by (simp add: Buffer_ctor_def Let_def limit_defs InitialPrependSize_def)
  show "Buffer_inv ?b" using assms by (simp add: Buffer_inv_def Buffer_size_def)
  show "Buffer_abs ?b = []" by (simp add: Buffer_abs_def)
  show "Buffer_size ?b = n + InitialPrependSize" by (simp add: Buffer_size_def)
qed

lemma Buffer_retrieveAll_inv [simp, intro]: "Buffer_inv b \<Longrightarrow> Buffer_inv (Buffer_retrieveAll b)"
  by (simp add: Buffer_inv_def Buffer_retrieveAll_def Buffer_size_def)

lemma Buffer_retrieveAll_abs [simp]: "Buffer_abs (Buffer_retrieveAll b) = []"
  by (simp add: Buffer_abs_def Buffer_retrieveAll_def)

lemma Buffer_retrieve_inv [intro]:
  assumes "Buffer_inv b"
  shows "Buffer_inv (Buffer_retrieve len b)"
proof (cases "size_t len < Buffer_readableBytes b")
  case True
  have "size_t (int (readIndex b) + len) = readIndex b + size_t len"
  proof -
    have "size_t (int (readIndex b) + len) = size_t (int (readIndex b) + int (size_t len))"
      by (simp add: size_t_def mod_add_right_eq)
    also have "\<dots> = readIndex b + size_t len"
      using True assms by (intro size_t_sum) (auto simp: buffer_simps Buffer_inv_defs)
    finally show ?thesis .
  qed
  then show ?thesis
    using True assms by (simp add: Buffer_retrieve_def buffer_simps Buffer_inv_def Buffer_size_def)
next
  case False
  then show ?thesis using assms by (simp add: Buffer_retrieve_def)
qed

lemma Buffer_retrieve_abs:
  assumes inv: "Buffer_inv b" and len: "0 \<le> len" "len \<le> INT_MAX"
  shows "Buffer_abs (Buffer_retrieve len b) = drop (nat len) (Buffer_abs b)"
proof -
  have st: "size_t len = nat len" using len by (simp add: conv_simps limit_defs)
  show ?thesis
  proof (cases "nat len < Buffer_readableBytes b")
    case True
    then have "size_t (int (readIndex b) + len) = readIndex b + nat len"
      using inv len size_t_sum [of "readIndex b" "nat len"] by (auto simp: buffer_simps Buffer_inv_defs)
    then show ?thesis
      using True st by (simp add: Buffer_retrieve_def Buffer_abs_def drop_segment)
  next
    case False
    then have "drop (nat len) (Buffer_abs b) = []" using inv by (simp add: Buffer_readableBytes_abs)
    then show ?thesis using False st by (simp add: Buffer_retrieve_def)
  qed
qed

lemma Buffer_retrieveAll_size [simp]: "Buffer_size (Buffer_retrieveAll b) = Buffer_size b"
  by (simp add: Buffer_retrieveAll_def Buffer_size_def)

lemma Buffer_retrieve_size [simp]: "Buffer_size (Buffer_retrieve len b) = Buffer_size b"
  by (simp add: Buffer_retrieve_def Buffer_retrieveAll_def Buffer_size_def)

text \<open>A negative length is a huge \<open>size_t\<close>, so that everything is dropped.\<close>

lemma Buffer_retrieve_negative:
  assumes "Buffer_inv b" "INT_MIN \<le> len" "len < 0"
  shows "Buffer_retrieve len b = Buffer_retrieveAll b"
proof -
  have "size_t len = nat (len + 2 ^ 64)" using assms by (intro size_t_negative) (auto simp: limit_defs)
  moreover have "Buffer_readableBytes b < 2 ^ 63"
    using Buffer_abs_bound [OF assms(1)] assms(1) by (simp add: Buffer_readableBytes_abs)
  ultimately have "\<not> size_t len < Buffer_readableBytes b"
    using assms(2) by (simp add: limit_defs)
  then show ?thesis by (simp add: Buffer_retrieve_def)
qed

lemma Buffer_free_sum [buffer_simps]:
  assumes "Buffer_inv b"
  shows "size_t (int (Buffer_prependableBytes b) + int (Buffer_writeableBytes b))
    = Buffer_prependableBytes b + Buffer_writeableBytes b"
proof (rule size_t_sum)
  have "Buffer_prependableBytes b + Buffer_writeableBytes b \<le> Buffer_size b"
    using assms by (auto simp: Buffer_prependableBytes_def Buffer_writeableBytes_inv Buffer_inv_def)
  also have "\<dots> < 2 ^ 64" using assms by (simp add: Buffer_inv_defs)
  finally show "Buffer_prependableBytes b + Buffer_writeableBytes b < 2 ^ 64" .
qed

text \<open>
  What \<open>resize_\<close> establishes when it is called because the writable area is too short: the
  readable bytes stay, \<open>len\<close> bytes can be written behind them, and the vector grows by at
  most \<open>len\<close>.
\<close>

lemma Buffer_resize_ok:
  assumes inv: "Buffer_inv b" and room: "Buffer_room n b" and short: "Buffer_writeableBytes b < n"
  obtains b' where "Buffer_resize (int n) b = Inr b'" "Buffer_inv b'" "Buffer_abs b' = Buffer_abs b"
    "writeIndex b' + n \<le> Buffer_size b'" "Buffer_size b' \<le> Buffer_size b + n"
proof (cases "Buffer_prependableBytes b + Buffer_writeableBytes b < n + InitialPrependSize")
  case True
  let ?b' = "b\<lparr>buffer_data := vector_resize (writeIndex b + n) (buffer_data b)\<rparr>"
  have n: "size_t (int (writeIndex b) + int n) = writeIndex b + n"
    using inv room by (intro size_t_sum) (auto simp: Buffer_inv_defs Buffer_room_def)
  have "Buffer_resize (int n) b = Inr ?b'"
    using True inv room n size_t_sum [of n InitialPrependSize]
    by (auto simp: Buffer_resize_def Let_def Buffer_room_def Buffer_free_sum Buffer_inv_defs)
  moreover have "Buffer_inv ?b'" "Buffer_abs ?b' = Buffer_abs b"
    "writeIndex ?b' + n \<le> Buffer_size ?b'" "Buffer_size ?b' \<le> Buffer_size b + n"
    using inv room
    by (auto simp: Buffer_inv_def Buffer_room_def Buffer_abs_def Buffer_size_def segment_vector_resize)
  ultimately show ?thesis by (rule that)
next
  case False
  let ?P = InitialPrependSize and ?l = "writeIndex b - readIndex b"
  let ?b' = "b\<lparr>buffer_data := write_at (buffer_data b) ?P (Buffer_abs b),
               readIndex := ?P, writeIndex := ?P + ?l\<rparr>"
  have len: "length (Buffer_abs b) = ?l" using inv by (simp add: buffer_simps)
  have fits: "?P + ?l \<le> length (buffer_data b)"
    using inv by (auto simp: Buffer_inv_def Buffer_size_def)
  have cp: "copy_within (readIndex b) (writeIndex b) ?P (buffer_data b)
      = Inr (write_at (buffer_data b) ?P (Buffer_abs b))"
    using inv fits by (simp add: copy_within_def Buffer_inv_def Buffer_size_def Buffer_abs_def)
  have w: "size_t (int ?l + int ?P) = ?P + ?l"
    using inv size_t_sum [of ?l ?P] by (auto simp: Buffer_inv_defs)
  have "\<not> size_t (int (Buffer_prependableBytes b) + int (Buffer_writeableBytes b)) < size_t (int n + int ?P)"
    using False inv room size_t_sum [of n ?P]
    by (simp add: Buffer_room_def Buffer_free_sum limit_defs InitialPrependSize_def)
  then have "Buffer_resize (int n) b = Inr ?b'"
    using inv room cp w
    by (simp add: Buffer_resize_def Let_def Buffer_room_def Buffer_readableBytes_inv del: of_nat_diff)
  moreover have "Buffer_inv ?b'" "Buffer_size ?b' \<le> Buffer_size b + n"
    using inv fits len by (auto simp: Buffer_inv_def Buffer_size_def)
  moreover have "Buffer_abs ?b' = Buffer_abs b"
    using fits len segment_write_at_same [of ?P "Buffer_abs b" "buffer_data b"]
    by (simp add: Buffer_abs_def)
  moreover have "writeIndex ?b' + n \<le> Buffer_size ?b'"
    using False inv fits len
    by (auto simp: Buffer_prependableBytes_def buffer_simps Buffer_inv_def Buffer_size_def)
  ultimately show ?thesis by (intro that)
qed

lemma Buffer_ensureWriteableBytes_ok:
  assumes inv: "Buffer_inv b" and room: "Buffer_room n b"
  obtains b' where "Buffer_ensureWriteableBytes n b = Inr b'" "Buffer_inv b'"
    "Buffer_abs b' = Buffer_abs b" "writeIndex b' + n \<le> Buffer_size b'"
    "Buffer_size b' \<le> Buffer_size b + n"
proof (cases "Buffer_writeableBytes b < n")
  case True
  have "int32 (int n) = int n"
    using room by (intro int32_id) (auto simp: Buffer_room_def limit_defs InitialPrependSize_def)
  then show ?thesis
    using Buffer_resize_ok [OF inv room True] True that
    by (metis Buffer_ensureWriteableBytes_def)
next
  case False
  then show ?thesis
    using inv by (intro that [of b])
      (auto simp: Buffer_ensureWriteableBytes_def buffer_simps Buffer_inv_def)
qed

lemma Buffer_append_ok:
  assumes inv: "Buffer_inv b" and room: "Buffer_room (length xs) b"
  obtains b' where "Buffer_append xs b = Inr b'" "Buffer_inv b'"
    "Buffer_abs b' = Buffer_abs b @ xs" "Buffer_size b' \<le> Buffer_size b + length xs"
proof -
  obtain c where c: "Buffer_ensureWriteableBytes (length xs) b = Inr c" "Buffer_inv c"
    "Buffer_abs c = Buffer_abs b" "writeIndex c + length xs \<le> Buffer_size c"
    "Buffer_size c \<le> Buffer_size b + length xs"
    by (rule Buffer_ensureWriteableBytes_ok [OF inv room])
  let ?c' = "c\<lparr>buffer_data := write_at (buffer_data c) (writeIndex c) xs,
               writeIndex := writeIndex c + length xs\<rparr>"
  have w: "size_t (int (writeIndex c) + int (length xs)) = writeIndex c + length xs"
    using c(2,4) by (intro size_t_sum) (auto simp: Buffer_inv_defs)
  have "Buffer_append xs b = Inr ?c'"
    using c(1,4) w by (simp add: Buffer_append_def Buffer_beginWrite_def)
  moreover have "Buffer_inv ?c'" "Buffer_size ?c' \<le> Buffer_size b + length xs"
    using c(2,4,5) by (auto simp: Buffer_inv_def Buffer_size_def)
  moreover have "Buffer_abs ?c' = Buffer_abs b @ xs"
    using c(2,3,4) segment_append_write_at [of "readIndex c" "writeIndex c" xs "buffer_data c"]
    by (simp add: Buffer_abs_def Buffer_inv_def Buffer_size_def)
  ultimately show ?thesis by (intro that)
qed

lemma Buffer_append_Inr:
  assumes "Buffer_inv b" "Buffer_room (length xs) b" "Buffer_append xs b = Inr b'"
  shows "Buffer_inv b'" "Buffer_abs b' = Buffer_abs b @ xs"
    "Buffer_size b' \<le> Buffer_size b + length xs"
  using Buffer_append_ok [OF assms(1,2)] assms(3) by (metis sum.inject(2))+

text \<open>The size of the vector after an append, by the branch that \<open>resize_\<close> takes.\<close>

lemma Buffer_append_size:
  assumes inv: "Buffer_inv b" and room: "Buffer_room (length xs) b" and b': "Buffer_append xs b = Inr b'"
  shows "Buffer_size b' = (if length xs \<le> Buffer_writeableBytes b then Buffer_size b
      else if length xs + InitialPrependSize \<le> Buffer_prependableBytes b + Buffer_writeableBytes b
      then Buffer_size b else writeIndex b + length xs)"
proof -
  obtain c where c: "Buffer_ensureWriteableBytes (length xs) b = Inr c"
    "Buffer_size b' = Buffer_size c"
    using b' by (auto simp: Buffer_append_def rbind_eq_Inr_iff Buffer_beginWrite_def Buffer_size_def
        split: if_splits)
  have conv: "int32 (int (length xs)) = int (length xs)"
    "size_t (int (length xs) + int InitialPrependSize) = length xs + InitialPrependSize"
    "size_t (int (writeIndex b) + int (length xs)) = writeIndex b + length xs"
    using room inv size_t_sum [of "length xs" InitialPrependSize] size_t_sum [of "writeIndex b" "length xs"]
    by (auto simp: Buffer_room_def int32_id Buffer_inv_defs)
  show ?thesis
    using c inv room
    by (auto simp: Buffer_ensureWriteableBytes_def Buffer_resize_def Let_def conv Buffer_free_sum
        copy_within_def Buffer_size_def rbind_eq_Inr_iff split: if_splits)
qed

text \<open>The limits of the \<open>int\<close> parameter: whatever \<open>len\<close> is, the space behind the write index does not exceed \<open>INT_MAX\<close>.\<close>

lemma Buffer_resize_limit:
  assumes inv: "Buffer_inv b" and size: "int (Buffer_size b) \<le> INT_MAX" and len: "INT_MIN \<le> len" "len \<le> INT_MAX"
    and b': "Buffer_resize len b = Inr b'"
  shows "Buffer_size b' \<le> writeIndex b' + nat INT_MAX"
proof (cases "size_t (int (Buffer_prependableBytes b) + int (Buffer_writeableBytes b)) < size_t (len + int InitialPrependSize)")
  case False
  then have "Buffer_size b' = Buffer_size b"
    using b' by (auto simp: Buffer_resize_def Let_def rbind_eq_Inr_iff copy_within_def Buffer_size_def split: if_splits)
  then show ?thesis using size by simp
next
  case True
  define n where "n = size_t (int (writeIndex b) + len)"
  have n: "n \<le> vector_max_size" "Buffer_size b' = n" "writeIndex b' = writeIndex b"
    using True b' by (auto simp: Buffer_resize_def Let_def n_def Buffer_size_def split: if_splits)
  have wi: "int (writeIndex b) \<le> INT_MAX" using inv size by (simp add: Buffer_inv_def)
  have "0 \<le> int (writeIndex b) + len"
  proof (rule ccontr)
    assume neg: "\<not> 0 \<le> int (writeIndex b) + len"
    then have "n = nat (int (writeIndex b) + len + 2 ^ 64)"
      unfolding n_def using len by (intro size_t_negative) (auto simp: limit_defs)
    then show False using n(1) len neg by (simp add: limit_defs)
  qed
  then have "n = nat (int (writeIndex b) + len)"
    unfolding n_def using wi len by (intro size_t_nonneg) (auto simp: limit_defs)
  then show ?thesis using n len by (simp add: limit_defs)
qed

lemma Buffer_append_errors: "Buffer_append xs b = Inl e \<Longrightarrow> e \<in> {SignedOverflow, LengthError, OutOfBounds}"
  by (auto simp: Buffer_append_def Buffer_ensureWriteableBytes_def Buffer_resize_def copy_within_def Let_def rbind_eq_Inl_iff
      split: if_splits)

lemma Buffer_append_too_long:
  assumes inv: "Buffer_inv b" and size: "int (Buffer_size b) \<le> INT_MAX" and long: "INT_MAX - int InitialPrependSize < int (length xs)"
  shows "\<exists>e. Buffer_append xs b = Inl e \<and> e \<in> {SignedOverflow, LengthError, OutOfBounds}"
    "int (length xs) \<le> INT_MAX \<Longrightarrow> Buffer_append xs b = Inl SignedOverflow"
proof -
  have "Buffer_writeableBytes b < length xs"
    using inv size long by (auto simp: Buffer_writeableBytes_inv Buffer_inv_defs)
  then have grow: "Buffer_append xs b = rbind (Buffer_resize (int32 (int (length xs))) b)
      (\<lambda>b'. if writeIndex b' + length xs \<le> Buffer_size b'
        then Inr (b'\<lparr>buffer_data := write_at (buffer_data b') (writeIndex b') xs, writeIndex := size_t (int (writeIndex b') + int (length xs))\<rparr>)
        else Inl OutOfBounds)"
    unfolding Buffer_append_def Buffer_ensureWriteableBytes_def Buffer_beginWrite_def by simp
  show short: "Buffer_append xs b = Inl SignedOverflow" if "int (length xs) \<le> INT_MAX"
    using long that grow by (simp add: Buffer_resize_def int32_id limit_defs)
  have "\<exists>e. Buffer_append xs b = Inl e"
  proof (cases "Buffer_resize (int32 (int (length xs))) b")
    case (Inr b')
    have "Buffer_size b' < writeIndex b' + length xs" if "INT_MAX < int (length xs)"
      using Buffer_resize_limit [OF inv size _ _ Inr] int32_range [of "int (length xs)"] that by (simp add: limit_defs)
    then show ?thesis using short grow Inr by fastforce
  qed (simp add: grow)
  then show "\<exists>e. Buffer_append xs b = Inl e \<and> e \<in> {SignedOverflow, LengthError, OutOfBounds}"
    using Buffer_append_errors by blast
qed

lemma Buffer_getAllAsString_ok: "Buffer_inv b \<Longrightarrow> Buffer_getAllAsString b = Inr (Buffer_abs b)"
  by (simp add: Buffer_getAllAsString_def Buffer_peek_def buffer_simps)

lemma Buffer_retrieveAsString_ok:
  assumes "Buffer_inv b" "n \<le> length (Buffer_abs b)" "int n \<le> INT_MAX"
  shows "Buffer_retrieveAsString n b = Inr (take n (Buffer_abs b), Buffer_retrieve (int n) b)"
proof -
  have "int32 (int n) = int n" using assms(3) by (simp add: int32_id limit_defs)
  moreover have "string_at b (readIndex b) n = Inr (take n (Buffer_abs b))"
  proof -
    have "readIndex b + n \<le> writeIndex b" "writeIndex b \<le> Buffer_size b"
      using assms(1,2) by (auto simp: Buffer_abs_length Buffer_inv_def)
    then show ?thesis by (simp add: string_at_def Buffer_abs_def take_segment)
  qed
  ultimately show ?thesis
    by (simp add: Buffer_retrieveAsString_def Buffer_peek_def)
qed

lemma Buffer_retrieveAllAsString_ok:
  assumes "Buffer_inv b" "int (length (Buffer_abs b)) \<le> INT_MAX"
  shows "Buffer_retrieveAllAsString b = Inr (Buffer_abs b, Buffer_retrieveAll b)"
proof -
  have "size_t (int (length (Buffer_abs b))) = length (Buffer_abs b)"
    using assms(2) by (simp add: conv_simps limit_defs)
  then have "Buffer_retrieve (int (length (Buffer_abs b))) b = Buffer_retrieveAll b"
    using assms(1) by (simp add: Buffer_retrieve_def Buffer_readableBytes_abs)
  then show ?thesis
    using assms by (simp add: Buffer_retrieveAllAsString_def Buffer_readableBytes_abs
        Buffer_retrieveAsString_ok)
qed

lemma Buffer_retrieveUtil_ok:
  assumes "Buffer_inv b" "readIndex b \<le> off" "int off - int (readIndex b) \<le> INT_MAX"
  shows "Buffer_inv (Buffer_retrieveUtil off b)"
    "Buffer_abs (Buffer_retrieveUtil off b) = drop (off - readIndex b) (Buffer_abs b)"
proof -
  have "int32 (int off - int (readIndex b)) = int (off - readIndex b)"
    using assms(2,3) by (simp add: int32_id limit_defs)
  then show "Buffer_inv (Buffer_retrieveUtil off b)"
    "Buffer_abs (Buffer_retrieveUtil off b) = drop (off - readIndex b) (Buffer_abs b)"
    using assms Buffer_retrieve_abs [OF assms(1), of "int (off - readIndex b)"]
    by (auto simp: Buffer_retrieveUtil_def Buffer_peek_def nat_diff_distrib)
qed

text \<open>\<open>findCRLF\<close> sees exactly the readable bytes, and reports the first line end among them.\<close>

lemma Buffer_findCRLF_None:
  assumes "Buffer_inv b"
  shows "Buffer_findCRLF b = None \<longleftrightarrow> std_search CRLF (Buffer_abs b) = length (Buffer_abs b)"
  using assms
  by (auto simp: Buffer_findCRLF_def Let_def Buffer_peek_def Buffer_beginWrite_def
      Buffer_abs_def [symmetric] buffer_simps Buffer_inv_def)

lemma Buffer_findCRLF_Some:
  assumes "Buffer_inv b" "Buffer_findCRLF b = Some off"
  shows "off = readIndex b + std_search CRLF (Buffer_abs b)"
    "std_search CRLF (Buffer_abs b) + 2 \<le> length (Buffer_abs b)"
proof -
  show eq: "off = readIndex b + std_search CRLF (Buffer_abs b)"
    using assms(2) by (auto simp: Buffer_findCRLF_def Let_def Buffer_peek_def Buffer_beginWrite_def
        Buffer_abs_def split: if_splits)
  have "std_search CRLF (Buffer_abs b) \<noteq> length (Buffer_abs b)"
    using assms by (simp flip: Buffer_findCRLF_None)
  then have "std_search CRLF (Buffer_abs b) < length (Buffer_abs b)"
    using std_search_le [of CRLF "Buffer_abs b"] by simp
  then show "std_search CRLF (Buffer_abs b) + 2 \<le> length (Buffer_abs b)"
    using std_search_hit_room [of CRLF "Buffer_abs b"] by (simp add: CRLF_def)
qed

text \<open>What \<open>readv\<close> delivered is appended, whether or not the stack array was needed.\<close>

lemma Buffer_readFd_ok:
  assumes inv: "Buffer_inv b" and cap: "length xs \<le> readv_capacity b"
    and room: "Buffer_size b + length xs \<le> vector_max_size"
  obtains b' where "Buffer_readFd (Inr xs) b = Inr (int (length xs), None, b')" "Buffer_inv b'"
    "Buffer_abs b' = Buffer_abs b @ xs" "Buffer_size b' \<le> Buffer_size b + length xs"
proof (cases "length xs \<le> Buffer_writeableBytes b")
  case True
  let ?b' = "b\<lparr>buffer_data := write_at (buffer_data b) (writeIndex b) xs,
               writeIndex := writeIndex b + length xs\<rparr>"
  have fits: "writeIndex b + length xs \<le> length (buffer_data b)"
    using True inv by (auto simp: buffer_simps Buffer_inv_def Buffer_size_def)
  have "size_t (int (writeIndex b) + int (length xs)) = writeIndex b + length xs"
    using fits inv by (intro size_t_sum) (auto simp: Buffer_inv_defs Buffer_size_def)
  then have "Buffer_readFd (Inr xs) b = Inr (int (length xs), None, ?b')"
    using True by (simp add: Buffer_readFd_def Let_def)
  moreover have "Buffer_inv ?b'"
    using inv fits by (auto simp: Buffer_inv_def Buffer_size_def)
  moreover have "Buffer_abs ?b' = Buffer_abs b @ xs"
    using inv fits by (simp add: Buffer_abs_def Buffer_inv_def segment_append_write_at)
  moreover have "Buffer_size ?b' \<le> Buffer_size b + length xs"
    using fits by (simp add: Buffer_size_def)
  ultimately show ?thesis by (rule that)
next
  case False
  let ?w = "Buffer_writeableBytes b"
  let ?b1 = "b\<lparr>buffer_data := write_at (buffer_data b) (writeIndex b) (take ?w xs),
               writeIndex := Buffer_size b\<rparr>"
  have fits: "writeIndex b + length (take ?w xs) = length (buffer_data b)"
    using False inv by (simp add: buffer_simps Buffer_inv_def Buffer_size_def min_def)
  then have sz: "Buffer_size ?b1 = Buffer_size b" by (simp add: Buffer_size_def)
  have inv1: "Buffer_inv ?b1" using inv sz by (auto simp: Buffer_inv_def)
  have abs1: "Buffer_abs ?b1 = Buffer_abs b @ take ?w xs"
    using inv fits segment_append_write_at [of "readIndex b" "writeIndex b" "take ?w xs" "buffer_data b"]
    by (simp add: Buffer_abs_def Buffer_inv_def Buffer_size_def)
  have "?w < extrabuf_size"
    using False cap by (auto simp: readv_capacity_def Let_def split: if_splits)
  then have "length (drop ?w xs) \<le> extrabuf_size"
    using cap by (simp add: readv_capacity_def Let_def)
  then have room1: "Buffer_room (length (drop ?w xs)) ?b1"
    using room sz by (simp add: Buffer_room_def extrabuf_size_def limit_defs InitialPrependSize_def)
  obtain b2 where b2: "Buffer_append (drop ?w xs) ?b1 = Inr b2" "Buffer_inv b2"
    "Buffer_abs b2 = Buffer_abs ?b1 @ drop ?w xs" "Buffer_size b2 \<le> Buffer_size ?b1 + length (drop ?w xs)"
    using Buffer_append_ok [OF inv1 room1] by metis
  have "Buffer_readFd (Inr xs) b = Inr (int (length xs), None, b2)"
    using False b2(1) fits by (simp add: Buffer_readFd_def Let_def Buffer_size_def)
  then show ?thesis
    using b2(2-4) abs1 sz diff_le_self [of "length xs" ?w] by (intro that) (simp_all, linarith)
qed

lemma Buffer_writeFd_ok:
  assumes "Buffer_inv b"
  shows "Buffer_writeFd (Inr n) b = Inr (int n, None, take n (Buffer_abs b))"
    and "Buffer_writeFd (Inl e) b = Inr (-1, Some e, [])"
  using assms by (simp_all add: Buffer_writeFd_def Buffer_peek_def buffer_simps)


section \<open>The contract of the buffer\<close>

text \<open>
  What the users of a buffer (the connection, the HTTP parser and the HTTP response writer)
  rely on, stated over an arbitrary implementation: \<open>abs\<close> is the queue of bytes,
  \<open>room n\<close> says that \<open>n\<close> more bytes can be stored.
\<close>

locale byte_queue =
  fixes inv :: "'b \<Rightarrow> bool"
    and abs :: "'b \<Rightarrow> bytes"
    and used :: "'b \<Rightarrow> nat"
    and limit chunk :: nat
    and put :: "bytes \<Rightarrow> 'b \<Rightarrow> 'b res"
    and discard :: "int \<Rightarrow> 'b \<Rightarrow> 'b"
    and discard_all :: "'b \<Rightarrow> 'b"
  assumes put_law: "inv b \<Longrightarrow> length xs \<le> chunk \<Longrightarrow> used b + length xs \<le> limit \<Longrightarrow>
      \<exists>b'. put xs b = Inr b' \<and> inv b' \<and> abs b' = abs b @ xs \<and> used b' \<le> used b + length xs"
    and discard_inv: "inv b \<Longrightarrow> inv (discard n b)"
    and discard_law: "inv b \<Longrightarrow> 0 \<le> n \<Longrightarrow> n \<le> INT_MAX \<Longrightarrow> abs (discard n b) = drop (nat n) (abs b)"
    and discard_all_inv: "inv b \<Longrightarrow> inv (discard_all b)"
    and discard_all_law: "abs (discard_all b) = []"
begin

text \<open>A sequence of appends, as \<open>HttpResponse::appendToBuffer\<close> performs it.\<close>

lemma put_all_law:
  assumes "inv b" "\<forall>xs \<in> set xss. length xs \<le> chunk" "used b + length (concat xss) \<le> limit"
  shows "\<exists>b'. res_iter put xss b = Inr b' \<and> inv b' \<and> abs b' = abs b @ concat xss"
  using assms
proof (induction xss arbitrary: b)
  case Nil
  then show ?case by simp
next
  case (Cons xs xss)
  obtain c where c: "put xs b = Inr c" "inv c" "abs c = abs b @ xs" "used c \<le> used b + length xs"
    using put_law [of b xs] Cons.prems by auto
  have "used c + length (concat xss) \<le> limit" using c(4) Cons.prems(3) by simp
  then obtain b' where "res_iter put xss c = Inr b'" "inv b'" "abs b' = abs c @ concat xss"
    using Cons.IH [OF c(2)] Cons.prems(2) by auto
  then show ?case using c(1,3) by simp
qed

text \<open>First in, first out: what is put behind a discarded prefix comes out next.\<close>

lemma put_discard_law:
  assumes "inv b" "length xs \<le> chunk" "used b + length xs \<le> limit"
    and "int (length (abs b)) \<le> INT_MAX"
  shows "\<exists>b'. put xs b = Inr b' \<and> abs (discard (int (length (abs b))) b') = xs"
  using put_law [OF assms(1-3)] discard_law assms(4) by fastforce

end

definition Buffer_chunk :: nat where
  "Buffer_chunk = nat INT_MAX - InitialPrependSize"

lemma Buffer_roomI: "n \<le> Buffer_chunk \<Longrightarrow> Buffer_size b + n \<le> vector_max_size \<Longrightarrow> Buffer_room n b"
  by (simp add: Buffer_room_def Buffer_chunk_def limit_defs InitialPrependSize_def)

interpretation bq: byte_queue Buffer_inv Buffer_abs Buffer_size vector_max_size Buffer_chunk
  Buffer_append Buffer_retrieve Buffer_retrieveAll
proof unfold_locales
  fix b and xs :: bytes
  assume "Buffer_inv b" "length xs \<le> Buffer_chunk" "Buffer_size b + length xs \<le> vector_max_size"
  then show "\<exists>b'. Buffer_append xs b = Inr b' \<and> Buffer_inv b' \<and> Buffer_abs b' = Buffer_abs b @ xs \<and>
      Buffer_size b' \<le> Buffer_size b + length xs"
    by (metis Buffer_append_ok Buffer_roomI)
qed (auto simp: Buffer_retrieve_abs)

section \<open>Sequences of operations\<close>

text \<open>
  The calls a client makes on a buffer, run on the model and on the queue of bytes that the
  buffer stands for.
\<close>

datatype buffer_call = CallAppend bytes | CallRetrieve int | CallRetrieveAll

fun Buffer_call :: "buffer_call \<Rightarrow> buffer \<Rightarrow> buffer res" where
  "Buffer_call (CallAppend xs) b = Buffer_append xs b"
| "Buffer_call (CallRetrieve n) b = Inr (Buffer_retrieve n b)"
| "Buffer_call CallRetrieveAll b = Inr (Buffer_retrieveAll b)"

fun queue_call :: "buffer_call \<Rightarrow> bytes \<Rightarrow> bytes" where
  "queue_call (CallAppend xs) q = q @ xs"
| "queue_call (CallRetrieve n) q = drop (nat n) q"
| "queue_call CallRetrieveAll q = []"

fun call_bytes :: "buffer_call \<Rightarrow> nat" where
  "call_bytes (CallAppend xs) = length xs"
| "call_bytes _ = 0"

fun call_ok :: "buffer_call \<Rightarrow> bool" where
  "call_ok (CallAppend xs) = (length xs \<le> Buffer_chunk)"
| "call_ok (CallRetrieve n) = (0 \<le> n \<and> n \<le> INT_MAX)"
| "call_ok CallRetrieveAll = True"

lemma Buffer_call_refines:
  assumes "Buffer_inv b" "call_ok c" "Buffer_size b + call_bytes c \<le> vector_max_size"
  shows "\<exists>b'. Buffer_call c b = Inr b' \<and> Buffer_inv b' \<and> Buffer_abs b' = queue_call c (Buffer_abs b) \<and>
    Buffer_size b' \<le> Buffer_size b + call_bytes c"
proof (cases c)
  case (CallAppend xs)
  then show ?thesis using assms bq.put_law [of b xs] by simp
qed (use assms in \<open>auto simp: Buffer_retrieve_abs\<close>)

lemma Buffer_run_refines:
  assumes "Buffer_inv b" "list_all call_ok cs" "Buffer_size b + sum_list (map call_bytes cs) \<le> vector_max_size"
  shows "\<exists>b'. res_iter Buffer_call cs b = Inr b' \<and> Buffer_inv b' \<and> Buffer_abs b' = fold queue_call cs (Buffer_abs b)"
  using assms
proof (induction cs arbitrary: b)
  case Nil
  then show ?case by simp
next
  case (Cons c cs)
  obtain d where d: "Buffer_call c b = Inr d" "Buffer_inv d" "Buffer_abs d = queue_call c (Buffer_abs b)"
    "Buffer_size d \<le> Buffer_size b + call_bytes c"
    using Buffer_call_refines [of b c] Cons.prems by auto
  then have "Buffer_size d + sum_list (map call_bytes cs) \<le> vector_max_size"
    using Cons.prems(3) by simp
  then show ?case using Cons.IH [OF d(2)] Cons.prems(2) d by simp
qed

definition fresh_buffer :: buffer where
  "fresh_buffer = \<lparr>buffer_data = replicate (InitialPrependSize + InitialSize) NUL,
     readIndex = InitialPrependSize, writeIndex = InitialPrependSize\<rparr>"

lemma fresh_buffer_ctor: "Buffer_ctor InitialSize = Inr fresh_buffer"
  by (simp add: Buffer_ctor_def fresh_buffer_def InitialPrependSize_def InitialSize_def limit_defs size_t_def)

lemma fresh_buffer_inv [simp, intro]: "Buffer_inv fresh_buffer"
  by (simp add: Buffer_inv_def fresh_buffer_def Buffer_size_def InitialPrependSize_def limit_defs InitialSize_def)

lemma fresh_buffer_abs [simp]: "Buffer_abs fresh_buffer = []"
  by (simp add: Buffer_abs_def fresh_buffer_def)

lemma fresh_buffer_size [simp]: "Buffer_size fresh_buffer = 1032"
  by (simp add: Buffer_size_def fresh_buffer_def InitialPrependSize_def InitialSize_def)


section \<open>Properties\<close>

text \<open>
  C16. A buffer made by the constructor is a first-in first-out queue of bytes: any sequence of
  \<open>append\<close>, \<open>retrieve\<close> and \<open>retrieveAll\<close> calls (each append within \<open>INT_MAX - 8\<close> bytes, all of
  them together within the size limit of a vector) succeeds, keeps the index invariant, and
  leaves as readable bytes what the same calls leave in a list.
\<close>

theorem Buffer_implements_queue:
  assumes "list_all call_ok cs" "1032 + sum_list (map call_bytes cs) \<le> vector_max_size"
  shows "\<exists>b'. rbind (Buffer_ctor InitialSize) (res_iter Buffer_call cs) = Inr b' \<and> Buffer_inv b' \<and>
    Buffer_getAllAsString b' = Inr (fold queue_call cs [])"
  using Buffer_run_refines [OF fresh_buffer_inv assms(1)] assms(2)
  by (auto simp: fresh_buffer_ctor Buffer_getAllAsString_ok)

text \<open>The queue property on two appends with a retrieval between them.\<close>

theorem Buffer_implements_queue_witness:
  "\<exists>b'. rbind (Buffer_ctor InitialSize)
       (res_iter Buffer_call [CallAppend ''abc'', CallRetrieve 2, CallAppend ''de'']) = Inr b' \<and>
     Buffer_inv b' \<and> Buffer_getAllAsString b' = Inr ''cde''"
  using Buffer_implements_queue [of "[CallAppend ''abc'', CallRetrieve 2, CallAppend ''de'']"]
  by (simp add: Buffer_chunk_def limit_defs InitialPrependSize_def)

text \<open>
  \<open>append\<close> on a well-formed buffer: the bytes are added behind the readable bytes, in place
  when they fit, after moving the readable bytes to the front when that makes enough room, and
  otherwise in a vector grown to exactly the size needed. In none of the three cases does the
  buffer move or lose a byte it held.
\<close>

theorem Buffer_append_correct:
  assumes "Buffer_inv b" "int (length xs) + int InitialPrependSize \<le> INT_MAX"
    "Buffer_size b + length xs \<le> vector_max_size"
  shows "\<exists>b'. Buffer_append xs b = Inr b' \<and> Buffer_inv b' \<and> Buffer_abs b' = Buffer_abs b @ xs \<and>
    Buffer_size b' = (if length xs \<le> Buffer_writeableBytes b then Buffer_size b
      else if length xs + InitialPrependSize \<le> Buffer_prependableBytes b + Buffer_writeableBytes b
      then Buffer_size b else writeIndex b + length xs)"
proof -
  have room: "Buffer_room (length xs) b" using assms(2,3) by (simp add: Buffer_room_def)
  then show ?thesis
    using Buffer_append_ok [OF assms(1) room] Buffer_append_size [OF assms(1) room] by metis
qed

theorem Buffer_append_correct_witness:
  "\<exists>b'. Buffer_append (replicate 2000 CR) fresh_buffer = Inr b' \<and> Buffer_inv b' \<and>
     Buffer_abs b' = replicate 2000 CR \<and> Buffer_size b' = 2008"
  using Buffer_append_correct [of fresh_buffer "replicate 2000 CR"]
  by (simp add: limit_defs InitialPrependSize_def Buffer_writeableBytes_inv Buffer_prependableBytes_def
      fresh_buffer_def [THEN arg_cong, of writeIndex] fresh_buffer_def [THEN arg_cong, of readIndex])

text \<open>
  C31. The limit of an append, a consequence of the \<open>int\<close> parameter of \<open>resize_\<close> behind the \<open>size_t\<close> of its callers. On a buffer of at most \<open>INT_MAX\<close> bytes an append
  succeeds exactly when its length is at most \<open>INT_MAX - 8\<close>; then the readable bytes are followed by the new ones. Between there and \<open>INT_MAX\<close> the sum
  \<open>len + InitialPrependSize\<close> overflows. Any longer append fails as well, whatever the conversion of its length to \<open>int\<close> yields: in that sum, in the
  vector's size limit, or because the space that was made is too short for the copy, which writes out of bounds.
\<close>

theorem Buffer_append_limit:
  assumes "Buffer_inv b" "int (Buffer_size b) \<le> INT_MAX"
  shows "case Buffer_append xs b of
      Inr b' \<Rightarrow> int (length xs) \<le> INT_MAX - 8 \<and> Buffer_inv b' \<and> Buffer_abs b' = Buffer_abs b @ xs
    | Inl e \<Rightarrow> INT_MAX - 8 < int (length xs) \<and>
        (if int (length xs) \<le> INT_MAX then e = SignedOverflow else e \<in> {SignedOverflow, LengthError, OutOfBounds})"
proof (cases "int (length xs) \<le> INT_MAX - 8")
  case True
  then have "Buffer_room (length xs) b"
    using assms(2) by (simp add: Buffer_room_def limit_defs InitialPrependSize_def)
  then obtain b' where "Buffer_append xs b = Inr b'" "Buffer_inv b'" "Buffer_abs b' = Buffer_abs b @ xs"
    by (rule Buffer_append_ok [OF assms(1)])
  then show ?thesis using True by simp
next
  case False
  then have "INT_MAX - int InitialPrependSize < int (length xs)" by (simp add: InitialPrependSize_def)
  note long = Buffer_append_too_long [OF assms this]
  show ?thesis using long False by (cases "int (length xs) \<le> INT_MAX") auto
qed

text \<open>The first length that fails, and one whose conversion to \<open>int\<close> is 5.\<close>

theorem Buffer_append_limit_witness:
  "Buffer_append (replicate (2 ^ 31 - 8) NUL) fresh_buffer = Inl SignedOverflow \<and>
   (\<exists>e. Buffer_append (replicate (2 ^ 32 + 5) NUL) fresh_buffer = Inl e)"
proof
  have size: "int (Buffer_size fresh_buffer) \<le> INT_MAX" by (simp add: fresh_buffer_size limit_defs)
  define xs ys where "xs = replicate (2 ^ 31 - 8) NUL" and "ys = replicate (2 ^ 32 + 5) NUL"
  have len: "int (length xs) = INT_MAX - 7" "INT_MAX < int (length ys)"
    unfolding xs_def ys_def length_replicate by (simp_all add: limit_defs)
  note limit = Buffer_append_limit [OF fresh_buffer_inv size]
  have "Buffer_append xs fresh_buffer = Inl SignedOverflow"
    using limit [of xs] len(1) by (cases "Buffer_append xs fresh_buffer") simp_all
  then show "Buffer_append (replicate (2 ^ 31 - 8) NUL) fresh_buffer = Inl SignedOverflow" by (simp only: xs_def)
  have "\<exists>e. Buffer_append ys fresh_buffer = Inl e"
    using limit [of ys] len(2) by (cases "Buffer_append ys fresh_buffer") simp_all
  then show "\<exists>e. Buffer_append (replicate (2 ^ 32 + 5) NUL) fresh_buffer = Inl e" by (simp only: ys_def)
qed

text \<open>
  \<open>readFd\<close>: whatever \<open>readv\<close> delivers (up to the space offered to it: the writable area, and
  65536 bytes on the stack when that area is smaller) is appended to the readable bytes in order,
  the count is returned, and the stack space is used exactly when the writable area was too
  short. On an error the buffer is unchanged and the error number is saved.
\<close>

theorem Buffer_readFd_correct:
  assumes "Buffer_inv b" "length xs \<le> readv_capacity b" "Buffer_size b + length xs \<le> vector_max_size"
  shows "Buffer_readFd (Inl e) b = Inr (-1, Some e, b) \<and>
    (\<exists>b'. Buffer_readFd (Inr xs) b = Inr (int (length xs), None, b') \<and> Buffer_inv b' \<and>
       Buffer_abs b' = Buffer_abs b @ xs)"
proof
  show "Buffer_readFd (Inl e) b = Inr (-1, Some e, b)" by (simp add: Buffer_readFd_def)
  show "\<exists>b'. Buffer_readFd (Inr xs) b = Inr (int (length xs), None, b') \<and> Buffer_inv b' \<and>
      Buffer_abs b' = Buffer_abs b @ xs"
    by (rule Buffer_readFd_ok [OF assms]) blast
qed

theorem Buffer_readFd_correct_witness:
  "Buffer_readFd (Inl 11) fresh_buffer = Inr (-1, Some 11, fresh_buffer) \<and>
   (\<exists>b'. Buffer_readFd (Inr (replicate 1500 LF)) fresh_buffer = Inr (int 1500, None, b') \<and> Buffer_inv b' \<and>
      Buffer_abs b' = [] @ replicate 1500 LF)"
  using Buffer_readFd_correct [of fresh_buffer "replicate 1500 LF" 11, unfolded length_replicate fresh_buffer_abs]
  by (auto simp: limit_defs readv_capacity_def extrabuf_size_def Let_def)

text \<open>
  \<open>findCRLF\<close> returns the null pointer exactly when the readable bytes contain no line end, and
  otherwise the position of the first one; the bytes behind the readable area are never looked at.
\<close>

theorem Buffer_findCRLF_correct:
  assumes "Buffer_inv b"
  shows "case Buffer_findCRLF b of
      None \<Rightarrow> \<nexists>line rest. Buffer_abs b = line @ CRLF @ rest
    | Some off \<Rightarrow> \<exists>line rest. Buffer_abs b = line @ CRLF @ rest \<and> off = readIndex b + length line \<and>
        (\<forall>line' rest'. Buffer_abs b = line' @ CRLF @ rest' \<longrightarrow> length line \<le> length line')"
proof (cases "Buffer_findCRLF b")
  case None
  have "False" if "Buffer_abs b = line @ CRLF @ rest" for line rest
  proof -
    have "std_search CRLF (Buffer_abs b) \<le> length line" by (rule std_search_occurs [OF that])
    then show False using that None Buffer_findCRLF_None [OF assms] by (simp add: CRLF_def)
  qed
  then show ?thesis using None by auto
next
  case (Some off)
  note hit = Buffer_findCRLF_Some [OF assms Some]
  then have "std_search CRLF (Buffer_abs b) < length (Buffer_abs b)" by simp
  from std_search_split [OF this] obtain line rest
    where "Buffer_abs b = line @ CRLF @ rest" "length line = std_search CRLF (Buffer_abs b)" by blast
  then have "Buffer_abs b = line @ CRLF @ rest \<and> off = readIndex b + length line \<and>
      (\<forall>line' rest'. Buffer_abs b = line' @ CRLF @ rest' \<longrightarrow> length line \<le> length line')"
    using hit(1) std_search_occurs by auto
  then show ?thesis unfolding Some option.simps by (intro exI)
qed

theorem Buffer_findCRLF_correct_witness:
  "case Buffer_findCRLF fresh_buffer of
      None \<Rightarrow> \<nexists>line rest. Buffer_abs fresh_buffer = line @ CRLF @ rest
    | Some off \<Rightarrow> \<exists>line rest. Buffer_abs fresh_buffer = line @ CRLF @ rest \<and>
        off = readIndex fresh_buffer + length line \<and>
        (\<forall>line' rest'. Buffer_abs fresh_buffer = line' @ CRLF @ rest' \<longrightarrow> length line \<le> length line')"
  using Buffer_findCRLF_correct [OF fresh_buffer_inv] .

end
