(* ===== verification/Base_Time.thy ===== *)
theory Base_Time
  imports Prelude "HOL-Library.Signed_Division"
begin

text \<open>
  Time stamps (\<open>src/base/Timestamp.h\<close>, \<open>src/base/Timestamp.cc\<close>): microseconds since the epoch in an
  \<open>int64_t\<close>. The broken-down local time that \<open>localtime\<close> yields is a parameter. The theory also
  holds the \<open>printf\<close> directives for integers with a field width. The member \<open>now\<close> reads the clock
  and is modelled with the system calls.
\<close>

definition kMicroSecondsPerSecond :: int where "kMicroSecondsPerSecond = 1000 * 1000"

lemma signed_division_nonneg: "0 \<le> (a :: int) \<Longrightarrow> 0 < b \<Longrightarrow> a sdiv b = a div b" "0 \<le> a \<Longrightarrow> 0 < b \<Longrightarrow> a smod b = a mod b"
  by (cases "a = 0"; simp add: signed_divide_int_def signed_modulo_int_def)+

definition INT64_MAX :: int where "INT64_MAX = 2 ^ 63 - 1"
definition INT64_MIN :: int where "INT64_MIN = - (2 ^ 63)"

definition Timestamp_invalid :: int where
  "Timestamp_invalid = 0"

definition Timestamp_secondsSinceEpoch :: "int \<Rightarrow> int" where
  "Timestamp_secondsSinceEpoch t = t sdiv kMicroSecondsPerSecond"

definition Timestamp_less :: "int \<Rightarrow> int \<Rightarrow> bool" where
  "Timestamp_less lhs rhs \<longleftrightarrow> lhs < rhs"

definition Timestamp_equal :: "int \<Rightarrow> int \<Rightarrow> bool" where
  "Timestamp_equal lhs rhs \<longleftrightarrow> lhs = rhs"

text \<open>
  \<open>addTime\<close>: \<open>delta\<close> is the \<open>int64_t\<close> that the floating-point product \<open>seconds * 1000000\<close> is
  converted to.
\<close>

definition Timestamp_addTime :: "int \<Rightarrow> int \<Rightarrow> int res" where
  "Timestamp_addTime t delta =
     (if t + delta < INT64_MIN \<or> INT64_MAX < t + delta then Inl SignedOverflow else Inr (t + delta))"

text \<open>\<open>struct tm\<close>, and the directives \<open>%wd\<close> and \<open>%0wd\<close>.\<close>

record tm =
  tm_year :: int
  tm_mon :: int
  tm_mday :: int
  tm_hour :: int
  tm_min :: int
  tm_sec :: int

definition printf_d :: "nat \<Rightarrow> int \<Rightarrow> bytes" where
  "printf_d w i = replicate (w - length (show_int i)) (CHR '' '') @ show_int i"

definition printf_0d :: "nat \<Rightarrow> int \<Rightarrow> bytes" where
  "printf_0d w i =
     (if i < 0 then CHR ''-'' # show_padded (w - 1) (nat (- i)) else show_padded w (nat i))"

text \<open>The text of \<open>"%4d/%02d/%02d %02d:%02d:%02d"\<close>, up to the minutes and with the seconds.\<close>

definition minute_text :: "tm \<Rightarrow> bytes" where
  "minute_text t = printf_d 4 (tm_year t + 1900) @ ''/'' @ printf_0d 2 (tm_mon t + 1) @ ''/'' @
     printf_0d 2 (tm_mday t) @ '' '' @ printf_0d 2 (tm_hour t) @ '':'' @ printf_0d 2 (tm_min t) @ '':''"

definition date_time_text :: "tm \<Rightarrow> bytes" where
  "date_time_text t = minute_text t @ printf_0d 2 (tm_sec t)"

definition Timestamp_toFormattedString :: "(int \<Rightarrow> tm) \<Rightarrow> bool \<Rightarrow> int \<Rightarrow> bytes" where
  "Timestamp_toFormattedString localtime showMicroseconds t =
     (let tm_time = localtime (Timestamp_secondsSinceEpoch t)
      in if showMicroseconds
         then snprintf_to 64 (date_time_text tm_time @ ''.'' @ printf_0d 6 (t smod kMicroSecondsPerSecond))
         else snprintf_to 64 (date_time_text tm_time))"

text \<open>A broken-down time in the ranges that C guarantees, in a year with four digits.\<close>

definition tm_ok :: "tm \<Rightarrow> bool" where
  "tm_ok t \<longleftrightarrow> 1000 \<le> tm_year t + 1900 \<and> tm_year t + 1900 \<le> 9999 \<and> 0 \<le> tm_mon t \<and> tm_mon t \<le> 11 \<and>
     1 \<le> tm_mday t \<and> tm_mday t \<le> 31 \<and> 0 \<le> tm_hour t \<and> tm_hour t \<le> 23 \<and>
     0 \<le> tm_min t \<and> tm_min t \<le> 59 \<and> 0 \<le> tm_sec t \<and> tm_sec t \<le> 60"

lemma length_printf_0d: "0 \<le> i \<Longrightarrow> i < 10 ^ Suc k \<Longrightarrow> length (printf_0d (Suc k) i) = Suc k"
  by (simp add: printf_0d_def length_show_padded nat_less_iff)

lemma length_printf_02d: "0 \<le> i \<Longrightarrow> i < 100 \<Longrightarrow> length (printf_0d 2 i) = 2"
  using length_printf_0d [of i 1] by (simp add: numeral_2_eq_2)

lemma length_printf_06d: "0 \<le> i \<Longrightarrow> i < 1000000 \<Longrightarrow> length (printf_0d 6 i) = 6"
  using length_printf_0d [of i 5] by (simp add: eval_nat_numeral)

lemma length_printf_4d: "1000 \<le> i \<Longrightarrow> i \<le> 9999 \<Longrightarrow> length (printf_d 4 i) = 4"
  using length_show_nat_le [of "nat i" 3] length_show_nat_ge [of 3 "nat i"]
  by (simp add: printf_d_def show_int_def nat_less_iff le_nat_iff)

lemma length_minute_text: "tm_ok t \<Longrightarrow> length (minute_text t) = 17"
  by (auto simp: tm_ok_def minute_text_def length_printf_4d length_printf_02d)

lemma length_date_time_text: "tm_ok t \<Longrightarrow> length (date_time_text t) = 19"
  by (simp add: date_time_text_def length_minute_text) (auto simp: tm_ok_def length_printf_02d)

end
