(* ===== verification/Net_World.thy ===== *)
theory Net_World
  imports Net_Buffer Base_Time
begin

unbundle bit_operations_syntax

text \<open>
  The objects of the network core as one explicit store. A pointer to an \<open>EventLoop\<close>, a
  \<open>Channel\<close>, a \<open>TcpConnection\<close> or a \<open>std::string\<close> is an address (a number); the
  world maps addresses to object states, because several components hold pointers to the same
  channel and change it. The operating system is a parameter: a record \<open>'k kernel\<close> of system
  calls on an unknown kernel state \<open>'k\<close>. Every system call the modelled code makes is a
  field of it, and what the code relies on is stated as laws (the locales of \<open>Net_Kernel\<close>) over two
  observations of the kernel state: the interest list of an epoll instance and the bytes a
  descriptor has accepted.
\<close>

section \<open>System calls\<close>

datatype ctl_op = EPOLL_CTL_ADD | EPOLL_CTL_MOD | EPOLL_CTL_DEL

type_synonym chan = nat
type_synonym conn = nat
type_synonym loop = nat
type_synonym fd = int

text \<open>\<open>struct epoll_event\<close>: the event mask and \<open>data.ptr\<close>.\<close>

type_synonym epoll_event = "32 word \<times> chan"

text \<open>\<open>struct sockaddr_in\<close>: port and address in network byte order.\<close>

record sockaddr_in =
  sin_port :: "16 word"
  s_addr :: "32 word"

datatype sockopt = TCP_NODELAY | SO_REUSEADDR | SO_REUSEPORT | SO_KEEPALIVE

record 'k kernel =
  epoll_ctl :: "fd \<Rightarrow> ctl_op \<Rightarrow> fd \<Rightarrow> epoll_event \<Rightarrow> 'k \<Rightarrow> int \<times> 'k"
  epoll_wait :: "fd \<Rightarrow> nat \<Rightarrow> 'k \<Rightarrow> (errno + epoll_event list) \<times> 'k"
  sys_write :: "fd \<Rightarrow> bytes \<Rightarrow> 'k \<Rightarrow> (errno + nat) \<times> 'k"
  sys_read :: "fd \<Rightarrow> nat \<Rightarrow> 'k \<Rightarrow> (errno + bytes) \<times> 'k"
  sys_shutdown_wr :: "fd \<Rightarrow> 'k \<Rightarrow> int \<times> 'k"
  sys_close :: "fd \<Rightarrow> 'k \<Rightarrow> 'k"
  sys_so_error :: "fd \<Rightarrow> 'k \<Rightarrow> (errno + int) \<times> 'k"
  sys_setsockopt :: "fd \<Rightarrow> sockopt \<Rightarrow> int \<Rightarrow> 'k \<Rightarrow> 'k"
  sys_accept4 :: "fd \<Rightarrow> 'k \<Rightarrow> (errno + (fd \<times> sockaddr_in)) \<times> 'k"
  sys_getsockname :: "fd \<Rightarrow> 'k \<Rightarrow> (errno + sockaddr_in) \<times> 'k"
  sys_socket :: "'k \<Rightarrow> (errno + fd) \<times> 'k"
  sys_epoll_create1 :: "'k \<Rightarrow> (errno + fd) \<times> 'k"
  sys_eventfd :: "'k \<Rightarrow> (errno + fd) \<times> 'k"
  sys_gettimeofday :: "'k \<Rightarrow> (int \<times> int) \<times> 'k"
  sys_bind :: "fd \<Rightarrow> sockaddr_in \<Rightarrow> 'k \<Rightarrow> int \<times> 'k"
  sys_listen :: "fd \<Rightarrow> 'k \<Rightarrow> int \<times> 'k"

definition EPOLLIN :: "32 word" where "EPOLLIN = 1"
definition EPOLLPRI :: "32 word" where "EPOLLPRI = 2"
definition EPOLLOUT :: "32 word" where "EPOLLOUT = 4"
definition EPOLLERR :: "32 word" where "EPOLLERR = 8"
definition EPOLLHUP :: "32 word" where "EPOLLHUP = 16"

definition EINTR :: errno where "EINTR = 4"
definition EWOULDBLOCK :: errno where "EWOULDBLOCK = 11"
definition EMFILE :: errno where "EMFILE = 24"
definition EPIPE :: errno where "EPIPE = 32"
definition ECONNRESET :: errno where "ECONNRESET = 104"


section \<open>Objects\<close>

text \<open>
  The callables stored in \<open>std::function\<close> members, as names. \<open>handler\<close> is what a channel
  calls, \<open>Functor\<close> what an event loop queues; \<open>F_sendInLoop_ptr\<close> binds the address of the
  caller's characters and a length, \<open>F_sendInLoop_str\<close> binds a copy.
\<close>

datatype handler =
    H_EventLoop_handleRead loop
  | H_Acceptor_handleRead
  | H_TcpConnection_handleRead conn
  | H_TcpConnection_handleWrite conn
  | H_TcpConnection_handleClose conn
  | H_TcpConnection_handleError conn

datatype Functor =
    F_connectEstablished conn
  | F_connectDestroyed conn
  | F_sendInLoop_ptr conn nat nat
  | F_sendInLoop_str conn bytes
  | F_shutdownInLoop conn
  | F_writeComplete conn
  | F_highWaterMark conn nat
  | F_removeConnectionInLoop conn
  | F_Acceptor_listen

record channel =
  ch_loop :: loop
  ch_fd :: fd
  ch_events :: "32 word"
  ch_revents :: "32 word"
  ch_index :: int
  ch_tie :: "conn option"
  ch_tied :: bool
  ch_readCallback :: "handler option"
  ch_writeCallback :: "handler option"
  ch_closeCallback :: "handler option"
  ch_errorCallback :: "handler option"

text \<open>The setters of the members that other classes change.\<close>

definition Channel_setReadCallback :: "handler \<Rightarrow> channel \<Rightarrow> channel" where
  [simp]: "Channel_setReadCallback cb ch = ch\<lparr>ch_readCallback := Some cb\<rparr>"

definition Channel_setWriteCallback :: "handler \<Rightarrow> channel \<Rightarrow> channel" where
  [simp]: "Channel_setWriteCallback cb ch = ch\<lparr>ch_writeCallback := Some cb\<rparr>"

definition Channel_setCloseCallback :: "handler \<Rightarrow> channel \<Rightarrow> channel" where
  [simp]: "Channel_setCloseCallback cb ch = ch\<lparr>ch_closeCallback := Some cb\<rparr>"

definition Channel_setErrorCallback :: "handler \<Rightarrow> channel \<Rightarrow> channel" where
  [simp]: "Channel_setErrorCallback cb ch = ch\<lparr>ch_errorCallback := Some cb\<rparr>"

definition Channel_set_revents :: "32 word \<Rightarrow> channel \<Rightarrow> channel" where
  [simp]: "Channel_set_revents revt ch = ch\<lparr>ch_revents := revt\<rparr>"

definition Channel_set_index :: "int \<Rightarrow> channel \<Rightarrow> channel" where
  [simp]: "Channel_set_index idx ch = ch\<lparr>ch_index := idx\<rparr>"

text \<open>An \<open>EventLoop\<close> together with the \<open>EpollPoller\<close> it owns.\<close>

record event_loop =
  looping :: bool
  quit_flag :: bool
  callingPendingFunctors :: bool
  threadId :: int
  pollReturnTime :: int
  wakeupFd :: fd
  wakeupChannel :: chan
  activeChannels :: "chan list"
  pendingFunctors :: "Functor list"
  epollfd :: fd
  poller_channels :: "fd \<rightharpoonup> chan"
  poller_events_size :: nat

datatype StateE = kDisconnected | kConnecting | kConnected | kDisconnecting

record tcp_connection =
  conn_loop :: loop
  conn_name :: bytes
  conn_state :: StateE
  conn_reading :: bool
  conn_sockfd :: fd
  conn_channel :: chan
  conn_localAddr :: sockaddr_in
  conn_peerAddr :: sockaddr_in
  conn_hasConnectionCallback :: bool
  conn_hasMessageCallback :: bool
  conn_hasWriteCompleteCallback :: bool
  conn_hasCloseCallback :: bool
  conn_hasHighWaterMarkCallback :: bool
  conn_highWaterMark :: nat
  conn_inputBuffer :: buffer
  conn_outputBuffer :: buffer

text \<open>The setters a server calls on a new connection; the argument says whether the callback is set.\<close>

definition TcpConnection_setConnectionCallback :: "bool \<Rightarrow> tcp_connection \<Rightarrow> tcp_connection" where
  [simp]: "TcpConnection_setConnectionCallback cb cn = cn\<lparr>conn_hasConnectionCallback := cb\<rparr>"

definition TcpConnection_setMessageCallback :: "bool \<Rightarrow> tcp_connection \<Rightarrow> tcp_connection" where
  [simp]: "TcpConnection_setMessageCallback cb cn = cn\<lparr>conn_hasMessageCallback := cb\<rparr>"

definition TcpConnection_setWriteCompleteCallback :: "bool \<Rightarrow> tcp_connection \<Rightarrow> tcp_connection" where
  [simp]: "TcpConnection_setWriteCompleteCallback cb cn = cn\<lparr>conn_hasWriteCompleteCallback := cb\<rparr>"

definition TcpConnection_setCloseCallback :: "bool \<Rightarrow> tcp_connection \<Rightarrow> tcp_connection" where
  [simp]: "TcpConnection_setCloseCallback cb cn = cn\<lparr>conn_hasCloseCallback := cb\<rparr>"

text \<open>
  The world. \<open>t_loopInThisThread\<close> is the thread-local pointer of \<open>src/net/EventLoop.cc\<close>, by
  thread id; \<open>strings\<close> are the character arrays of \<open>std::string\<close> objects that are passed by
  address (\<open>None\<close>: destroyed); \<open>error_log\<close> collects the \<open>LOG_ERROR\<close> statements.
\<close>

record 'k world =
  kern :: 'k
  chans :: "chan \<Rightarrow> channel"
  loops :: "loop \<Rightarrow> event_loop"
  conns :: "conn \<Rightarrow> tcp_connection"
  strings :: "nat \<Rightarrow> bytes option"
  t_loopInThisThread :: "int \<Rightarrow> loop option"
  error_log :: "string list"

abbreviation upd_chan :: "chan \<Rightarrow> (channel \<Rightarrow> channel) \<Rightarrow> ('k, 'a) world_scheme \<Rightarrow> ('k, 'a) world_scheme" where
  "upd_chan c f w \<equiv> w\<lparr>chans := (chans w)(c := f (chans w c))\<rparr>"

abbreviation upd_loop :: "loop \<Rightarrow> (event_loop \<Rightarrow> event_loop) \<Rightarrow> ('k, 'a) world_scheme \<Rightarrow> ('k, 'a) world_scheme" where
  "upd_loop l f w \<equiv> w\<lparr>loops := (loops w)(l := f (loops w l))\<rparr>"

abbreviation upd_conn :: "conn \<Rightarrow> (tcp_connection \<Rightarrow> tcp_connection) \<Rightarrow> ('k, 'a) world_scheme \<Rightarrow> ('k, 'a) world_scheme" where
  "upd_conn c f w \<equiv> w\<lparr>conns := (conns w)(c := f (conns w c))\<rparr>"

definition log_error :: "string \<Rightarrow> ('k, 'a) world_scheme \<Rightarrow> ('k, 'a) world_scheme" where
  "log_error msg w = w\<lparr>error_log := error_log w @ [msg]\<rparr>"

lemma log_error_simps [simp]:
  "kern (log_error m w) = kern w" "chans (log_error m w) = chans w" "loops (log_error m w) = loops w"
  "conns (log_error m w) = conns w" "strings (log_error m w) = strings w"
  "t_loopInThisThread (log_error m w) = t_loopInThisThread w" "world.more (log_error m w) = world.more w"
  by (simp_all add: log_error_def)

end
