(* ===== verification/Net_Kernel.thy ===== *)
theory Net_Kernel
  imports Net_World
begin

text \<open>
  What the modelled code relies on of the operating system, as laws over the parameter
  \<open>'k kernel\<close>: \<open>epoll_kernel\<close> states how \<open>epoll_ctl\<close> acts on the interest list of an epoll
  instance (epoll\_ctl(2)), \<open>stream_kernel\<close> that a successful \<open>write\<close> accepts a prefix of what
  it was offered and that \<open>read\<close> delivers at most what was asked for (write(2), readv(2)), and
  \<open>net_kernel\<close> that the two do not interfere. The laws are satisfiable: \<open>ref_kernel\<close> is an
  executable kernel that satisfies them.
\<close>

section \<open>Laws\<close>

locale epoll_kernel =
  fixes K :: "'k kernel"
    and interest :: "'k \<Rightarrow> fd \<Rightarrow> fd \<rightharpoonup> epoll_event"
  assumes ctl_fail: "epoll_ctl K ep oper f ev k = (r, k') \<Longrightarrow> r < 0 \<Longrightarrow> interest k' = interest k"
    and ctl_add: "epoll_ctl K ep EPOLL_CTL_ADD f ev k = (r, k') \<Longrightarrow> 0 \<le> r \<Longrightarrow>
      interest k ep f = None \<and> interest k' = (interest k)(ep := (interest k ep)(f \<mapsto> ev))"
    and ctl_mod: "epoll_ctl K ep EPOLL_CTL_MOD f ev k = (r, k') \<Longrightarrow> 0 \<le> r \<Longrightarrow>
      interest k ep f \<noteq> None \<and> interest k' = (interest k)(ep := (interest k ep)(f \<mapsto> ev))"
    and ctl_del: "epoll_ctl K ep EPOLL_CTL_DEL f ev k = (r, k') \<Longrightarrow> 0 \<le> r \<Longrightarrow>
      interest k' = (interest k)(ep := (interest k ep)(f := None))"
    and ctl_del_registered: "epoll_ctl K ep EPOLL_CTL_DEL f ev k = (r, k') \<Longrightarrow>
      interest k ep f \<noteq> None \<Longrightarrow> 0 \<le> r"

locale stream_kernel =
  fixes K :: "'k kernel"
    and sent :: "'k \<Rightarrow> fd \<Rightarrow> bytes"
  assumes write_ok: "sys_write K f xs k = (Inr n, k') \<Longrightarrow>
      n \<le> length xs \<and> sent k' = (sent k)(f := sent k f @ take n xs)"
    and write_fail: "sys_write K f xs k = (Inl e, k') \<Longrightarrow> sent k' = sent k"
    and read_ok: "sys_read K f n k = (Inr xs, k') \<Longrightarrow> length xs \<le> n"
    and read_frame: "sys_read K f n k = (out, k') \<Longrightarrow> sent k' = sent k"
    and shutdown_frame: "sys_shutdown_wr K f k = (r, k') \<Longrightarrow> sent k' = sent k"
    and so_error_frame: "sys_so_error K f k = (out2, k') \<Longrightarrow> sent k' = sent k"
begin

text \<open>Whatever a write does, it extends the stream by a prefix of the data.\<close>

lemma write_prefix:
  assumes "sys_write K f xs k = (out, k')"
  shows "\<exists>n \<le> length xs. sent k' f = sent k f @ take n xs"
proof (cases out)
  case (Inl e)
  then have "sent k' = sent k" using assms write_fail by blast
  then show ?thesis by (intro exI [of _ 0]) simp
next
  case (Inr n)
  then show ?thesis using assms write_ok [of f xs k n k'] by (intro exI [of _ n]) simp
qed

lemma write_other: "sys_write K g xs k = (out, k') \<Longrightarrow> f \<noteq> g \<Longrightarrow> sent k' f = sent k f"
  by (cases out) (auto dest: write_ok write_fail)

end

locale net_kernel = epoll_kernel K interest + stream_kernel K sent
  for K :: "'k kernel" and interest :: "'k \<Rightarrow> fd \<Rightarrow> fd \<rightharpoonup> epoll_event" and sent :: "'k \<Rightarrow> fd \<Rightarrow> bytes" +
  assumes ctl_sent: "epoll_ctl K ep oper f ev k = (r, k') \<Longrightarrow> sent k' = sent k"
    and write_interest: "sys_write K f xs k = (out, k') \<Longrightarrow> interest k' = interest k"
    and read_interest: "sys_read K f n k = (out2, k') \<Longrightarrow> interest k' = interest k"
    and shutdown_interest: "sys_shutdown_wr K f k = (r, k') \<Longrightarrow> interest k' = interest k"
    and so_error_interest: "sys_so_error K f k = (out3, k') \<Longrightarrow> interest k' = interest k"

text \<open>Waiting for events and reading the clock send nothing and register nothing.\<close>

locale polling_kernel = net_kernel K interest sent
  for K :: "'k kernel" and interest :: "'k \<Rightarrow> fd \<Rightarrow> fd \<rightharpoonup> epoll_event" and sent :: "'k \<Rightarrow> fd \<Rightarrow> bytes" +
  assumes wait_sent: "epoll_wait K ep n k = (out, k') \<Longrightarrow> sent k' = sent k"
    and clock_sent: "sys_gettimeofday K k = (tv, k') \<Longrightarrow> sent k' = sent k"
    and wait_interest: "epoll_wait K ep n k = (out, k') \<Longrightarrow> interest k' = interest k"
    and clock_interest: "sys_gettimeofday K k = (tv, k') \<Longrightarrow> interest k' = interest k"

text \<open>
  An eventfd (eventfd(2)): after a \<open>write\<close> of a one the counter is positive, also when the
  write is refused, because it is refused only at the maximal counter. \<open>one_bytes\<close> are the
  eight bytes of a \<open>uint64_t\<close> with value 1.
\<close>

definition one_bytes :: bytes where
  "one_bytes = CHR 0x01 # replicate 7 NUL"

locale eventfd_kernel =
  fixes K :: "'k kernel"
    and evfds :: "fd set"
    and evcount :: "'k \<Rightarrow> fd \<Rightarrow> nat"
  assumes signal: "f \<in> evfds \<Longrightarrow> sys_write K f one_bytes k = (out, k') \<Longrightarrow> 0 < evcount k' f"


section \<open>An executable kernel\<close>

text \<open>
  The kernel state of \<open>ref_kernel\<close>: interest lists, accepted bytes, how many bytes the next
  writes accept (an exhausted list blocks), what the next reads deliver, the events the next
  \<open>epoll_wait\<close> reports, the counter of the eventfd, descriptor 5, and the connections waiting to be
  accepted.
\<close>

record ref_state =
  rk_interest :: "fd \<Rightarrow> fd \<rightharpoonup> epoll_event"
  rk_sent :: "fd \<Rightarrow> bytes"
  rk_accepts :: "nat list"
  rk_delivers :: "bytes list"
  rk_shut :: "fd list"
  rk_ready :: "epoll_event list"
  rk_evcount :: nat
  rk_incoming :: "(fd \<times> sockaddr_in) list"

definition ref_epoll_ctl :: "fd \<Rightarrow> ctl_op \<Rightarrow> fd \<Rightarrow> epoll_event \<Rightarrow> ref_state \<Rightarrow> int \<times> ref_state" where
  "ref_epoll_ctl ep oper f ev k =
     (if (rk_interest k ep f = None) = (oper = EPOLL_CTL_ADD)
      then (0, k\<lparr>rk_interest := (rk_interest k)(ep := (rk_interest k ep)
                   (f := (if oper = EPOLL_CTL_DEL then None else Some ev)))\<rparr>)
      else (-1, k))"

definition ref_write :: "fd \<Rightarrow> bytes \<Rightarrow> ref_state \<Rightarrow> (errno + nat) \<times> ref_state" where
  "ref_write f xs k =
     (if f = 5 then (Inr (length xs), k\<lparr>rk_evcount := Suc (rk_evcount k),
                        rk_sent := (rk_sent k)(f := rk_sent k f @ xs)\<rparr>)
      else case rk_accepts k of
        [] \<Rightarrow> (Inl EWOULDBLOCK, k)
      | n # ns \<Rightarrow> (Inr (min n (length xs)),
                   k\<lparr>rk_accepts := ns, rk_sent := (rk_sent k)(f := rk_sent k f @ take n xs)\<rparr>))"

definition ref_read :: "fd \<Rightarrow> nat \<Rightarrow> ref_state \<Rightarrow> (errno + bytes) \<times> ref_state" where
  "ref_read f n k =
     (if f = 5 then (Inr (replicate (min n 8) NUL), k\<lparr>rk_evcount := 0\<rparr>)
      else case rk_delivers k of
        [] \<Rightarrow> (Inl EWOULDBLOCK, k)
      | xs # xss \<Rightarrow> (Inr (take n xs), k\<lparr>rk_delivers := xss\<rparr>))"

definition ref_kernel :: "ref_state kernel" where
  "ref_kernel = \<lparr>epoll_ctl = ref_epoll_ctl,
     epoll_wait = (\<lambda>ep n k. (Inr (take n (rk_ready k)), k\<lparr>rk_ready := drop n (rk_ready k)\<rparr>)),
     sys_write = ref_write, sys_read = ref_read,
     sys_shutdown_wr = (\<lambda>f k. (0, k\<lparr>rk_shut := f # rk_shut k\<rparr>)),
     sys_close = (\<lambda>f k. k), sys_so_error = (\<lambda>f k. (Inr 0, k)), sys_setsockopt = (\<lambda>f opt v k. k),
     sys_accept4 = (\<lambda>f k. case rk_incoming k of [] \<Rightarrow> (Inl EWOULDBLOCK, k) | x # xs \<Rightarrow> (Inr x, k\<lparr>rk_incoming := xs\<rparr>)),
     sys_getsockname = (\<lambda>f k. (Inr \<lparr>sin_port = 0, s_addr = 0\<rparr>, k)),
     sys_socket = (\<lambda>k. (Inr 3, k)), sys_epoll_create1 = (\<lambda>k. (Inr 4, k)),
     sys_eventfd = (\<lambda>k. (Inr 5, k)), sys_gettimeofday = (\<lambda>k. ((0, 0), k)), sys_bind = (\<lambda>f a k. (0, k)), sys_listen = (\<lambda>f k. (0, k))\<rparr>"

definition ref_init :: ref_state where
  "ref_init = \<lparr>rk_interest = (\<lambda>_. Map.empty), rk_sent = (\<lambda>_. []), rk_accepts = [], rk_delivers = [],
     rk_shut = [], rk_ready = [], rk_evcount = 0, rk_incoming = []\<rparr>"

lemmas ref_defs = ref_kernel_def ref_epoll_ctl_def ref_write_def ref_read_def

interpretation rk: polling_kernel ref_kernel rk_interest rk_sent
  by unfold_locales
    (auto simp: ref_defs min_def split: if_splits list.splits ctl_op.splits)

interpretation rk_ev: eventfd_kernel ref_kernel "{5}" "\<lambda>k f. rk_evcount k"
  by unfold_locales (auto simp: ref_defs)

end
