(* ===== verification/Net_Poller.thy ===== *)
theory Net_Poller
  imports Net_Kernel
begin

unbundle bit_operations_syntax

text \<open>
  Channels and the epoll poller (\<open>src/net/Channel.h\<close>, \<open>src/net/Channel.cc\<close>,
  \<open>src/poller/Poller.cc\<close>, \<open>src/poller/EpollPoller.h\<close>, \<open>src/poller/EpollPoller.cc\<close>,
  \<open>Timestamp::now\<close> of \<open>src/base/Timestamp.cc\<close>, and the three forwarding methods of \<open>src/net/EventLoop.cc\<close>). Every operation takes the kernel \<open>K\<close>
  and returns the changed world, or the abort of a \<open>LOG_FATAL\<close>.
\<close>

section \<open>Poller\<close>

definition kNew :: int where "kNew = -1"
definition kAdded :: int where "kAdded = 1"
definition kDeleted :: int where "kDeleted = 2"

definition kNoneEvent :: "32 word" where "kNoneEvent = 0"
definition kReadEvent :: "32 word" where "kReadEvent = EPOLLIN OR EPOLLPRI"
definition kWriteEvent :: "32 word" where "kWriteEvent = EPOLLOUT"

definition Channel_ctor :: "loop \<Rightarrow> fd \<Rightarrow> channel" where
  "Channel_ctor l fd = \<lparr>ch_loop = l, ch_fd = fd, ch_events = 0, ch_revents = 0, ch_index = -1,
     ch_tie = None, ch_tied = False, ch_readCallback = None, ch_writeCallback = None,
     ch_closeCallback = None, ch_errorCallback = None\<rparr>"

definition Channel_isNoneEvent :: "channel \<Rightarrow> bool" where
  "Channel_isNoneEvent ch \<longleftrightarrow> ch_events ch = kNoneEvent"

definition Channel_isWriting :: "channel \<Rightarrow> bool" where
  "Channel_isWriting ch \<longleftrightarrow> ch_events ch AND kWriteEvent \<noteq> 0"

definition Channel_isReading :: "channel \<Rightarrow> bool" where
  "Channel_isReading ch \<longleftrightarrow> ch_events ch AND kReadEvent \<noteq> 0"

definition Poller_hasChannel :: "loop \<Rightarrow> chan \<Rightarrow> ('k, 'a) world_scheme \<Rightarrow> bool" where
  "Poller_hasChannel l c w \<longleftrightarrow>
     (case poller_channels (loops w l) (ch_fd (chans w c)) of None \<Rightarrow> False | Some c' \<Rightarrow> c' = c)"

definition EpollPoller_update ::
    "'k kernel \<Rightarrow> loop \<Rightarrow> ctl_op \<Rightarrow> chan \<Rightarrow> ('k, 'a) world_scheme \<Rightarrow> ('k, 'a) world_scheme res" where
  "EpollPoller_update K l operation c w =
     (let fd = ch_fd (chans w c);
          event = (ch_events (chans w c), c)
      in case epoll_ctl K (epollfd (loops w l)) operation fd event (kern w) of (ret, k') \<Rightarrow>
           if ret < 0
           then (if operation = EPOLL_CTL_DEL
                 then Inr (log_error ''epoll_ctl() del error'' (w\<lparr>kern := k'\<rparr>))
                 else Inl Aborted)
           else Inr (w\<lparr>kern := k'\<rparr>))"

definition EpollPoller_updateChannel ::
    "'k kernel \<Rightarrow> loop \<Rightarrow> chan \<Rightarrow> ('k, 'a) world_scheme \<Rightarrow> ('k, 'a) world_scheme res" where
  "EpollPoller_updateChannel K l c w =
     (let index = ch_index (chans w c)
      in if index = kNew \<or> index = kDeleted
         then (let w1 = (if index = kNew
                         then upd_loop l (\<lambda>p. p\<lparr>poller_channels :=
                                (poller_channels p)(ch_fd (chans w c) \<mapsto> c)\<rparr>) w
                         else w);
                   w2 = upd_chan c (Channel_set_index kAdded) w1
               in EpollPoller_update K l EPOLL_CTL_ADD c w2)
         else if Channel_isNoneEvent (chans w c)
         then rbind (EpollPoller_update K l EPOLL_CTL_DEL c w)
                (\<lambda>w1. Inr (upd_chan c (Channel_set_index kDeleted) w1))
         else EpollPoller_update K l EPOLL_CTL_MOD c w)"

definition EpollPoller_removeChannel ::
    "'k kernel \<Rightarrow> loop \<Rightarrow> chan \<Rightarrow> ('k, 'a) world_scheme \<Rightarrow> ('k, 'a) world_scheme res" where
  "EpollPoller_removeChannel K l c w =
     (let w1 = upd_loop l (\<lambda>p. p\<lparr>poller_channels := (poller_channels p)(ch_fd (chans w c) := None)\<rparr>) w;
          index = ch_index (chans w c)
      in rbind (if index = kAdded then EpollPoller_update K l EPOLL_CTL_DEL c w1 else Inr w1)
           (\<lambda>w2. Inr (upd_chan c (Channel_set_index kNew) w2)))"

text \<open>
  \<open>fillActiveChannels\<close>: the loop variable is an \<open>int\<close> that runs up to \<open>numEvents\<close>; \<open>evs\<close> is
  the content of \<open>events_\<close>.
\<close>

fun fill_from :: "epoll_event list \<Rightarrow> ('k, 'a) world_scheme \<Rightarrow> ('k, 'a) world_scheme" where
  "fill_from [] w = w"
| "fill_from (e # evs) w = fill_from evs (upd_chan (snd e) (Channel_set_revents (fst e)) w)"

lemma fill_from_loops [simp]: "loops (fill_from evs w) = loops w"
  by (induction evs arbitrary: w) auto

lemma fill_from_chans: "chans w = chans v \<Longrightarrow> chans (fill_from evs w) = chans (fill_from evs v)"
  by (induction evs arbitrary: w v) auto

lemma fill_from_other: "c \<notin> snd ` set evs \<Longrightarrow> chans (fill_from evs w) c = chans w c"
  by (induction evs arbitrary: w) auto

lemma fill_from_reported:
  "distinct (map snd evs) \<Longrightarrow> (ev, c) \<in> set evs \<Longrightarrow> chans (fill_from evs w) c = (chans w c)\<lparr>ch_revents := ev\<rparr>"
  by (induction evs arbitrary: w) (force simp: fill_from_other)+

lemma fill_from_revents: "\<exists>r. chans (fill_from evs w) c = (chans w c)\<lparr>ch_revents := r\<rparr>"
proof (induction evs arbitrary: w)
  case Nil
  show ?case by (rule exI [of _ "ch_revents (chans w c)"]) simp
next
  case (Cons e evs)
  from Cons.IH [of "upd_chan (snd e) (\<lambda>ch. ch\<lparr>ch_revents := fst e\<rparr>) w"] show ?case by auto
qed

lemma fill_from_frame [simp]:
  "kern (fill_from evs w) = kern w" "conns (fill_from evs w) = conns w" "strings (fill_from evs w) = strings w"
  "world.more (fill_from evs w) = world.more w" "error_log (fill_from evs w) = error_log w"
  by (induction evs arbitrary: w) auto

definition EpollPoller_fillActiveChannels ::
    "int \<Rightarrow> epoll_event list \<Rightarrow> chan list \<Rightarrow> ('k, 'a) world_scheme
      \<Rightarrow> (chan list \<times> ('k, 'a) world_scheme) res" where
  "EpollPoller_fillActiveChannels numEvents evs act w =
     (if numEvents \<le> int (length evs)
      then (let todo = take (nat numEvents) evs in Inr (act @ map snd todo, fill_from todo w))
      else Inl OutOfBounds)"

definition Timestamp_now :: "'k kernel \<Rightarrow> ('k, 'a) world_scheme \<Rightarrow> int \<times> ('k, 'a) world_scheme" where
  "Timestamp_now K w =
     (case sys_gettimeofday K (kern w) of ((tv_sec, tv_usec), k') \<Rightarrow>
        (tv_sec * kMicroSecondsPerSecond + tv_usec, w\<lparr>kern := k'\<rparr>))"

text \<open>
  \<open>poll\<close>. The result of \<open>epoll_wait\<close> is an \<open>int\<close> stored in a \<open>size_t\<close>.
\<close>

definition EpollPoller_poll ::
    "'k kernel \<Rightarrow> loop \<Rightarrow> chan list \<Rightarrow> ('k, 'a) world_scheme
      \<Rightarrow> (int \<times> chan list \<times> ('k, 'a) world_scheme) res" where
  "EpollPoller_poll K l act w =
     (case epoll_wait K (epollfd (loops w l)) (poller_events_size (loops w l)) (kern w) of (ret, k') \<Rightarrow>
      (case Timestamp_now K (w\<lparr>kern := k'\<rparr>) of (now, w1) \<Rightarrow>
        (let evs = (case ret of Inl e \<Rightarrow> [] | Inr es \<Rightarrow> es);
             saveErrno = (case ret of Inl e \<Rightarrow> e | Inr es \<Rightarrow> 0);
             numEvents = size_t (case ret of Inl e \<Rightarrow> -1 | Inr es \<Rightarrow> int (length es))
         in if numEvents > 0
            then rbind (EpollPoller_fillActiveChannels (int32 (int numEvents)) evs act w1)
                   (\<lambda>(act', w2).
                      Inr (now, act', if numEvents = poller_events_size (loops w2 l)
                                 then upd_loop l (\<lambda>p. p\<lparr>poller_events_size := poller_events_size p * 2\<rparr>) w2
                                 else w2))
            else if numEvents = 0 then Inr (now, act, w1)
            else Inr (now, act, if saveErrno \<noteq> EINTR then log_error ''EPollPoller::poll() failed'' w1 else w1))))"


section \<open>Channel\<close>

definition EventLoop_updateChannel ::
    "'k kernel \<Rightarrow> loop \<Rightarrow> chan \<Rightarrow> ('k, 'a) world_scheme \<Rightarrow> ('k, 'a) world_scheme res" where
  "EventLoop_updateChannel K l c w = EpollPoller_updateChannel K l c w"

definition EventLoop_removeChannel ::
    "'k kernel \<Rightarrow> loop \<Rightarrow> chan \<Rightarrow> ('k, 'a) world_scheme \<Rightarrow> ('k, 'a) world_scheme res" where
  "EventLoop_removeChannel K l c w = EpollPoller_removeChannel K l c w"

definition EventLoop_hasChannel :: "loop \<Rightarrow> chan \<Rightarrow> ('k, 'a) world_scheme \<Rightarrow> bool" where
  "EventLoop_hasChannel l c w = Poller_hasChannel l c w"

definition Channel_update ::
    "'k kernel \<Rightarrow> chan \<Rightarrow> ('k, 'a) world_scheme \<Rightarrow> ('k, 'a) world_scheme res" where
  "Channel_update K c w = EventLoop_updateChannel K (ch_loop (chans w c)) c w"

definition Channel_remove ::
    "'k kernel \<Rightarrow> chan \<Rightarrow> ('k, 'a) world_scheme \<Rightarrow> ('k, 'a) world_scheme res" where
  "Channel_remove K c w = EventLoop_removeChannel K (ch_loop (chans w c)) c w"

definition Channel_tie :: "conn \<Rightarrow> channel \<Rightarrow> channel" where
  "Channel_tie obj ch = ch\<lparr>ch_tie := Some obj, ch_tied := True\<rparr>"

definition Channel_enableReading ::
    "'k kernel \<Rightarrow> chan \<Rightarrow> ('k, 'a) world_scheme \<Rightarrow> ('k, 'a) world_scheme res" where
  "Channel_enableReading K c w =
     Channel_update K c (upd_chan c (\<lambda>ch. ch\<lparr>ch_events := ch_events ch OR kReadEvent\<rparr>) w)"

definition Channel_disableReading ::
    "'k kernel \<Rightarrow> chan \<Rightarrow> ('k, 'a) world_scheme \<Rightarrow> ('k, 'a) world_scheme res" where
  "Channel_disableReading K c w =
     Channel_update K c (upd_chan c (\<lambda>ch. ch\<lparr>ch_events := ch_events ch AND NOT kReadEvent\<rparr>) w)"

definition Channel_enableWriting ::
    "'k kernel \<Rightarrow> chan \<Rightarrow> ('k, 'a) world_scheme \<Rightarrow> ('k, 'a) world_scheme res" where
  "Channel_enableWriting K c w =
     Channel_update K c (upd_chan c (\<lambda>ch. ch\<lparr>ch_events := ch_events ch OR kWriteEvent\<rparr>) w)"

definition Channel_disableWriting ::
    "'k kernel \<Rightarrow> chan \<Rightarrow> ('k, 'a) world_scheme \<Rightarrow> ('k, 'a) world_scheme res" where
  "Channel_disableWriting K c w =
     Channel_update K c (upd_chan c (\<lambda>ch. ch\<lparr>ch_events := ch_events ch AND kWriteEvent\<rparr>) w)"

definition Channel_disableAll ::
    "'k kernel \<Rightarrow> chan \<Rightarrow> ('k, 'a) world_scheme \<Rightarrow> ('k, 'a) world_scheme res" where
  "Channel_disableAll K c w =
     Channel_update K c (upd_chan c (\<lambda>ch. ch\<lparr>ch_events := ch_events ch AND kNoneEvent\<rparr>) w)"

text \<open>
  Event dispatch. \<open>call\<close> runs a callback; \<open>alive\<close> says whether \<open>tie_.lock()\<close> yields an object.
  The four tests are made in the order of the source, each on the current \<open>revents_\<close>.
\<close>

definition call_if ::
    "(handler \<Rightarrow> 'w \<Rightarrow> 'w res) \<Rightarrow> handler option \<Rightarrow> 'w \<Rightarrow> 'w res" where
  "call_if call h w = (case h of None \<Rightarrow> Inr w | Some f \<Rightarrow> call f w)"

definition Channel_handleEventWithGuard ::
    "(handler \<Rightarrow> ('k, 'a) world_scheme \<Rightarrow> ('k, 'a) world_scheme res) \<Rightarrow> chan
      \<Rightarrow> ('k, 'a) world_scheme \<Rightarrow> ('k, 'a) world_scheme res" where
  "Channel_handleEventWithGuard call c w =
     rbind (if ch_revents (chans w c) AND EPOLLHUP \<noteq> 0 \<and> ch_revents (chans w c) AND EPOLLIN = 0
            then call_if call (ch_closeCallback (chans w c)) w else Inr w)
     (\<lambda>w1. rbind (if ch_revents (chans w1 c) AND EPOLLERR \<noteq> 0
                  then call_if call (ch_errorCallback (chans w1 c)) (log_error ''the fd'' w1) else Inr w1)
     (\<lambda>w2. rbind (if ch_revents (chans w2 c) AND (EPOLLIN OR EPOLLPRI) \<noteq> 0
                  then call_if call (ch_readCallback (chans w2 c)) w2 else Inr w2)
     (\<lambda>w3. if ch_revents (chans w3 c) AND EPOLLOUT \<noteq> 0
           then call_if call (ch_writeCallback (chans w3 c)) w3 else Inr w3)))"

definition Channel_handleEvent ::
    "(handler \<Rightarrow> ('k, 'a) world_scheme \<Rightarrow> ('k, 'a) world_scheme res)
      \<Rightarrow> (conn \<Rightarrow> ('k, 'a) world_scheme \<Rightarrow> bool) \<Rightarrow> chan
      \<Rightarrow> ('k, 'a) world_scheme \<Rightarrow> ('k, 'a) world_scheme res" where
  "Channel_handleEvent call alive c w =
     (if ch_tied (chans w c)
      then (case ch_tie (chans w c) of
              None \<Rightarrow> Inr w
            | Some obj \<Rightarrow> if alive obj w then Channel_handleEventWithGuard call c w else Inr w)
      else Channel_handleEventWithGuard call c w)"


section \<open>Event masks\<close>

lemmas event_defs = EPOLLIN_def EPOLLPRI_def EPOLLOUT_def EPOLLERR_def EPOLLHUP_def
lemmas mask_defs = kNoneEvent_def kReadEvent_def kWriteEvent_def event_defs
lemmas index_defs = kNew_def kAdded_def kDeleted_def
lemmas channel_queries = Channel_isNoneEvent_def Channel_isWriting_def Channel_isReading_def

lemma index_distinct [simp]:
  "kNew \<noteq> kAdded" "kAdded \<noteq> kNew" "kNew \<noteq> kDeleted" "kDeleted \<noteq> kNew"
  "kAdded \<noteq> kDeleted" "kDeleted \<noteq> kAdded"
  by (simp_all add: index_defs)

lemma enable_write_bit: "(e OR kWriteEvent) AND kWriteEvent \<noteq> 0"
proof -
  have "bit ((e OR kWriteEvent) AND kWriteEvent) 2" by (simp add: bit_simps mask_defs)
  then show ?thesis by (metis bit_0_eq bot_apply bot_bool_def)
qed

lemma enable_read_bit: "(e OR kReadEvent) AND kReadEvent \<noteq> 0"
proof -
  have "bit ((e OR kReadEvent) AND kReadEvent) 0" by (simp add: bit_simps mask_defs)
  then show ?thesis by (metis bit_0_eq bot_apply bot_bool_def)
qed

lemma enable_write_keeps_read: "(e OR kWriteEvent) AND kReadEvent = e AND kReadEvent"
  by (simp add: mask_defs bit.conj_disj_distrib2)

lemma disable_write_mask: "(e AND kWriteEvent) AND kWriteEvent = e AND kWriteEvent"
  "(e AND kWriteEvent) AND kReadEvent = 0"
  by (simp_all add: mask_defs and.assoc)

lemma write_mask_cases: "(e :: 32 word) AND EPOLLOUT = 0 \<or> e AND EPOLLOUT = EPOLLOUT"
proof -
  have out: "EPOLLOUT = push_bit 2 1" by (simp add: EPOLLOUT_def)
  have "bit EPOLLOUT n \<longleftrightarrow> n = 2" for n unfolding out bit_simps by auto
  then have "e AND EPOLLOUT = (if bit e 2 then EPOLLOUT else 0)"
    by (intro bit_eqI) (auto simp: bit_simps)
  then show ?thesis by simp
qed

lemma disable_read_mask: "(e AND NOT kReadEvent) AND kReadEvent = 0"
  "(e AND NOT kReadEvent) AND kWriteEvent = e AND kWriteEvent"
  by (simp_all add: mask_defs and.assoc)


text \<open>After an update a channel is known to the poller.\<close>

lemma Channel_update_index:
  "Channel_update K c w = Inr w' \<Longrightarrow> ch_index (chans w c) \<in> {kNew, kAdded, kDeleted} \<Longrightarrow> ch_index (chans w' c) \<noteq> kNew"
  by (auto simp: Channel_update_def EventLoop_updateChannel_def EpollPoller_updateChannel_def EpollPoller_update_def
      Let_def rbind_eq_Inr_iff split: if_splits prod.splits)


section \<open>Agreement of channel, poller and kernel\<close>

text \<open>
  A channel is in one of three situations: unknown to poller and kernel, registered with
  exactly its current events, or known to the poller but not registered (and then it has no
  events).
\<close>

definition chan_ok ::
    "('k \<Rightarrow> fd \<Rightarrow> fd \<rightharpoonup> epoll_event) \<Rightarrow> chan \<Rightarrow> ('k, 'a) world_scheme \<Rightarrow> bool" where
  "chan_ok interest c w \<longleftrightarrow>
     (let ch = chans w c; p = loops w (ch_loop ch);
          reg = poller_channels p (ch_fd ch);
          ker = interest (kern w) (epollfd p) (ch_fd ch)
      in ch_index ch = kNew \<and> reg = None \<and> ker = None
       \<or> ch_index ch = kAdded \<and> reg = Some c \<and> ker = Some (ch_events ch, c)
       \<or> ch_index ch = kDeleted \<and> reg = Some c \<and> ker = None \<and> ch_events ch = kNoneEvent)"

text \<open>The frame of every poller operation on channel \<open>c\<close>: what it leaves alone.\<close>

definition same_but_chan :: "chan \<Rightarrow> ('k, 'a) world_scheme \<Rightarrow> ('k, 'a) world_scheme \<Rightarrow> bool" where
  "same_but_chan c w w' \<longleftrightarrow>
     (\<forall>d. d \<noteq> c \<longrightarrow> chans w' d = chans w d) \<and>
     (\<exists>ev ix. chans w' c = (chans w c)\<lparr>ch_events := ev, ch_index := ix\<rparr>) \<and>
     (\<forall>l. \<exists>m. loops w' l = (loops w l)\<lparr>poller_channels := m\<rparr> \<and>
           (\<forall>f. l \<noteq> ch_loop (chans w c) \<or> f \<noteq> ch_fd (chans w c) \<longrightarrow> m f = poller_channels (loops w l) f)) \<and>
     conns w' = conns w \<and> strings w' = strings w \<and> world.more w' = world.more w"

lemma same_but_chanI:
  assumes "chans w' = (chans w)(c := (chans w c)\<lparr>ch_events := ev, ch_index := ix\<rparr>)"
    and "loops w' = loops w \<or>
      loops w' = (loops w)(ch_loop (chans w c) := (loops w (ch_loop (chans w c)))\<lparr>poller_channels :=
        (poller_channels (loops w (ch_loop (chans w c))))(ch_fd (chans w c) := x)\<rparr>)"
    and "conns w' = conns w" "strings w' = strings w" "world.more w' = world.more w"
  shows "same_but_chan c w w'"
proof -
  have "\<exists>m. loops w' l = (loops w l)\<lparr>poller_channels := m\<rparr> \<and>
      (\<forall>f. l \<noteq> ch_loop (chans w c) \<or> f \<noteq> ch_fd (chans w c) \<longrightarrow> m f = poller_channels (loops w l) f)" for l
    using assms(2)
  proof
    assume "loops w' = loops w"
    then show ?thesis by (intro exI [of _ "poller_channels (loops w l)"]) simp
  next
    assume "loops w' = (loops w)(ch_loop (chans w c) := (loops w (ch_loop (chans w c)))\<lparr>poller_channels :=
        (poller_channels (loops w (ch_loop (chans w c))))(ch_fd (chans w c) := x)\<rparr>)"
    then show ?thesis by (intro exI [of _ "poller_channels (loops w' l)"]) auto
  qed
  moreover have "\<exists>ev ix. chans w' c = (chans w c)\<lparr>ch_events := ev, ch_index := ix\<rparr>"
    using assms(1) by (intro exI [of _ ev] exI [of _ ix]) simp
  ultimately show ?thesis
    using assms(1,3-5) by (simp add: same_but_chan_def)
qed

lemma EpollPoller_update_cases:
  assumes "EpollPoller_update K l oper c w = Inr w'"
  obtains r k' where "epoll_ctl K (epollfd (loops w l)) oper (ch_fd (chans w c)) (ch_events (chans w c), c) (kern w) = (r, k')"
    "0 \<le> r \<or> oper = EPOLL_CTL_DEL" "kern w' = k'" "chans w' = chans w" "loops w' = loops w"
    "conns w' = conns w" "strings w' = strings w" "world.more w' = world.more w"
proof -
  obtain r k' where rk: "epoll_ctl K (epollfd (loops w l)) oper (ch_fd (chans w c)) (ch_events (chans w c), c) (kern w) = (r, k')"
    by fastforce
  then show ?thesis
    using assms that [OF rk]
    by (auto simp: EpollPoller_update_def Let_def log_error_def split: if_splits)
qed

text \<open>Two channels that the poller and the kernel can tell apart.\<close>

definition chans_apart :: "chan \<Rightarrow> chan \<Rightarrow> ('k, 'a) world_scheme \<Rightarrow> bool" where
  "chans_apart c d w \<longleftrightarrow>
     (if ch_loop (chans w c) = ch_loop (chans w d) then ch_fd (chans w c) \<noteq> ch_fd (chans w d)
      else epollfd (loops w (ch_loop (chans w c))) \<noteq> epollfd (loops w (ch_loop (chans w d))))"

text \<open>
  What a poller operation on a consistent channel establishes: the channel is consistent again and
  has the events \<open>ev\<close>, and nothing else changed, neither in the program nor in the kernel.
\<close>

definition set_events_post :: "('k \<Rightarrow> fd \<Rightarrow> fd \<rightharpoonup> epoll_event) \<Rightarrow> chan \<Rightarrow> 32 word \<Rightarrow> ('k, 'a) world_scheme \<Rightarrow> ('k, 'a) world_scheme \<Rightarrow> bool" where
  "set_events_post interest c ev w w' \<longleftrightarrow> chan_ok interest c w' \<and> ch_events (chans w' c) = ev \<and> same_but_chan c w w' \<and>
     (\<forall>ep f. (ep, f) \<noteq> (epollfd (loops w (ch_loop (chans w c))), ch_fd (chans w c)) \<longrightarrow>
        interest (kern w') ep f = interest (kern w) ep f)"

context epoll_kernel
begin

text \<open>The three branches of \<open>updateChannel\<close>: add, delete, modify.\<close>

lemma set_events_add:
  assumes idx: "ch_index (chans w c) = kNew \<or> ch_index (chans w c) = kDeleted \<and> chan_ok interest c w"
    and step: "Channel_update K c (upd_chan c (\<lambda>ch. ch\<lparr>ch_events := ev\<rparr>) w) = Inr w'"
  shows "set_events_post interest c ev w w'"
proof -
  let ?l = "ch_loop (chans w c)" and ?f = "ch_fd (chans w c)"
  let ?w1 = "upd_chan c (\<lambda>ch. ch\<lparr>ch_events := ev\<rparr>) w"
  let ?w2 = "upd_chan c (\<lambda>ch. ch\<lparr>ch_index := kAdded\<rparr>)
    (if ch_index (chans w c) = kNew
     then upd_loop ?l (\<lambda>p. p\<lparr>poller_channels := (poller_channels p)(?f \<mapsto> c)\<rparr>) ?w1 else ?w1)"
  have "EpollPoller_update K ?l EPOLL_CTL_ADD c ?w2 = Inr w'"
    using step idx by (auto simp: Channel_update_def EventLoop_updateChannel_def
        EpollPoller_updateChannel_def Let_def split: if_splits)
  then obtain r k' where r: "epoll_ctl K (epollfd (loops w ?l)) EPOLL_CTL_ADD ?f (ev, c) (kern w) = (r, k')" "0 \<le> r"
    "kern w' = k'" "chans w' = chans ?w2" "loops w' = loops ?w2" "conns w' = conns w" "strings w' = strings w"
    "world.more w' = world.more w"
    by (cases rule: EpollPoller_update_cases) (auto split: if_splits)
  have "same_but_chan c w w'"
    using r(4-8) by (intro same_but_chanI [where ev = ev and ix = kAdded and x = "Some c"]) auto
  moreover have "chan_ok interest c w'" "ch_events (chans w' c) = ev"
    using ctl_add [OF r(1,2)] idx r(3-5) by (auto simp: chan_ok_def Let_def)
  ultimately show ?thesis
    using ctl_add [OF r(1,2)] r(3) by (auto simp: set_events_post_def)
qed

lemma set_events_del:
  assumes ok: "chan_ok interest c w" and idx: "ch_index (chans w c) = kAdded"
    and step: "Channel_update K c (upd_chan c (\<lambda>ch. ch\<lparr>ch_events := kNoneEvent\<rparr>) w) = Inr w'"
  shows "set_events_post interest c kNoneEvent w w'"
proof -
  let ?l = "ch_loop (chans w c)" and ?f = "ch_fd (chans w c)"
  let ?w1 = "upd_chan c (\<lambda>ch. ch\<lparr>ch_events := kNoneEvent\<rparr>) w"
  obtain w2 where w2: "EpollPoller_update K ?l EPOLL_CTL_DEL c ?w1 = Inr w2"
    "w' = upd_chan c (\<lambda>ch. ch\<lparr>ch_index := kDeleted\<rparr>) w2"
    using step idx by (auto simp: Channel_update_def EventLoop_updateChannel_def
        EpollPoller_updateChannel_def Channel_isNoneEvent_def rbind_eq_Inr_iff)
  from w2(1) obtain r k' where r: "epoll_ctl K (epollfd (loops w ?l)) EPOLL_CTL_DEL ?f (kNoneEvent, c) (kern w) = (r, k')"
    "kern w2 = k'" "chans w2 = chans ?w1" "loops w2 = loops w" "conns w2 = conns w" "strings w2 = strings w"
    "world.more w2 = world.more w"
    by (cases rule: EpollPoller_update_cases) auto
  have "interest (kern w) (epollfd (loops w ?l)) ?f \<noteq> None" using ok idx by (auto simp: chan_ok_def Let_def)
  then have "0 \<le> r" using ctl_del_registered r(1) by blast
  note del = ctl_del [OF r(1) this]
  have "same_but_chan c w w'"
    using r(3-7) w2(2) by (intro same_but_chanI [where ev = kNoneEvent and ix = kDeleted]) auto
  moreover have "chan_ok interest c w'" "ch_events (chans w' c) = kNoneEvent"
    using del ok idx r(2-4) w2(2) by (auto simp: chan_ok_def Let_def)
  ultimately show ?thesis
    using del r(2) w2(2) by (auto simp: set_events_post_def)
qed

lemma set_events_mod:
  assumes ok: "chan_ok interest c w" and idx: "ch_index (chans w c) = kAdded" and ev: "ev \<noteq> kNoneEvent"
    and step: "Channel_update K c (upd_chan c (\<lambda>ch. ch\<lparr>ch_events := ev\<rparr>) w) = Inr w'"
  shows "set_events_post interest c ev w w'"
proof -
  let ?l = "ch_loop (chans w c)" and ?f = "ch_fd (chans w c)"
  let ?w1 = "upd_chan c (\<lambda>ch. ch\<lparr>ch_events := ev\<rparr>) w"
  have "EpollPoller_update K ?l EPOLL_CTL_MOD c ?w1 = Inr w'"
    using step idx ev by (auto simp: Channel_update_def EventLoop_updateChannel_def
        EpollPoller_updateChannel_def Channel_isNoneEvent_def)
  then obtain r k' where r: "epoll_ctl K (epollfd (loops w ?l)) EPOLL_CTL_MOD ?f (ev, c) (kern w) = (r, k')" "0 \<le> r"
    "kern w' = k'" "chans w' = chans ?w1" "loops w' = loops w" "conns w' = conns w" "strings w' = strings w"
    "world.more w' = world.more w"
    by (cases rule: EpollPoller_update_cases) auto
  have "same_but_chan c w w'"
    using r(4-8) by (intro same_but_chanI [where ev = ev and ix = "ch_index (chans w c)"]) auto
  moreover have "chan_ok interest c w'" "ch_events (chans w' c) = ev"
    using ctl_mod [OF r(1,2)] ok idx r(3-5) by (auto simp: chan_ok_def Let_def)
  ultimately show ?thesis
    using ctl_mod [OF r(1,2)] r(3) by (auto simp: set_events_post_def)
qed

text \<open>Setting the events of a channel and telling the poller, the common part of the five setters.\<close>

lemma set_events_ok:
  assumes ok: "chan_ok interest c w"
    and step: "Channel_update K c (upd_chan c (\<lambda>ch. ch\<lparr>ch_events := ev\<rparr>) w) = Inr w'"
  shows "chan_ok interest c w'" "ch_events (chans w' c) = ev" "same_but_chan c w w'"
    "\<forall>ep f. (ep, f) \<noteq> (epollfd (loops w (ch_loop (chans w c))), ch_fd (chans w c)) \<longrightarrow>
       interest (kern w') ep f = interest (kern w) ep f"
proof -
  have "set_events_post interest c ev w w'"
  proof (cases "ch_index (chans w c) = kAdded")
    case True
    then show ?thesis using set_events_del [OF ok True] set_events_mod [OF ok True _ step] step by blast
  next
    case False
    then show ?thesis using ok step by (intro set_events_add) (auto simp: chan_ok_def Let_def)
  qed
  then show "chan_ok interest c w'" "ch_events (chans w' c) = ev" "same_but_chan c w w'"
    "\<forall>ep f. (ep, f) \<noteq> (epollfd (loops w (ch_loop (chans w c))), ch_fd (chans w c)) \<longrightarrow>
       interest (kern w') ep f = interest (kern w) ep f"
    unfolding set_events_post_def by blast+
qed

text \<open>Taking a channel out of the poller.\<close>

lemma remove_ok:
  assumes ok: "chan_ok interest c w" and step: "Channel_remove K c w = Inr w'"
  shows "chan_ok interest c w'" "ch_index (chans w' c) = kNew" "same_but_chan c w w'"
    "\<forall>ep f. (ep, f) \<noteq> (epollfd (loops w (ch_loop (chans w c))), ch_fd (chans w c)) \<longrightarrow>
       interest (kern w') ep f = interest (kern w) ep f"
proof -
  let ?l = "ch_loop (chans w c)" and ?f = "ch_fd (chans w c)"
  let ?ep = "epollfd (loops w ?l)"
  let ?w1 = "upd_loop ?l (\<lambda>p. p\<lparr>poller_channels := (poller_channels p)(?f := None)\<rparr>) w"
  obtain w2 where w2: "(if ch_index (chans w c) = kAdded then EpollPoller_update K ?l EPOLL_CTL_DEL c ?w1
      else Inr ?w1) = Inr w2" "w' = upd_chan c (\<lambda>ch. ch\<lparr>ch_index := kNew\<rparr>) w2"
    using step by (auto simp: Channel_remove_def EventLoop_removeChannel_def
        EpollPoller_removeChannel_def Let_def rbind_eq_Inr_iff)
  have mid: "chans w2 = chans w \<and> loops w2 = loops ?w1 \<and> conns w2 = conns w \<and> strings w2 = strings w \<and>
      world.more w2 = world.more w \<and> interest (kern w2) = (interest (kern w))(?ep := (interest (kern w) ?ep)(?f := None))"
  proof (cases "ch_index (chans w c) = kAdded")
    case True
    then have "EpollPoller_update K ?l EPOLL_CTL_DEL c ?w1 = Inr w2" using w2(1) by simp
    then obtain r k' where r: "epoll_ctl K ?ep EPOLL_CTL_DEL ?f (ch_events (chans w c), c) (kern w) = (r, k')"
      "kern w2 = k'" "chans w2 = chans w" "loops w2 = loops ?w1" "conns w2 = conns w" "strings w2 = strings w"
      "world.more w2 = world.more w"
      by (cases rule: EpollPoller_update_cases) auto
    have "interest (kern w) ?ep ?f \<noteq> None" using ok True by (auto simp: chan_ok_def Let_def)
    then have "0 \<le> r" using ctl_del_registered r(1) by blast
    then show ?thesis using ctl_del [OF r(1)] r(2-7) by simp
  next
    case False
    then have "interest (kern w) ?ep ?f = None" using ok by (auto simp: chan_ok_def Let_def)
    then have "(interest (kern w) ?ep)(?f := None) = interest (kern w) ?ep" by auto
    then show ?thesis using False w2(1) by auto
  qed
  show "chan_ok interest c w'" "ch_index (chans w' c) = kNew"
    using mid w2(2) by (simp_all add: chan_ok_def Let_def)
  show "same_but_chan c w w'"
    using mid w2(2)
    by (intro same_but_chanI [where ev = "ch_events (chans w c)" and ix = kNew and x = None]) auto
  show "\<forall>ep f. (ep, f) \<noteq> (?ep, ?f) \<longrightarrow> interest (kern w') ep f = interest (kern w) ep f"
    using mid w2(2) by auto
qed

text \<open>The other channels are not affected.\<close>

lemma chan_ok_other:
  assumes "chan_ok interest d w" "same_but_chan c w w'" "d \<noteq> c" "chans_apart c d w"
    and "\<forall>ep f. (ep, f) \<noteq> (epollfd (loops w (ch_loop (chans w c))), ch_fd (chans w c)) \<longrightarrow>
       interest (kern w') ep f = interest (kern w) ep f"
  shows "chan_ok interest d w'"
proof -
  let ?l = "ch_loop (chans w d)" and ?f = "ch_fd (chans w d)"
  have d: "chans w' d = chans w d" using assms(2,3) by (simp add: same_but_chan_def)
  obtain m where m: "loops w' ?l = (loops w ?l)\<lparr>poller_channels := m\<rparr>"
    "\<forall>f. ?l \<noteq> ch_loop (chans w c) \<or> f \<noteq> ch_fd (chans w c) \<longrightarrow> m f = poller_channels (loops w ?l) f"
    using assms(2) unfolding same_but_chan_def by blast
  have "m ?f = poller_channels (loops w ?l) ?f"
    using m(2) assms(4) by (auto simp: chans_apart_def split: if_splits)
  moreover have "interest (kern w') (epollfd (loops w ?l)) ?f = interest (kern w) (epollfd (loops w ?l)) ?f"
    using assms(4,5) by (auto simp: chans_apart_def split: if_splits)
  ultimately show ?thesis
    using assms(1) d m(1) by (simp add: chan_ok_def Let_def)
qed

end


section \<open>Runs of channel operations\<close>

text \<open>
  The operations that clients perform on channels, and the states that a set of channels can
  reach by them (a step that aborts the program reaches nothing).
\<close>

datatype chan_op = EnableReading | DisableReading | EnableWriting | DisableWriting | DisableAll | Remove

fun chan_op_run ::
    "'k kernel \<Rightarrow> chan_op \<Rightarrow> chan \<Rightarrow> ('k, 'a) world_scheme \<Rightarrow> ('k, 'a) world_scheme res" where
  "chan_op_run K EnableReading c w = Channel_enableReading K c w"
| "chan_op_run K DisableReading c w = Channel_disableReading K c w"
| "chan_op_run K EnableWriting c w = Channel_enableWriting K c w"
| "chan_op_run K DisableWriting c w = Channel_disableWriting K c w"
| "chan_op_run K DisableAll c w = Channel_disableAll K c w"
| "chan_op_run K Remove c w = Channel_remove K c w"

lemmas channel_setters = Channel_enableReading_def Channel_disableReading_def
  Channel_enableWriting_def Channel_disableWriting_def Channel_disableAll_def

inductive chan_reach ::
    "'k kernel \<Rightarrow> chan set \<Rightarrow> ('k, 'a) world_scheme \<Rightarrow> ('k, 'a) world_scheme \<Rightarrow> bool"
  for K :: "'k kernel" and C :: "chan set" and w0 :: "('k, 'a) world_scheme" where
  chan_start: "chan_reach K C w0 w0"
| chan_step: "chan_reach K C w0 w \<Longrightarrow> c \<in> C \<Longrightarrow> chan_op_run K oper c w = Inr w' \<Longrightarrow> chan_reach K C w0 w'"

definition chans_inv ::
    "('k \<Rightarrow> fd \<Rightarrow> fd \<rightharpoonup> epoll_event) \<Rightarrow> chan set \<Rightarrow> ('k, 'a) world_scheme \<Rightarrow> bool" where
  "chans_inv interest C w \<longleftrightarrow> (\<forall>c \<in> C. chan_ok interest c w) \<and>
     (\<forall>c \<in> C. \<forall>d \<in> C. c \<noteq> d \<longrightarrow> chans_apart c d w)"

lemma same_but_chan_fields:
  assumes "same_but_chan c w w'"
  shows "ch_loop (chans w' x) = ch_loop (chans w x)" "ch_fd (chans w' x) = ch_fd (chans w x)"
    "epollfd (loops w' l) = epollfd (loops w l)" "pendingFunctors (loops w' l) = pendingFunctors (loops w l)"
    "threadId (loops w' l) = threadId (loops w l)" "wakeupFd (loops w' l) = wakeupFd (loops w l)"
    "callingPendingFunctors (loops w' l) = callingPendingFunctors (loops w l)"
    "conns w' = conns w" "strings w' = strings w" "world.more w' = world.more w"
proof -
  obtain ev ix where "chans w' c = (chans w c)\<lparr>ch_events := ev, ch_index := ix\<rparr>"
    using assms unfolding same_but_chan_def by blast
  then show "ch_loop (chans w' x) = ch_loop (chans w x)" "ch_fd (chans w' x) = ch_fd (chans w x)"
    using assms unfolding same_but_chan_def by (cases "x = c"; simp)+
  obtain m where "loops w' l = (loops w l)\<lparr>poller_channels := m\<rparr>"
    using assms unfolding same_but_chan_def by blast
  then show "epollfd (loops w' l) = epollfd (loops w l)" "pendingFunctors (loops w' l) = pendingFunctors (loops w l)"
    "threadId (loops w' l) = threadId (loops w l)" "wakeupFd (loops w' l) = wakeupFd (loops w l)"
    "callingPendingFunctors (loops w' l) = callingPendingFunctors (loops w l)"
    by simp_all
  show "conns w' = conns w" "strings w' = strings w" "world.more w' = world.more w"
    using assms by (simp_all add: same_but_chan_def)
qed

lemma same_but_chan_apart: "same_but_chan c w w' \<Longrightarrow> chans_apart d e w' \<longleftrightarrow> chans_apart d e w"
  by (simp add: chans_apart_def same_but_chan_fields)

context epoll_kernel
begin

lemma chan_op_effect:
  assumes "chan_ok interest c w" "chan_op_run K oper c w = Inr w'"
  shows "chan_ok interest c w'" "same_but_chan c w w'"
    "\<forall>ep f. (ep, f) \<noteq> (epollfd (loops w (ch_loop (chans w c))), ch_fd (chans w c)) \<longrightarrow>
       interest (kern w') ep f = interest (kern w) ep f"
  using assms set_events_ok [OF assms(1)] remove_ok [OF assms(1)]
  by (cases oper; auto simp: channel_setters)+

lemma chan_op_chans_inv:
  assumes "chans_inv interest C w" "c \<in> C" "chan_op_run K oper c w = Inr w'"
  shows "chans_inv interest C w'"
proof -
  have ok: "chan_ok interest c w" using assms(1,2) by (simp add: chans_inv_def)
  note eff = chan_op_effect [OF ok assms(3)]
  have "chan_ok interest d w'" if "d \<in> C" for d
  proof (cases "d = c")
    case False
    then show ?thesis
      using chan_ok_other [OF _ eff(2) False _ eff(3)] assms(1,2) that by (auto simp: chans_inv_def)
  qed (use eff(1) in simp)
  then show ?thesis
    using assms(1) by (simp add: chans_inv_def same_but_chan_apart [OF eff(2)])
qed

lemma chan_reach_inv: "chan_reach K C w0 w \<Longrightarrow> chans_inv interest C w0 \<Longrightarrow> chans_inv interest C w"
  by (induction rule: chan_reach.induct) (auto intro: chan_op_chans_inv)

end


section \<open>A sample world\<close>

text \<open>
  Connection 1 with channel 1 on descriptor 7, registered for reading with the epoll instance 4 of
  loop 0, whose eventfd is 5 and whose thread is 100. The kernel is \<open>ref_kernel\<close>.
\<close>

definition sample_loop :: event_loop where
  "sample_loop = \<lparr>looping = True, quit_flag = False, callingPendingFunctors = False, threadId = 100,
     pollReturnTime = 0, wakeupFd = 5, wakeupChannel = 0, activeChannels = [], pendingFunctors = [],
     epollfd = 4, poller_channels = [7 \<mapsto> 1], poller_events_size = 16\<rparr>"

definition sample_chan :: channel where
  "sample_chan = (Channel_ctor 0 7)\<lparr>ch_events := kReadEvent, ch_index := kAdded,
     ch_tie := Some 1, ch_tied := True\<rparr>"

definition sample_addr :: sockaddr_in where
  "sample_addr = \<lparr>sin_port = 0, s_addr = 0\<rparr>"

definition sample_conn :: tcp_connection where
  "sample_conn = \<lparr>conn_loop = 0, conn_name = ''c'', conn_state = kConnected, conn_reading = True,
     conn_sockfd = 7, conn_channel = 1, conn_localAddr = sample_addr, conn_peerAddr = sample_addr,
     conn_hasConnectionCallback = True, conn_hasMessageCallback = True, conn_hasWriteCompleteCallback = True,
     conn_hasCloseCallback = True, conn_hasHighWaterMarkCallback = True, conn_highWaterMark = 3,
     conn_inputBuffer = fresh_buffer, conn_outputBuffer = fresh_buffer\<rparr>"

definition sample_world :: "ref_state world" where
  "sample_world = \<lparr>kern = ref_init\<lparr>rk_interest := (\<lambda>_. Map.empty)(4 := [7 \<mapsto> (kReadEvent, 1)]), rk_accepts := [2, 9]\<rparr>,
     chans = (\<lambda>_. sample_chan), loops = (\<lambda>_. sample_loop), conns = (\<lambda>_. sample_conn),
     strings = [9 \<mapsto> ''abc''], t_loopInThisThread = [100 \<mapsto> 0], error_log = []\<rparr>"

lemmas sample_defs = sample_world_def sample_conn_def sample_chan_def sample_loop_def Channel_ctor_def ref_init_def

lemma sample_chan_ok: "chan_ok rk_interest 1 sample_world"
  by (simp add: chan_ok_def sample_defs Let_def)


section \<open>Properties\<close>

text \<open>
  C19. Poller and kernel agree. Start with channels that are pairwise distinguishable (different
  descriptors in one loop, different epoll instances otherwise) and consistent, and perform any
  sequence of enabling, disabling and removing operations on them that does not abort. Then every
  channel is still in one of three situations: unknown to poller and kernel; in the poller's map
  and registered in the kernel with exactly its current event mask; or in the map, unregistered
  and without events. In particular an event is only asked for, and never lost, by an explicit
  call.
\<close>

theorem poller_kernel_consistency:
  assumes "epoll_kernel K interest" "chans_inv interest C w0" "chan_reach K C w0 w"
  shows "chans_inv interest C w"
  using epoll_kernel.chan_reach_inv [OF assms(1,3,2)] .

lemma sample_step: "\<exists>w'. Channel_enableWriting ref_kernel 1 sample_world = Inr w'"
  by (simp add: Channel_enableWriting_def Channel_update_def EventLoop_updateChannel_def
      EpollPoller_updateChannel_def EpollPoller_update_def Let_def sample_defs ref_defs
      kNew_def kAdded_def kDeleted_def Channel_isNoneEvent_def split: prod.split)

lemma sample_chans_inv: "chans_inv rk_interest {1} sample_world"
  using sample_chan_ok by (simp add: chans_inv_def)

theorem poller_kernel_consistency_witness:
  "\<exists>w. Channel_enableWriting ref_kernel 1 sample_world = Inr w \<and> chans_inv rk_interest {1} w"
proof -
  obtain w where w: "Channel_enableWriting ref_kernel 1 sample_world = Inr w" using sample_step by blast
  then have "chan_reach ref_kernel {1} sample_world w"
    by (intro chan_step [OF chan_start, of 1 _ ref_kernel EnableWriting]) simp_all
  with w show ?thesis
    using poller_kernel_consistency [OF rk.epoll_kernel_axioms sample_chans_inv] by blast
qed

text \<open>
  \<open>disableWriting\<close> does the opposite of its name: after it the write interest is what it was
  before, every other interest is gone, and the kernel has been told so. A channel that was
  reading and writing stops reading and goes on writing.
\<close>

theorem Channel_disableWriting_effect:
  assumes "epoll_kernel K interest" "chan_ok interest c w" "Channel_disableWriting K c w = Inr w'"
  shows "Channel_isWriting (chans w' c) = Channel_isWriting (chans w c) \<and> \<not> Channel_isReading (chans w' c) \<and>
    ch_events (chans w' c) = ch_events (chans w c) AND EPOLLOUT \<and>
    (Channel_isWriting (chans w c) \<longrightarrow>
       interest (kern w') (epollfd (loops w (ch_loop (chans w c)))) (ch_fd (chans w c)) = Some (EPOLLOUT, c))"
proof -
  have up: "Channel_update K c (upd_chan c (\<lambda>ch. ch\<lparr>ch_events := ch_events (chans w c) AND kWriteEvent\<rparr>) w) = Inr w'"
    using assms(3) by (simp add: Channel_disableWriting_def)
  note ok = epoll_kernel.set_events_ok [OF assms(1,2) up]
  have ev: "ch_events (chans w' c) = ch_events (chans w c) AND EPOLLOUT" using ok(2) by (simp add: kWriteEvent_def)
  have "ch_index (chans w' c) \<noteq> kNew" using Channel_update_index [OF up] assms(2) by (auto simp: chan_ok_def Let_def)
  then have "interest (kern w') (epollfd (loops w (ch_loop (chans w c)))) (ch_fd (chans w c)) = Some (EPOLLOUT, c)"
    if "Channel_isWriting (chans w c)"
    using ok(1) ev that write_mask_cases [of "ch_events (chans w c)"]
    by (auto simp: chan_ok_def Let_def same_but_chan_fields [OF ok(3)] Channel_isWriting_def kWriteEvent_def kNoneEvent_def)
  then show ?thesis
    using ev disable_write_mask [of "ch_events (chans w c)"] by (auto simp: channel_queries kWriteEvent_def)
qed

theorem Channel_disableWriting_effect_witness:
  "\<exists>w'. Channel_disableWriting ref_kernel 1 sample_world = Inr w' \<and> \<not> Channel_isReading (chans w' 1)"
proof -
  have "\<exists>w'. Channel_disableWriting ref_kernel 1 sample_world = Inr w'"
    by (simp add: Channel_disableWriting_def Channel_update_def EventLoop_updateChannel_def
        EpollPoller_updateChannel_def EpollPoller_update_def Let_def sample_defs ref_defs index_defs
        Channel_isNoneEvent_def split: prod.split)
  then show ?thesis
    using Channel_disableWriting_effect [OF rk.epoll_kernel_axioms sample_chan_ok] by blast
qed

text \<open>
  C39. \<open>poll\<close>. Reported events (at most as many as the event array holds) become the active
  channels in the order of the report, and the array is doubled exactly when it was full; the
  channels get the reported masks and nothing else changes. When \<open>epoll_wait\<close> fails, the result \<open>-1\<close>
  becomes a huge \<open>size_t\<close>: no channel is active, and the branch that logs the error is never
  taken, whatever the error was.
\<close>

theorem EpollPoller_poll_effect:
  assumes "epoll_wait K (epollfd (loops w l)) (poller_events_size (loops w l)) (kern w) = (ret, k1)"
    and "\<And>evs. ret = Inr evs \<Longrightarrow> length evs \<le> poller_events_size (loops w l)"
    and "poller_events_size (loops w l) < 2 ^ 31"
  shows "\<exists>now w'. (case ret of
      Inl e \<Rightarrow> EpollPoller_poll K l [] w = Inr (now, [], w') \<and> error_log w' = error_log w \<and>
        chans w' = chans w \<and> loops w' = loops w
    | Inr evs \<Rightarrow> EpollPoller_poll K l [] w = Inr (now, map snd evs, w') \<and> chans w' = chans (fill_from evs w) \<and>
        poller_events_size (loops w' l) = (if evs \<noteq> [] \<and> length evs = poller_events_size (loops w l)
          then poller_events_size (loops w l) * 2 else poller_events_size (loops w l)))"
proof -
  obtain tv k2 where tv: "sys_gettimeofday K k1 = (tv, k2)" by fastforce
  obtain ts us where ts: "tv = (ts, us)" by fastforce
  show ?thesis
  proof (cases ret)
    case (Inl e)
    have "size_t (-1) = 2 ^ 64 - 1" "int32 (int (2 ^ 64 - 1)) = -1" by (simp_all add: size_t_def int32_def)
    then show ?thesis
      using assms(1,3) tv ts Inl
      by (auto simp: EpollPoller_poll_def Timestamp_now_def EpollPoller_fillActiveChannels_def)
  next
    case (Inr evs)
    then have len: "length evs < 2 ^ 31" "length evs \<le> poller_events_size (loops w l)" using assms(2,3) by auto
    then have "size_t (int (length evs)) = length evs" "int32 (int (length evs)) = int (length evs)"
      by (simp_all add: conv_simps)
    moreover have "chans (fill_from evs (w\<lparr>kern := k2\<rparr>)) = chans (fill_from evs w)" by (rule fill_from_chans) simp
    ultimately show ?thesis
      using assms(1) tv ts Inr
      by (cases "evs = []") (auto simp: EpollPoller_poll_def Timestamp_now_def EpollPoller_fillActiveChannels_def Let_def)
  qed
qed

theorem EpollPoller_poll_effect_witness:
  "\<exists>now w'. EpollPoller_poll ref_kernel 0 []
       (sample_world\<lparr>kern := (kern sample_world)\<lparr>rk_ready := [(EPOLLIN, 1)]\<rparr>\<rparr>) = Inr (now, [1], w')"
proof -
  let ?w = "sample_world\<lparr>kern := (kern sample_world)\<lparr>rk_ready := [(EPOLLIN, 1)]\<rparr>\<rparr>"
  have "epoll_wait ref_kernel (epollfd (loops ?w 0)) (poller_events_size (loops ?w 0)) (kern ?w)
      = (Inr [(EPOLLIN, 1)], (kern ?w)\<lparr>rk_ready := []\<rparr>)"
    by (simp add: sample_defs ref_defs)
  from EpollPoller_poll_effect [OF this] show ?thesis by (auto simp: sample_world_def sample_loop_def)
qed

end
