(* ===== verification/Net_EventLoop.thy ===== *)
theory Net_EventLoop
  imports Net_Poller
begin

text \<open>
  The event loop (\<open>src/net/EventLoop.h\<close>, \<open>src/net/EventLoop.cc\<close>) and the choice of the default
  poller (\<open>src/poller/DefaultPoller.cc\<close>). The
  calling thread is an argument \<open>tid\<close> (\<open>CurrentThread::tid()\<close>). Handlers and functors are
  run by the arguments \<open>call\<close> and \<open>exec\<close>; the components above instantiate them.
\<close>

section \<open>Operations\<close>

definition kPollTimeMs :: int where "kPollTimeMs = 10000"
definition kInitEventListSize :: nat where "kInitEventListSize = 16"

definition EventLoop_isInLoopThread :: "int \<Rightarrow> loop \<Rightarrow> ('k, 'a) world_scheme \<Rightarrow> bool" where
  "EventLoop_isInLoopThread tid l w \<longleftrightarrow> threadId (loops w l) = tid"

definition EventLoop_wakeup ::
    "'k kernel \<Rightarrow> loop \<Rightarrow> ('k, 'a) world_scheme \<Rightarrow> ('k, 'a) world_scheme" where
  "EventLoop_wakeup K l w =
     (case sys_write K (wakeupFd (loops w l)) one_bytes (kern w) of (out, k') \<Rightarrow>
        (if out = Inr 8 then w\<lparr>kern := k'\<rparr>
         else log_error ''EventLoop::wakeup'' (w\<lparr>kern := k'\<rparr>)))"

definition EventLoop_handleRead ::
    "'k kernel \<Rightarrow> loop \<Rightarrow> ('k, 'a) world_scheme \<Rightarrow> ('k, 'a) world_scheme" where
  "EventLoop_handleRead K l w =
     (case sys_read K (wakeupFd (loops w l)) 8 (kern w) of (out, k') \<Rightarrow>
        (if (case out of Inl e \<Rightarrow> False | Inr xs \<Rightarrow> length xs = 8) then w\<lparr>kern := k'\<rparr>
         else log_error ''EventLoop::handleRead()'' (w\<lparr>kern := k'\<rparr>)))"

definition EventLoop_quit ::
    "'k kernel \<Rightarrow> int \<Rightarrow> loop \<Rightarrow> ('k, 'a) world_scheme \<Rightarrow> ('k, 'a) world_scheme" where
  "EventLoop_quit K tid l w =
     (let w1 = upd_loop l (\<lambda>p. p\<lparr>quit_flag := True\<rparr>) w
      in if EventLoop_isInLoopThread tid l w1 then EventLoop_wakeup K l w1 else w1)"

text \<open>
  \<open>queueInLoop\<close> in its two parts: the insertion under the mutex, and the test that follows.
\<close>

definition queueInLoop_insert :: "loop \<Rightarrow> Functor \<Rightarrow> ('k, 'a) world_scheme \<Rightarrow> ('k, 'a) world_scheme" where
  "queueInLoop_insert l cb w = upd_loop l (\<lambda>p. p\<lparr>pendingFunctors := pendingFunctors p @ [cb]\<rparr>) w"

definition queueInLoop_signal ::
    "'k kernel \<Rightarrow> int \<Rightarrow> loop \<Rightarrow> ('k, 'a) world_scheme \<Rightarrow> ('k, 'a) world_scheme" where
  "queueInLoop_signal K tid l w =
     (if \<not> EventLoop_isInLoopThread tid l w \<or> callingPendingFunctors (loops w l)
      then EventLoop_wakeup K l w else w)"

definition EventLoop_queueInLoop ::
    "'k kernel \<Rightarrow> int \<Rightarrow> loop \<Rightarrow> Functor \<Rightarrow> ('k, 'a) world_scheme \<Rightarrow> ('k, 'a) world_scheme" where
  "EventLoop_queueInLoop K tid l cb w = queueInLoop_signal K tid l (queueInLoop_insert l cb w)"

text \<open>\<open>runInLoop\<close>: \<open>body\<close> is what the functor \<open>cb\<close> does when it is called.\<close>

definition EventLoop_runInLoop ::
    "'k kernel \<Rightarrow> int \<Rightarrow> loop \<Rightarrow> Functor
      \<Rightarrow> (('k, 'a) world_scheme \<Rightarrow> ('k, 'a) world_scheme res)
      \<Rightarrow> ('k, 'a) world_scheme \<Rightarrow> ('k, 'a) world_scheme res" where
  "EventLoop_runInLoop K tid l cb body w =
     (if EventLoop_isInLoopThread tid l w then body w
      else Inr (EventLoop_queueInLoop K tid l cb w))"

text \<open>\<open>doPendingFunctors\<close>: the swap under the mutex, the calls, and the reset of the flag.\<close>

definition doPendingFunctors_swap :: "loop \<Rightarrow> ('k, 'a) world_scheme \<Rightarrow> Functor list \<times> ('k, 'a) world_scheme" where
  "doPendingFunctors_swap l w =
     (pendingFunctors (loops w l),
      upd_loop l (\<lambda>p. p\<lparr>callingPendingFunctors := True, pendingFunctors := []\<rparr>) w)"

definition doPendingFunctors_done :: "loop \<Rightarrow> ('k, 'a) world_scheme \<Rightarrow> ('k, 'a) world_scheme" where
  "doPendingFunctors_done l w = upd_loop l (\<lambda>p. p\<lparr>callingPendingFunctors := False\<rparr>) w"

definition EventLoop_doPendingFunctors ::
    "(Functor \<Rightarrow> ('k, 'a) world_scheme \<Rightarrow> ('k, 'a) world_scheme res) \<Rightarrow> loop
      \<Rightarrow> ('k, 'a) world_scheme \<Rightarrow> ('k, 'a) world_scheme res" where
  "EventLoop_doPendingFunctors exec l w =
     (case doPendingFunctors_swap l w of (functors, w1) \<Rightarrow>
        rbind (res_iter exec functors w1) (\<lambda>w2. Inr (doPendingFunctors_done l w2)))"

text \<open>One turn of the loop, and the loop.\<close>

definition EventLoop_turn ::
    "'k kernel \<Rightarrow> (int \<Rightarrow> handler \<Rightarrow> ('k, 'a) world_scheme \<Rightarrow> ('k, 'a) world_scheme res)
      \<Rightarrow> (conn \<Rightarrow> ('k, 'a) world_scheme \<Rightarrow> bool)
      \<Rightarrow> (Functor \<Rightarrow> ('k, 'a) world_scheme \<Rightarrow> ('k, 'a) world_scheme res) \<Rightarrow> loop
      \<Rightarrow> ('k, 'a) world_scheme \<Rightarrow> ('k, 'a) world_scheme res" where
  "EventLoop_turn K call alive exec l w =
     rbind (EpollPoller_poll K l [] (upd_loop l (\<lambda>p. p\<lparr>activeChannels := []\<rparr>) w))
       (\<lambda>(now, act, w1). rbind
          (res_iter (Channel_handleEvent (call now) alive) act
             (upd_loop l (\<lambda>p. p\<lparr>activeChannels := act, pollReturnTime := now\<rparr>) w1))
          (EventLoop_doPendingFunctors exec l))"

partial_function (option) EventLoop_while ::
    "'k kernel \<Rightarrow> (int \<Rightarrow> handler \<Rightarrow> ('k, 'a) world_scheme \<Rightarrow> ('k, 'a) world_scheme res)
      \<Rightarrow> (conn \<Rightarrow> ('k, 'a) world_scheme \<Rightarrow> bool)
      \<Rightarrow> (Functor \<Rightarrow> ('k, 'a) world_scheme \<Rightarrow> ('k, 'a) world_scheme res) \<Rightarrow> loop
      \<Rightarrow> ('k, 'a) world_scheme \<Rightarrow> ('k, 'a) world_scheme res option" where
  "EventLoop_while K call alive exec l w =
     (if quit_flag (loops w l) then Some (Inr w)
      else (case EventLoop_turn K call alive exec l w of
              Inl e \<Rightarrow> Some (Inl e)
            | Inr w' \<Rightarrow> EventLoop_while K call alive exec l w'))"

definition EventLoop_loop ::
    "'k kernel \<Rightarrow> (int \<Rightarrow> handler \<Rightarrow> ('k, 'a) world_scheme \<Rightarrow> ('k, 'a) world_scheme res)
      \<Rightarrow> (conn \<Rightarrow> ('k, 'a) world_scheme \<Rightarrow> bool)
      \<Rightarrow> (Functor \<Rightarrow> ('k, 'a) world_scheme \<Rightarrow> ('k, 'a) world_scheme res) \<Rightarrow> loop
      \<Rightarrow> ('k, 'a) world_scheme \<Rightarrow> ('k, 'a) world_scheme res option" where
  "EventLoop_loop K call alive exec l w =
     map_option (map_sum id (upd_loop l (\<lambda>p. p\<lparr>looping := False\<rparr>)))
       (EventLoop_while K call alive exec l
          (upd_loop l (\<lambda>p. p\<lparr>looping := True, quit_flag := False\<rparr>) w))"


section \<open>Construction and destruction\<close>

text \<open>
  The constructor places the loop at address \<open>l\<close> and its wake-up channel at address \<open>c\<close>.
  \<open>use_poll\<close> says whether the environment variable \<open>MUDUO_USE_POLL\<close> is set: then the poller is
  a null pointer, which the registration of the wake-up channel dereferences. A poller is its descriptor here; its
  map and its event array are members of the loop's record.
\<close>

definition EpollPoller_ctor :: "'k kernel \<Rightarrow> ('k, 'a) world_scheme \<Rightarrow> (fd \<times> ('k, 'a) world_scheme) res" where
  "EpollPoller_ctor K w =
     (case sys_epoll_create1 K (kern w) of
        (Inl e, k') \<Rightarrow> Inl Aborted
      | (Inr f, k') \<Rightarrow> Inr (f, w\<lparr>kern := k'\<rparr>))"

definition EpollPoller_dtor :: "'k kernel \<Rightarrow> loop \<Rightarrow> ('k, 'a) world_scheme \<Rightarrow> ('k, 'a) world_scheme" where
  "EpollPoller_dtor K l w = w\<lparr>kern := sys_close K (epollfd (loops w l)) (kern w)\<rparr>"

definition Poller_newDefaultPoller ::
    "'k kernel \<Rightarrow> bool \<Rightarrow> ('k, 'a) world_scheme \<Rightarrow> (fd option \<times> ('k, 'a) world_scheme) res" where
  "Poller_newDefaultPoller K use_poll w =
     (if use_poll then Inr (None, w) else rbind (EpollPoller_ctor K w) (\<lambda>(f, w'). Inr (Some f, w')))"

definition createEventfd ::
    "'k kernel \<Rightarrow> ('k, 'a) world_scheme \<Rightarrow> (fd \<times> ('k, 'a) world_scheme) res" where
  "createEventfd K w =
     (case sys_eventfd K (kern w) of
        (Inl e, k') \<Rightarrow> Inl Aborted
      | (Inr f, k') \<Rightarrow> Inr (f, w\<lparr>kern := k'\<rparr>))"

definition EventLoop_ctor ::
    "'k kernel \<Rightarrow> bool \<Rightarrow> int \<Rightarrow> loop \<Rightarrow> chan \<Rightarrow> ('k, 'a) world_scheme \<Rightarrow> ('k, 'a) world_scheme res" where
  "EventLoop_ctor K use_poll tid l c w =
     rbind (Poller_newDefaultPoller K use_poll w) (\<lambda>(poller, w1).
     rbind (createEventfd K w1) (\<lambda>(evfd, w2).
       if t_loopInThisThread w2 tid \<noteq> None then Inl Aborted
       else (case poller of
               None \<Rightarrow> Inl NullDeref
             | Some epfd \<Rightarrow>
                 Channel_enableReading K c
                   (w2\<lparr>loops := (loops w2)(l := \<lparr>looping = False, quit_flag = False,
                         callingPendingFunctors = False, threadId = tid, pollReturnTime = 0,
                         wakeupFd = evfd, wakeupChannel = c, activeChannels = [], pendingFunctors = [],
                         epollfd = epfd, poller_channels = Map.empty,
                         poller_events_size = kInitEventListSize\<rparr>),
                       chans := (chans w2)(c := Channel_setReadCallback (H_EventLoop_handleRead l) (Channel_ctor l evfd)),
                       t_loopInThisThread := (t_loopInThisThread w2)(tid := Some l)\<rparr>))))"

text \<open>The members are destroyed after the body of the destructor, the poller among them.\<close>

definition EventLoop_dtor ::
    "'k kernel \<Rightarrow> int \<Rightarrow> loop \<Rightarrow> ('k, 'a) world_scheme \<Rightarrow> ('k, 'a) world_scheme res" where
  "EventLoop_dtor K tid l w =
     rbind (Channel_disableAll K (wakeupChannel (loops w l)) w) (\<lambda>w1.
     rbind (Channel_remove K (wakeupChannel (loops w1 l)) w1) (\<lambda>w2.
       Inr (EpollPoller_dtor K l (w2\<lparr>kern := sys_close K (wakeupFd (loops w2 l)) (kern w2),
              t_loopInThisThread := (t_loopInThisThread w2)(tid := None)\<rparr>))))"


section \<open>Concurrent use of the functor queue\<close>

text \<open>
  A run of one loop, with other threads calling \<open>queueInLoop\<close> at any moment. The loop's own
  thread is polling, handling the reported events, or running a batch of functors that it swapped
  out; what a handler or a functor does to the queue is a \<open>queueInLoop\<close> of the loop's own thread.
  A foreign \<open>queueInLoop\<close> is two steps, the insertion under the mutex and the test with the
  wake-up; \<open>signals\<close> counts the threads between the two. \<open>queued\<close> and \<open>executed\<close> record the
  history.
\<close>

datatype loop_phase = Polling | Handling | Running "Functor list"

record ('k, 'a) loop_run =
  run_world :: "('k, 'a) world_scheme"
  run_phase :: loop_phase
  signals :: nat
  queued :: "Functor list"
  executed :: "Functor list"

fun batch_of :: "loop_phase \<Rightarrow> Functor list" where
  "batch_of (Running fs) = fs"
| "batch_of Polling = []"
| "batch_of Handling = []"

inductive loop_step ::
    "'k kernel \<Rightarrow> loop \<Rightarrow> ('k, 'a) loop_run \<Rightarrow> ('k, 'a) loop_run \<Rightarrow> bool"
  for K :: "'k kernel" and l :: loop where
  foreign_insert: "loop_step K l s (s\<lparr>run_world := queueInLoop_insert l f (run_world s),
      signals := Suc (signals s), queued := queued s @ [f]\<rparr>)"
| foreign_signal: "signals s = Suc n \<Longrightarrow> tid \<noteq> threadId (loops (run_world s) l) \<Longrightarrow>
    loop_step K l s (s\<lparr>run_world := queueInLoop_signal K tid l (run_world s), signals := n\<rparr>)"
| own_queue: "run_phase s \<noteq> Polling \<Longrightarrow>
    loop_step K l s (s\<lparr>run_world :=
      EventLoop_queueInLoop K (threadId (loops (run_world s) l)) l f (run_world s), queued := queued s @ [f]\<rparr>)"
| poll_return: "run_phase s = Polling \<Longrightarrow> loop_step K l s (s\<lparr>run_phase := Handling\<rparr>)"
| drain: "run_phase s = Handling \<Longrightarrow>
    loop_step K l s (s\<lparr>run_world := EventLoop_handleRead K l (run_world s)\<rparr>)"
| swap: "run_phase s = Handling \<Longrightarrow> doPendingFunctors_swap l (run_world s) = (fs, w') \<Longrightarrow>
    loop_step K l s (s\<lparr>run_world := w', run_phase := Running fs\<rparr>)"
| run_functor: "run_phase s = Running (f # fs) \<Longrightarrow>
    loop_step K l s (s\<lparr>run_phase := Running fs, executed := executed s @ [f]\<rparr>)"
| finish_batch: "run_phase s = Running [] \<Longrightarrow>
    loop_step K l s (s\<lparr>run_world := doPendingFunctors_done l (run_world s), run_phase := Polling\<rparr>)"

inductive loop_reach ::
    "'k kernel \<Rightarrow> loop \<Rightarrow> ('k, 'a) loop_run \<Rightarrow> ('k, 'a) loop_run \<Rightarrow> bool"
  for K :: "'k kernel" and l :: loop and s0 :: "('k, 'a) loop_run" where
  loop_start: "loop_reach K l s0 s0"
| loop_next: "loop_reach K l s0 s \<Longrightarrow> loop_step K l s t \<Longrightarrow> loop_reach K l s0 t"

definition loop_fresh :: "loop \<Rightarrow> ('k, 'a) loop_run \<Rightarrow> bool" where
  "loop_fresh l s \<longleftrightarrow> run_phase s = Polling \<and> signals s = 0 \<and> queued s = [] \<and> executed s = [] \<and>
     pendingFunctors (loops (run_world s) l) = [] \<and> \<not> callingPendingFunctors (loops (run_world s) l)"

text \<open>What a wake-up and a read of the eventfd leave alone.\<close>

lemma EventLoop_wakeup_frame [simp]:
  "loops (EventLoop_wakeup K l w) = loops w" "chans (EventLoop_wakeup K l w) = chans w"
  "conns (EventLoop_wakeup K l w) = conns w" "strings (EventLoop_wakeup K l w) = strings w"
  "world.more (EventLoop_wakeup K l w) = world.more w"
  by (simp_all add: EventLoop_wakeup_def split: prod.split)

lemma EventLoop_handleRead_frame [simp]:
  "loops (EventLoop_handleRead K l w) = loops w" "chans (EventLoop_handleRead K l w) = chans w"
  "conns (EventLoop_handleRead K l w) = conns w" "strings (EventLoop_handleRead K l w) = strings w"
  by (simp_all add: EventLoop_handleRead_def split: prod.split)

lemmas queue_defs = EventLoop_queueInLoop_def queueInLoop_insert_def queueInLoop_signal_def
  EventLoop_isInLoopThread_def doPendingFunctors_swap_def doPendingFunctors_done_def

text \<open>Every functor is executed once, in the order of the insertions.\<close>

definition queue_inv :: "loop \<Rightarrow> ('k, 'a) loop_run \<Rightarrow> bool" where
  "queue_inv l s \<longleftrightarrow>
     queued s = executed s @ batch_of (run_phase s) @ pendingFunctors (loops (run_world s) l) \<and>
     (callingPendingFunctors (loops (run_world s) l) \<longleftrightarrow> (\<exists>fs. run_phase s = Running fs))"

lemma loop_step_queue_inv: "loop_step K l s t \<Longrightarrow> queue_inv l s \<Longrightarrow> queue_inv l t"
  by (induction rule: loop_step.induct) (auto simp: queue_inv_def queue_defs)

lemma loop_reach_queue_inv: "loop_reach K l s0 s \<Longrightarrow> loop_fresh l s0 \<Longrightarrow> queue_inv l s"
proof (induction rule: loop_reach.induct)
  case loop_start
  then show ?case by (auto simp: queue_inv_def loop_fresh_def)
next
  case (loop_next s t)
  then show ?case by (blast intro: loop_step_queue_inv)
qed

definition wake_inv :: "('k \<Rightarrow> fd \<Rightarrow> nat) \<Rightarrow> loop \<Rightarrow> ('k, 'a) loop_run \<Rightarrow> bool" where
  "wake_inv evcount l s \<longleftrightarrow>
     (run_phase s \<noteq> Handling \<and> pendingFunctors (loops (run_world s) l) \<noteq> [] \<longrightarrow>
      0 < signals s \<or> 0 < evcount (kern (run_world s)) (wakeupFd (loops (run_world s) l)))"

lemma loop_step_wakeupFd: "loop_step K l s t \<Longrightarrow>
    wakeupFd (loops (run_world t) l) = wakeupFd (loops (run_world s) l)"
  by (induction rule: loop_step.induct) (auto simp: queue_defs)

context eventfd_kernel
begin

lemma wakeup_positive:
  "wakeupFd (loops w l) \<in> evfds \<Longrightarrow> 0 < evcount (kern (EventLoop_wakeup K l w)) (wakeupFd (loops w l))"
  using signal by (fastforce simp: EventLoop_wakeup_def split: prod.split)

lemma loop_step_wake_inv:
  assumes "loop_step K l s t" "queue_inv l s" "wake_inv evcount l s"
    and "wakeupFd (loops (run_world s) l) \<in> evfds"
  shows "wake_inv evcount l t"
  using assms
proof (induction rule: loop_step.induct)
  case (foreign_signal s n tid)
  then show ?case
    using wakeup_positive [of "run_world s" l] by (simp add: wake_inv_def queue_defs)
next
  case (own_queue s f)
  let ?w = "queueInLoop_insert l f (run_world s)"
  show ?case
  proof (cases "run_phase s")
    case (Running fs)
    then have "callingPendingFunctors (loops (run_world s) l)" using own_queue.prems(1) by (simp add: queue_inv_def)
    then have "EventLoop_queueInLoop K (threadId (loops (run_world s) l)) l f (run_world s) = EventLoop_wakeup K l ?w"
      by (simp add: EventLoop_queueInLoop_def queueInLoop_signal_def queueInLoop_insert_def)
    moreover have "wakeupFd (loops ?w l) = wakeupFd (loops (run_world s) l)"
      by (simp add: queueInLoop_insert_def)
    ultimately show ?thesis
      using wakeup_positive [of ?w l] own_queue.prems(3) by (simp add: wake_inv_def)
  qed (use own_queue in \<open>simp_all add: wake_inv_def\<close>)
qed (auto simp: wake_inv_def queue_defs)

lemma loop_reach_wake_inv:
  assumes "loop_reach K l s0 s" "loop_fresh l s0" "wakeupFd (loops (run_world s0) l) \<in> evfds"
  shows "wake_inv evcount l s \<and> wakeupFd (loops (run_world s) l) \<in> evfds"
  using assms
proof (induction rule: loop_reach.induct)
  case loop_start
  then show ?case by (simp add: wake_inv_def loop_fresh_def)
next
  case (loop_next s t)
  then have "queue_inv l s" by (blast intro: loop_reach_queue_inv)
  with loop_next show ?case
    using loop_step_wake_inv loop_step_wakeupFd by metis
qed

end

section \<open>Turns of the loop\<close>

fun loop_turns ::
    "'k kernel \<Rightarrow> (int \<Rightarrow> handler \<Rightarrow> ('k, 'a) world_scheme \<Rightarrow> ('k, 'a) world_scheme res)
      \<Rightarrow> (conn \<Rightarrow> ('k, 'a) world_scheme \<Rightarrow> bool)
      \<Rightarrow> (Functor \<Rightarrow> ('k, 'a) world_scheme \<Rightarrow> ('k, 'a) world_scheme res) \<Rightarrow> loop \<Rightarrow> nat
      \<Rightarrow> ('k, 'a) world_scheme \<Rightarrow> ('k, 'a) world_scheme res" where
  "loop_turns K call alive exec l 0 w = Inr w"
| "loop_turns K call alive exec l (Suc n) w =
     rbind (EventLoop_turn K call alive exec l w) (loop_turns K call alive exec l n)"

lemma EventLoop_while_returns:
  assumes "loop_turns K call alive exec l n w = Inr w'" "quit_flag (loops w' l)"
  shows "\<exists>m w''. m \<le> n \<and> loop_turns K call alive exec l m w = Inr w'' \<and> quit_flag (loops w'' l) \<and>
    EventLoop_while K call alive exec l w = Some (Inr w'')"
  using assms
proof (induction n arbitrary: w)
  case 0
  then show ?case by (auto simp: EventLoop_while.simps)
next
  case (Suc n)
  show ?case
  proof (cases "quit_flag (loops w l)")
    case True
    then show ?thesis by (intro exI [of _ 0] exI [of _ w]) (simp add: EventLoop_while.simps)
  next
    case False
    obtain w1 where w1: "EventLoop_turn K call alive exec l w = Inr w1" "loop_turns K call alive exec l n w1 = Inr w'"
      using Suc.prems(1) by (auto simp: rbind_eq_Inr_iff)
    from Suc.IH [OF w1(2) Suc.prems(2)] obtain m w'' where "m \<le> n" "loop_turns K call alive exec l m w1 = Inr w''"
      "quit_flag (loops w'' l)" "EventLoop_while K call alive exec l w1 = Some (Inr w'')" by blast
    then show ?thesis
      using False w1(1) by (intro exI [of _ "Suc m"] exI [of _ w'']) (simp add: EventLoop_while.simps [of K call alive exec l w])
  qed
qed


section \<open>Properties\<close>

text \<open>
  C2. The functor queue is first-in first-out and loses nothing: in every state that the loop and
  any number of other threads can reach from a fresh loop, the functors queued so far are, in the
  order of their insertion, those already executed, then the rest of the batch being executed,
  then those pending.
\<close>

theorem functors_run_once_in_order:
  assumes "loop_fresh l s0" "loop_reach K l s0 s"
  shows "queued s = executed s @ batch_of (run_phase s) @ pendingFunctors (loops (run_world s) l)"
  using loop_reach_queue_inv [OF assms(2,1)] by (simp add: queue_inv_def)

definition sample_run :: "(ref_state, unit) loop_run" where
  "sample_run = \<lparr>run_world = sample_world, run_phase = Polling, signals = 0, queued = [], executed = []\<rparr>"

lemma sample_run_fresh: "loop_fresh 0 sample_run"
  by (simp add: loop_fresh_def sample_run_def sample_world_def sample_loop_def)

lemma sample_run_insert: "loop_reach ref_kernel 0 sample_run
    (sample_run\<lparr>run_world := queueInLoop_insert 0 (F_shutdownInLoop 1) sample_world, signals := 1,
       queued := [F_shutdownInLoop 1]\<rparr>)"
  using loop_next [OF loop_start foreign_insert [of ref_kernel 0 sample_run "F_shutdownInLoop 1"]]
  by (simp add: sample_run_def)

theorem functors_run_once_in_order_witness:
  "\<exists>s. loop_reach ref_kernel 0 sample_run s \<and> queued s = [F_shutdownInLoop 1] \<and>
     queued s = executed s @ batch_of (run_phase s) @ pendingFunctors (loops (run_world s) 0)"
  using functors_run_once_in_order [OF sample_run_fresh sample_run_insert] sample_run_insert by fastforce

text \<open>
  C3. No lost wake-up: whenever functors are pending and the loop is not already on its way to
  them (it is about to poll, or executing an earlier batch), the eventfd is readable, so that the
  next \<open>epoll_wait\<close> returns at once, or some thread is still between its insertion and its
  wake-up. This holds under every interleaving of the insertions and wake-ups of other threads with
  the loop's reads of the eventfd.
\<close>

theorem no_lost_wakeup:
  assumes "eventfd_kernel K evfds evcount" "loop_fresh l s0" "wakeupFd (loops (run_world s0) l) \<in> evfds"
    and "loop_reach K l s0 s" "run_phase s \<noteq> Handling" "pendingFunctors (loops (run_world s) l) \<noteq> []"
  shows "0 < signals s \<or> 0 < evcount (kern (run_world s)) (wakeupFd (loops (run_world s) l))"
  using eventfd_kernel.loop_reach_wake_inv [OF assms(1,4,2,3)] assms(5,6) by (simp add: wake_inv_def)

theorem no_lost_wakeup_witness:
  "\<exists>s. loop_reach ref_kernel 0 sample_run s \<and> pendingFunctors (loops (run_world s) 0) \<noteq> [] \<and>
     (0 < signals s \<or> 0 < rk_evcount (kern (run_world s)))"
proof -
  let ?s = "sample_run\<lparr>run_world := queueInLoop_insert 0 (F_shutdownInLoop 1) sample_world, signals := 1,
       queued := [F_shutdownInLoop 1]\<rparr>"
  have pend: "pendingFunctors (loops (run_world ?s) 0) \<noteq> []" "run_phase ?s \<noteq> Handling"
    by (simp_all add: queueInLoop_insert_def sample_run_def)
  have "wakeupFd (loops (run_world sample_run) 0) \<in> {5}"
    by (simp add: sample_run_def sample_world_def sample_loop_def)
  from no_lost_wakeup [OF rk_ev.eventfd_kernel_axioms sample_run_fresh this sample_run_insert pend(2,1)]
  show ?thesis using pend(1) sample_run_insert by blast
qed

text \<open>
  \<open>quit\<close> sets the flag, but wakes the loop only when it is called in the loop's own thread.
  Called from another thread, it makes no system call at all: a loop that waits in \<open>epoll_wait\<close>
  notices the request only when some other event arrives or the poll times out.
\<close>

theorem EventLoop_quit_effect:
  "quit_flag (loops (EventLoop_quit K tid l w) l) \<and>
   kern (EventLoop_quit K tid l w) =
     (if threadId (loops w l) = tid then kern (EventLoop_wakeup K l w) else kern w)"
  by (simp add: EventLoop_quit_def EventLoop_isInLoopThread_def EventLoop_wakeup_def split: prod.split)

text \<open>
  \<open>loop\<close> returns once the quit flag is set: if after some number of turns without failure the
  flag is set, the loop ends at the first such turn and clears \<open>looping_\<close>. A flag that was set
  before \<open>loop\<close> was called does not count, because \<open>loop\<close> resets it.
\<close>

theorem EventLoop_loop_returns:
  assumes "loop_turns K call alive exec l n (upd_loop l (\<lambda>p. p\<lparr>looping := True, quit_flag := False\<rparr>) w) = Inr w'"
    and "quit_flag (loops w' l)"
  shows "\<exists>m w''. 0 < m \<and> m \<le> n \<and> EventLoop_loop K call alive exec l w = Some (Inr w'') \<and> \<not> looping (loops w'' l) \<and>
    quit_flag (loops w'' l)"
proof -
  let ?w = "upd_loop l (\<lambda>p. p\<lparr>looping := True, quit_flag := False\<rparr>) w"
  obtain m v where m: "m \<le> n" "loop_turns K call alive exec l m ?w = Inr v" "quit_flag (loops v l)"
    "EventLoop_while K call alive exec l ?w = Some (Inr v)"
    using EventLoop_while_returns [OF assms] by blast
  then have "0 < m" by (cases m) auto
  then show ?thesis
    using m by (intro exI [of _ m] exI [of _ "upd_loop l (\<lambda>p. p\<lparr>looping := False\<rparr>) v"]) (simp add: EventLoop_loop_def)
qed

definition quitting :: "Functor \<Rightarrow> ref_state world \<Rightarrow> ref_state world res" where
  "quitting F w = Inr (EventLoop_quit ref_kernel 100 0 w)"

definition quit_world :: "ref_state world" where
  "quit_world = queueInLoop_insert 0 (F_shutdownInLoop 1) sample_world"

lemma quit_world_turn:
  "\<exists>w'. loop_turns ref_kernel (\<lambda>t h w. Inr w) (\<lambda>c w. True) quitting 0 1
     (upd_loop 0 (\<lambda>p. p\<lparr>looping := True, quit_flag := False\<rparr>) quit_world) = Inr w' \<and> quit_flag (loops w' 0)"
  by (simp add: EventLoop_turn_def EpollPoller_poll_def Timestamp_now_def quit_world_def sample_defs ref_defs
      EventLoop_doPendingFunctors_def queue_defs quitting_def EventLoop_quit_def size_t_def
      EventLoop_wakeup_def Let_def one_bytes_def)

theorem EventLoop_loop_returns_witness:
  "\<exists>w''. EventLoop_loop ref_kernel (\<lambda>t h w. Inr w) (\<lambda>c w. True) quitting 0 quit_world = Some (Inr w'') \<and>
     \<not> looping (loops w'' 0)"
  using quit_world_turn EventLoop_loop_returns [of ref_kernel "\<lambda>t h w. Inr w" "\<lambda>c w. True" quitting 0 1 quit_world]
  by blast

end
