(* ===== verification/Net_TcpConnection.thy ===== *)
theory Net_TcpConnection
  imports Net_EventLoop
begin

text \<open>
  A TCP connection (\<open>src/net/TcpConnection.h\<close>, \<open>src/net/TcpConnection.cc\<close>) and the socket
  wrapper it owns (\<open>src/net/Socket.h\<close>, \<open>src/net/socket.cc\<close>). The user's callbacks are the
  fields of a record \<open>U\<close> of functions on the world; a connection records which of its
  \<open>std::function\<close> members are set. Calling an empty one is a failure, as in C++.
\<close>

section \<open>Socket\<close>

definition Socket_shutdownWrite ::
    "'k kernel \<Rightarrow> fd \<Rightarrow> ('k, 'a) world_scheme \<Rightarrow> ('k, 'a) world_scheme" where
  "Socket_shutdownWrite K f w =
     (case sys_shutdown_wr K f (kern w) of (ret, k') \<Rightarrow>
        if ret < 0 then log_error ''shutdownWrite error'' (w\<lparr>kern := k'\<rparr>) else w\<lparr>kern := k'\<rparr>)"

definition Socket_setTcpNoDelay ::
    "'k kernel \<Rightarrow> fd \<Rightarrow> bool \<Rightarrow> ('k, 'a) world_scheme \<Rightarrow> ('k, 'a) world_scheme" where
  "Socket_setTcpNoDelay K f on w =
     w\<lparr>kern := sys_setsockopt K f TCP_NODELAY (if on then 1 else 0) (kern w)\<rparr>"

definition Socket_setReuseAddr ::
    "'k kernel \<Rightarrow> fd \<Rightarrow> bool \<Rightarrow> ('k, 'a) world_scheme \<Rightarrow> ('k, 'a) world_scheme" where
  "Socket_setReuseAddr K f on w =
     w\<lparr>kern := sys_setsockopt K f SO_REUSEADDR (if on then 1 else 0) (kern w)\<rparr>"

definition Socket_setReusePort ::
    "'k kernel \<Rightarrow> fd \<Rightarrow> bool \<Rightarrow> ('k, 'a) world_scheme \<Rightarrow> ('k, 'a) world_scheme" where
  "Socket_setReusePort K f on w =
     w\<lparr>kern := sys_setsockopt K f SO_REUSEPORT (if on then 1 else 0) (kern w)\<rparr>"

definition Socket_setKeepAlive ::
    "'k kernel \<Rightarrow> fd \<Rightarrow> bool \<Rightarrow> ('k, 'a) world_scheme \<Rightarrow> ('k, 'a) world_scheme" where
  "Socket_setKeepAlive K f on w =
     w\<lparr>kern := sys_setsockopt K f SO_KEEPALIVE (if on then 1 else 0) (kern w)\<rparr>"

definition Socket_bindAddress ::
    "'k kernel \<Rightarrow> fd \<Rightarrow> sockaddr_in \<Rightarrow> ('k, 'a) world_scheme \<Rightarrow> ('k, 'a) world_scheme res" where
  "Socket_bindAddress K f addr w =
     (case sys_bind K f addr (kern w) of (ret, k') \<Rightarrow>
        if ret \<noteq> 0 then Inl Aborted else Inr (w\<lparr>kern := k'\<rparr>))"

definition Socket_listen ::
    "'k kernel \<Rightarrow> fd \<Rightarrow> ('k, 'a) world_scheme \<Rightarrow> ('k, 'a) world_scheme res" where
  "Socket_listen K f w =
     (case sys_listen K f (kern w) of (ret, k') \<Rightarrow>
        if ret \<noteq> 0 then Inl Aborted else Inr (w\<lparr>kern := k'\<rparr>))"

text \<open>
  \<open>accept\<close>: the descriptor (or \<open>-1\<close>), the error number, the peer address when it was set.
\<close>

definition Socket_accept ::
    "'k kernel \<Rightarrow> fd \<Rightarrow> ('k, 'a) world_scheme
      \<Rightarrow> fd \<times> errno \<times> sockaddr_in option \<times> ('k, 'a) world_scheme" where
  "Socket_accept K f w =
     (case sys_accept4 K f (kern w) of
        (Inr (connfd, addr), k') \<Rightarrow>
          if connfd \<ge> 0 then (connfd, 0, Some addr, w\<lparr>kern := k'\<rparr>)
          else (connfd, 0, None, log_error ''accept4() failed'' (w\<lparr>kern := k'\<rparr>))
      | (Inl e, k') \<Rightarrow> (-1, e, None, log_error ''accept4() failed'' (w\<lparr>kern := k'\<rparr>)))"

definition Socket_dtor :: "'k kernel \<Rightarrow> fd \<Rightarrow> ('k, 'a) world_scheme \<Rightarrow> ('k, 'a) world_scheme" where
  "Socket_dtor K f w = w\<lparr>kern := sys_close K f (kern w)\<rparr>"


section \<open>Construction\<close>

record 'w callbacks =
  connectionCallback :: "conn \<Rightarrow> 'w \<Rightarrow> 'w res"
  messageCallback :: "conn \<Rightarrow> int \<Rightarrow> 'w \<Rightarrow> 'w res"
  closeCallback :: "conn \<Rightarrow> 'w \<Rightarrow> 'w res"

definition default_highWaterMark :: nat where
  "default_highWaterMark = 64 * 1024 * 1024"

definition CheckLoopNotNull :: "loop option \<Rightarrow> loop res" where
  "CheckLoopNotNull lp = (case lp of None \<Rightarrow> Inl Aborted | Some l \<Rightarrow> Inr l)"

text \<open>The connection is placed at address \<open>c\<close>, its channel at address \<open>ch\<close>.\<close>

definition TcpConnection_ctor ::
    "'k kernel \<Rightarrow> loop option \<Rightarrow> bytes \<Rightarrow> fd \<Rightarrow> sockaddr_in \<Rightarrow> sockaddr_in \<Rightarrow> conn \<Rightarrow> chan
      \<Rightarrow> ('k, 'a) world_scheme \<Rightarrow> ('k, 'a) world_scheme res" where
  "TcpConnection_ctor K lp nameArg sockfd localAddr peerAddr c ch w =
     rbind (CheckLoopNotNull lp) (\<lambda>l.
     rbind (Buffer_ctor InitialSize) (\<lambda>b.
       Inr (Socket_setKeepAlive K sockfd True
         (w\<lparr>chans := (chans w)(ch :=
               Channel_setErrorCallback (H_TcpConnection_handleError c)
                (Channel_setCloseCallback (H_TcpConnection_handleClose c)
                (Channel_setWriteCallback (H_TcpConnection_handleWrite c)
                (Channel_setReadCallback (H_TcpConnection_handleRead c) (Channel_ctor l sockfd))))),
            conns := (conns w)(c := \<lparr>conn_loop = l, conn_name = nameArg, conn_state = kConnecting,
                conn_reading = True, conn_sockfd = sockfd, conn_channel = ch,
                conn_localAddr = localAddr, conn_peerAddr = peerAddr,
                conn_hasConnectionCallback = False, conn_hasMessageCallback = False,
                conn_hasWriteCompleteCallback = False, conn_hasCloseCallback = False,
                conn_hasHighWaterMarkCallback = False, conn_highWaterMark = default_highWaterMark,
                conn_inputBuffer = b, conn_outputBuffer = b\<rparr>)\<rparr>))))"

definition TcpConnection_dtor ::
    "'k kernel \<Rightarrow> conn \<Rightarrow> ('k, 'a) world_scheme \<Rightarrow> ('k, 'a) world_scheme" where
  "TcpConnection_dtor K c w = Socket_dtor K (conn_sockfd (conns w c)) w"

definition TcpConnection_setHighWaterMarkCallback :: "nat \<Rightarrow> tcp_connection \<Rightarrow> tcp_connection" where
  "TcpConnection_setHighWaterMarkCallback mark cn =
     cn\<lparr>conn_hasHighWaterMarkCallback := True, conn_highWaterMark := mark\<rparr>"

definition TcpConnection_connected :: "conn \<Rightarrow> ('k, 'a) world_scheme \<Rightarrow> bool" where
  "TcpConnection_connected c w \<longleftrightarrow> conn_state (conns w c) = kConnected"

definition TcpConnection_setState :: "StateE \<Rightarrow> conn \<Rightarrow> ('k, 'a) world_scheme \<Rightarrow> ('k, 'a) world_scheme" where
  "TcpConnection_setState st c w = upd_conn c (\<lambda>cn. cn\<lparr>conn_state := st\<rparr>) w"

definition call_connection ::
    "('k, 'a) world_scheme callbacks \<Rightarrow> conn \<Rightarrow> ('k, 'a) world_scheme \<Rightarrow> ('k, 'a) world_scheme res" where
  "call_connection U c w =
     (if conn_hasConnectionCallback (conns w c) then connectionCallback U c w else Inl BadFunctionCall)"

definition call_message ::
    "('k, 'a) world_scheme callbacks \<Rightarrow> conn \<Rightarrow> int \<Rightarrow> ('k, 'a) world_scheme \<Rightarrow> ('k, 'a) world_scheme res" where
  "call_message U c t w =
     (if conn_hasMessageCallback (conns w c) then messageCallback U c t w else Inl BadFunctionCall)"

definition call_close ::
    "('k, 'a) world_scheme callbacks \<Rightarrow> conn \<Rightarrow> ('k, 'a) world_scheme \<Rightarrow> ('k, 'a) world_scheme res" where
  "call_close U c w =
     (if conn_hasCloseCallback (conns w c) then closeCallback U c w else Inl BadFunctionCall)"


section \<open>Sending\<close>

abbreviation chan_of :: "conn \<Rightarrow> ('k, 'a) world_scheme \<Rightarrow> channel" where
  "chan_of c w \<equiv> chans w (conn_channel (conns w c))"

text \<open>
  The first half of \<open>sendInLoop\<close>: the direct write. It yields \<open>nwrote\<close>, \<open>remaining\<close>,
  \<open>faultError\<close> and the world. A write to a connection whose peer is gone fails with \<open>EPIPE\<close>; the signal \<open>SIGPIPE\<close> that comes with it is not modelled.
\<close>

definition sendInLoop_write ::
    "'k kernel \<Rightarrow> int \<Rightarrow> conn \<Rightarrow> bytes \<Rightarrow> ('k, 'a) world_scheme
      \<Rightarrow> nat \<times> nat \<times> bool \<times> ('k, 'a) world_scheme" where
  "sendInLoop_write K tid c data w =
     (if \<not> Channel_isWriting (chan_of c w) \<and> Buffer_readableBytes (conn_outputBuffer (conns w c)) = 0
      then (case sys_write K (ch_fd (chan_of c w)) data (kern w) of
              (Inr n, k') \<Rightarrow>
                (let remaining = size_t (int (length data) - int n);
                     w1 = w\<lparr>kern := k'\<rparr>
                 in (n, remaining, False,
                     if remaining = 0 \<and> conn_hasWriteCompleteCallback (conns w c)
                     then EventLoop_queueInLoop K tid (conn_loop (conns w c)) (F_writeComplete c) w1
                     else w1))
            | (Inl e, k') \<Rightarrow>
                (let w1 = w\<lparr>kern := k'\<rparr>
                 in if e \<noteq> EWOULDBLOCK
                    then (0, length data, e = EPIPE \<or> e = ECONNRESET,
                          log_error ''TcpConnection::sendInLoop'' w1)
                    else (0, length data, False, w1)))
      else (0, length data, False, w))"

text \<open>
  The second half: what was not written goes to the output buffer, after the high-water mark has
  been tested.
\<close>

definition sendInLoop_mark ::
    "'k kernel \<Rightarrow> int \<Rightarrow> conn \<Rightarrow> nat \<Rightarrow> ('k, 'a) world_scheme \<Rightarrow> ('k, 'a) world_scheme" where
  "sendInLoop_mark K tid c remaining w =
     (let cn = conns w c;
          oldLen = Buffer_readableBytes (conn_outputBuffer cn);
          total = size_t (int oldLen + int remaining)
      in if total \<ge> conn_highWaterMark cn \<and> oldLen < conn_highWaterMark cn
            \<and> conn_hasHighWaterMarkCallback cn
         then EventLoop_queueInLoop K tid (conn_loop cn) (F_highWaterMark c total) w
         else w)"

definition sendInLoop_store ::
    "'k kernel \<Rightarrow> int \<Rightarrow> conn \<Rightarrow> bytes \<Rightarrow> ('k, 'a) world_scheme \<Rightarrow> ('k, 'a) world_scheme res" where
  "sendInLoop_store K tid c rest w =
     (let w1 = sendInLoop_mark K tid c (length rest) w
      in rbind (Buffer_append rest (conn_outputBuffer (conns w1 c))) (\<lambda>b.
           let w2 = upd_conn c (\<lambda>cn. cn\<lparr>conn_outputBuffer := b\<rparr>) w1
           in if \<not> Channel_isWriting (chan_of c w2)
              then Channel_enableWriting K (conn_channel (conns w2 c)) w2
              else Inr w2))"

definition TcpConnection_sendInLoop ::
    "'k kernel \<Rightarrow> int \<Rightarrow> conn \<Rightarrow> bytes \<Rightarrow> ('k, 'a) world_scheme \<Rightarrow> ('k, 'a) world_scheme res" where
  "TcpConnection_sendInLoop K tid c data w =
     (if conn_state (conns w c) = kDisconnected
      then Inr (log_error ''disconnected, give up writing'' w)
      else (case sendInLoop_write K tid c data w of (nwrote, remaining, faultError, w1) \<Rightarrow>
              if \<not> faultError \<and> remaining > 0
              then sendInLoop_store K tid c (take remaining (drop nwrote data)) w1
              else Inr w1))"

text \<open>
  \<open>send (const std::string &)\<close>: the argument is the address \<open>p\<close> of the string. In another
  thread the functor binds the pointer \<open>c_str()\<close> and the size; the characters are read when the
  functor runs (\<open>sendInLoop_ptr\<close>), and the string must still exist then.
\<close>

definition sendInLoop_ptr ::
    "'k kernel \<Rightarrow> int \<Rightarrow> conn \<Rightarrow> nat \<Rightarrow> nat \<Rightarrow> ('k, 'a) world_scheme \<Rightarrow> ('k, 'a) world_scheme res" where
  "sendInLoop_ptr K tid c p len w =
     (case strings w p of
        None \<Rightarrow> Inl OutOfBounds
      | Some s \<Rightarrow> if len \<le> length s then TcpConnection_sendInLoop K tid c (take len s) w
                 else Inl OutOfBounds)"

definition TcpConnection_send ::
    "'k kernel \<Rightarrow> int \<Rightarrow> conn \<Rightarrow> nat \<Rightarrow> ('k, 'a) world_scheme \<Rightarrow> ('k, 'a) world_scheme res" where
  "TcpConnection_send K tid c p w =
     (if conn_state (conns w c) = kConnected
      then (case strings w p of
              None \<Rightarrow> Inl OutOfBounds
            | Some s \<Rightarrow>
                EventLoop_runInLoop K tid (conn_loop (conns w c)) (F_sendInLoop_ptr c p (length s))
                  (sendInLoop_ptr K tid c p (length s)) w)
      else Inr w)"

definition TcpConnection_sendBuffer ::
    "'k kernel \<Rightarrow> int \<Rightarrow> conn \<Rightarrow> buffer \<Rightarrow> ('k, 'a) world_scheme \<Rightarrow> (buffer \<times> ('k, 'a) world_scheme) res" where
  "TcpConnection_sendBuffer K tid c buf w =
     (if conn_state (conns w c) = kConnected
      then (if EventLoop_isInLoopThread tid (conn_loop (conns w c)) w
            then rbind (string_at buf (Buffer_peek buf) (Buffer_readableBytes buf)) (\<lambda>s.
                 rbind (TcpConnection_sendInLoop K tid c s w) (\<lambda>w1.
                   Inr (Buffer_retrieveAll buf, w1)))
            else rbind (Buffer_retrieveAllAsString buf) (\<lambda>(s, buf').
                   rbind (EventLoop_runInLoop K tid (conn_loop (conns w c)) (F_sendInLoop_str c s)
                            (TcpConnection_sendInLoop K tid c s) w) (\<lambda>w1. Inr (buf', w1))))
      else Inr (buf, w))"


section \<open>Closing and event handlers\<close>

definition TcpConnection_shutdownInLoop ::
    "'k kernel \<Rightarrow> conn \<Rightarrow> ('k, 'a) world_scheme \<Rightarrow> ('k, 'a) world_scheme res" where
  "TcpConnection_shutdownInLoop K c w =
     (if \<not> Channel_isWriting (chan_of c w)
      then Inr (Socket_shutdownWrite K (conn_sockfd (conns w c)) w) else Inr w)"

text \<open>
  \<open>shutdown\<close> tests the state and sets it in two steps: \<open>shutdown_mark\<close> is what follows a test that succeeded.
  \<open>TcpConnection_shutdown\<close> is the call without interference between the two; \<open>Net_ConnState\<close> lets other threads act between them.
\<close>

definition shutdown_mark ::
    "'k kernel \<Rightarrow> int \<Rightarrow> conn \<Rightarrow> ('k, 'a) world_scheme \<Rightarrow> ('k, 'a) world_scheme res" where
  "shutdown_mark K tid c w =
     (let w1 = TcpConnection_setState kDisconnecting c w
      in EventLoop_runInLoop K tid (conn_loop (conns w1 c)) (F_shutdownInLoop c)
           (TcpConnection_shutdownInLoop K c) w1)"

definition TcpConnection_shutdown ::
    "'k kernel \<Rightarrow> int \<Rightarrow> conn \<Rightarrow> ('k, 'a) world_scheme \<Rightarrow> ('k, 'a) world_scheme res" where
  "TcpConnection_shutdown K tid c w =
     (if conn_state (conns w c) = kConnected then shutdown_mark K tid c w else Inr w)"

definition TcpConnection_connectEstablished ::
    "'k kernel \<Rightarrow> ('k, 'a) world_scheme callbacks \<Rightarrow> conn \<Rightarrow> ('k, 'a) world_scheme \<Rightarrow> ('k, 'a) world_scheme res" where
  "TcpConnection_connectEstablished K U c w =
     (let w1 = TcpConnection_setState kConnected c w;
          w2 = upd_chan (conn_channel (conns w1 c)) (Channel_tie c) w1
      in rbind (Channel_enableReading K (conn_channel (conns w2 c)) w2) (call_connection U c))"

definition TcpConnection_connectDestroyed ::
    "'k kernel \<Rightarrow> ('k, 'a) world_scheme callbacks \<Rightarrow> conn \<Rightarrow> ('k, 'a) world_scheme \<Rightarrow> ('k, 'a) world_scheme res" where
  "TcpConnection_connectDestroyed K U c w =
     rbind (if conn_state (conns w c) = kConnected
            then rbind (Channel_disableAll K (conn_channel (conns w c)) (TcpConnection_setState kDisconnected c w))
                   (call_connection U c)
            else Inr w)
       (\<lambda>w1. Channel_remove K (conn_channel (conns w1 c)) w1)"

definition TcpConnection_handleClose ::
    "'k kernel \<Rightarrow> ('k, 'a) world_scheme callbacks \<Rightarrow> conn \<Rightarrow> ('k, 'a) world_scheme \<Rightarrow> ('k, 'a) world_scheme res" where
  "TcpConnection_handleClose K U c w =
     rbind (Channel_disableAll K (conn_channel (conns w c)) (TcpConnection_setState kDisconnected c w)) (\<lambda>w1.
     rbind (call_connection U c w1) (call_close U c))"

definition TcpConnection_handleError ::
    "'k kernel \<Rightarrow> conn \<Rightarrow> ('k, 'a) world_scheme \<Rightarrow> ('k, 'a) world_scheme res" where
  "TcpConnection_handleError K c w =
     (case sys_so_error K (ch_fd (chan_of c w)) (kern w) of (out, k') \<Rightarrow>
        (let err = (case out of Inl e \<Rightarrow> e | Inr optval \<Rightarrow> optval)
         in Inr (log_error (''cpConnection::handleError name:'' @ c_str (conn_name (conns w c))
                   @ '' - SO_ERROR:'' @ show_int err) (w\<lparr>kern := k'\<rparr>))))"

definition TcpConnection_handleRead ::
    "'k kernel \<Rightarrow> ('k, 'a) world_scheme callbacks \<Rightarrow> conn \<Rightarrow> int \<Rightarrow> ('k, 'a) world_scheme \<Rightarrow> ('k, 'a) world_scheme res" where
  "TcpConnection_handleRead K U c receiveTime w =
     (let b = conn_inputBuffer (conns w c)
      in case sys_read K (ch_fd (chan_of c w)) (readv_capacity b) (kern w) of (out, k') \<Rightarrow>
           rbind (Buffer_readFd out b) (\<lambda>(n, savedErrno, b').
             let w1 = upd_conn c (\<lambda>cn. cn\<lparr>conn_inputBuffer := b'\<rparr>) (w\<lparr>kern := k'\<rparr>)
             in if n > 0 then call_message U c receiveTime w1
                else if n = 0 then TcpConnection_handleClose K U c w1
                else TcpConnection_handleError K c (log_error ''TcpConnection::handleRead() failed'' w1)))"

text \<open>\<open>handleWrite\<close>, and the part of it that runs when the output buffer has drained.\<close>

definition handleWrite_done ::
    "'k kernel \<Rightarrow> int \<Rightarrow> conn \<Rightarrow> ('k, 'a) world_scheme \<Rightarrow> ('k, 'a) world_scheme res" where
  "handleWrite_done K tid c w1 =
     rbind (Channel_disableWriting K (conn_channel (conns w1 c)) w1) (\<lambda>w2.
       let w3 = (if conn_hasWriteCompleteCallback (conns w2 c)
                 then EventLoop_queueInLoop K tid (conn_loop (conns w2 c)) (F_writeComplete c) w2 else w2)
       in if conn_state (conns w3 c) = kDisconnecting
          then TcpConnection_shutdownInLoop K c w3 else Inr w3)"

definition TcpConnection_handleWrite ::
    "'k kernel \<Rightarrow> int \<Rightarrow> conn \<Rightarrow> ('k, 'a) world_scheme \<Rightarrow> ('k, 'a) world_scheme res" where
  "TcpConnection_handleWrite K tid c w =
     (if Channel_isWriting (chan_of c w)
      then (let b = conn_outputBuffer (conns w c)
            in rbind (string_at b (Buffer_peek b) (Buffer_readableBytes b)) (\<lambda>s.
               case sys_write K (ch_fd (chan_of c w)) s (kern w) of (out, k') \<Rightarrow>
               rbind (Buffer_writeFd out b) (\<lambda>(n, saveErrno, taken).
                 let w0 = w\<lparr>kern := k'\<rparr>
                 in if n > 0
                    then (let b' = Buffer_retrieve (int32 n) b;
                              w1 = upd_conn c (\<lambda>cn. cn\<lparr>conn_outputBuffer := b'\<rparr>) w0
                          in if Buffer_readableBytes b' = 0 then handleWrite_done K tid c w1
                             else Inr w1)
                    else Inr (log_error ''TcpConnection::handleWrite() failed'' w0))))
      else Inr (log_error ''TcpConnection is down, no more writing'' w))"

section \<open>Frames\<close>

text \<open>What queueing a functor and updating a channel leave alone, as a connection sees it.\<close>

lemma queueInLoop_frame [simp]:
  "conns (EventLoop_queueInLoop K tid l F w) = conns w"
  "chans (EventLoop_queueInLoop K tid l F w) = chans w"
  "strings (EventLoop_queueInLoop K tid l F w) = strings w"
  "wakeupFd (loops (EventLoop_queueInLoop K tid l F w) l') = wakeupFd (loops w l')"
  "epollfd (loops (EventLoop_queueInLoop K tid l F w) l') = epollfd (loops w l')"
  "poller_channels (loops (EventLoop_queueInLoop K tid l F w) l') = poller_channels (loops w l')"
  by (simp_all add: queue_defs)

definition chan_same :: "chan \<Rightarrow> ('k, 'a) world_scheme \<Rightarrow> ('k, 'a) world_scheme \<Rightarrow> bool" where
  "chan_same d w w' \<longleftrightarrow> ch_events (chans w' d) = ch_events (chans w d) \<and> ch_fd (chans w' d) = ch_fd (chans w d) \<and>
     ch_loop (chans w' d) = ch_loop (chans w d) \<and> ch_tie (chans w' d) = ch_tie (chans w d)"

lemma Channel_update_frame:
  assumes "Channel_update K ch w = Inr w'"
  shows "conns w' = conns w" "chan_same d w w'" "wakeupFd (loops w' l) = wakeupFd (loops w l)"
  using assms
  by (auto simp: Channel_update_def EventLoop_updateChannel_def EpollPoller_updateChannel_def chan_same_def
      Let_def rbind_eq_Inr_iff elim!: EpollPoller_update_cases split: if_splits)

lemma Channel_update_fails: "Channel_update K ch w = Inl e \<Longrightarrow> e = Aborted"
  by (auto simp: Channel_update_def EventLoop_updateChannel_def EpollPoller_updateChannel_def
      EpollPoller_update_def Let_def rbind_eq_Inl_iff split: if_splits prod.splits)

context net_kernel
begin

lemma queueInLoop_sent:
  "f \<noteq> wakeupFd (loops w l) \<Longrightarrow> sent (kern (EventLoop_queueInLoop K tid l F w)) f = sent (kern w) f"
  by (auto simp: queue_defs EventLoop_wakeup_def split: prod.split dest: write_other)

lemma Channel_update_sent: "Channel_update K ch w = Inr w' \<Longrightarrow> sent (kern w') = sent (kern w)"
  by (auto simp: Channel_update_def EventLoop_updateChannel_def EpollPoller_updateChannel_def
      Let_def rbind_eq_Inr_iff elim!: EpollPoller_update_cases split: if_splits dest: ctl_sent)

end

section \<open>The output stream of a connection\<close>

text \<open>
  \<open>conn_stream\<close> is what the peer has been or will be sent: the bytes the kernel has accepted on
  the descriptor, followed by the bytes in the output buffer. \<open>conn_ok\<close> is the invariant of a
  connection; its last part says that no byte is stranded in the output buffer: while the
  connection is not closed, a non-empty output buffer waits for a write event.
\<close>

definition conn_stream :: "('k \<Rightarrow> fd \<Rightarrow> bytes) \<Rightarrow> conn \<Rightarrow> ('k, 'a) world_scheme \<Rightarrow> bytes" where
  "conn_stream sent c w = sent (kern w) (ch_fd (chan_of c w)) @ Buffer_abs (conn_outputBuffer (conns w c))"

definition conn_ok :: "conn \<Rightarrow> ('k, 'a) world_scheme \<Rightarrow> bool" where
  "conn_ok c w \<longleftrightarrow> Buffer_inv (conn_outputBuffer (conns w c)) \<and>
     ch_fd (chan_of c w) \<noteq> wakeupFd (loops w (conn_loop (conns w c))) \<and>
     (conn_state (conns w c) \<noteq> kDisconnected \<longrightarrow> Buffer_abs (conn_outputBuffer (conns w c)) \<noteq> [] \<longrightarrow>
        Channel_isWriting (chan_of c w))"

text \<open>Bytes the output buffer may still take so that every length fits an \<open>int\<close>.\<close>

definition conn_room :: "nat \<Rightarrow> conn \<Rightarrow> ('k, 'a) world_scheme \<Rightarrow> bool" where
  "conn_room n c w \<longleftrightarrow> Buffer_size (conn_outputBuffer (conns w c)) + n \<le> Buffer_chunk"

lemma conn_room_room: "conn_room n c w \<Longrightarrow> m \<le> n \<Longrightarrow> Buffer_room m (conn_outputBuffer (conns w c))"
  by (rule Buffer_roomI) (auto simp: conn_room_def Buffer_chunk_def limit_defs InitialPrependSize_def)

text \<open>What the events of a connection do to its stream: \<open>conn_effect\<close> relates two worlds.\<close>

definition conn_effect ::
    "('k \<Rightarrow> fd \<Rightarrow> bytes) \<Rightarrow> conn \<Rightarrow> nat \<Rightarrow> bytes \<Rightarrow> ('k, 'a) world_scheme \<Rightarrow> ('k, 'a) world_scheme \<Rightarrow> bool" where
  "conn_effect sent c n new w w' \<longleftrightarrow> conn_ok c w' \<and> conn_stream sent c w' = conn_stream sent c w @ new \<and>
     Buffer_size (conn_outputBuffer (conns w' c)) \<le> Buffer_size (conn_outputBuffer (conns w c)) + n \<and>
     conn_state (conns w' c) = conn_state (conns w c)"

lemma isWriting_enabled [simp]: "ch_events ch = e OR kWriteEvent \<Longrightarrow> Channel_isWriting ch"
  using enable_write_bit by (simp add: Channel_isWriting_def)

context net_kernel
begin

lemma sendInLoop_store_effect:
  assumes ok: "Buffer_inv (conn_outputBuffer (conns w c))"
      "ch_fd (chan_of c w) \<noteq> wakeupFd (loops w (conn_loop (conns w c)))"
    and room: "conn_room (length rest) c w"
  shows "case sendInLoop_store K tid c rest w of
      Inl e \<Rightarrow> e = Aborted
    | Inr w' \<Rightarrow> conn_effect sent c (length rest) rest w w'"
proof -
  define w1 where "w1 = sendInLoop_mark K tid c (length rest) w"
  have w1: "conns w1 = conns w" "chans w1 = chans w" "\<And>l. wakeupFd (loops w1 l) = wakeupFd (loops w l)"
    "sent (kern w1) (ch_fd (chan_of c w)) = sent (kern w) (ch_fd (chan_of c w))"
    using ok(2) by (simp_all add: w1_def sendInLoop_mark_def Let_def queueInLoop_sent)
  obtain b where b: "Buffer_append rest (conn_outputBuffer (conns w c)) = Inr b" "Buffer_inv b"
    "Buffer_abs b = Buffer_abs (conn_outputBuffer (conns w c)) @ rest"
    "Buffer_size b \<le> Buffer_size (conn_outputBuffer (conns w c)) + length rest"
    using Buffer_append_ok [OF ok(1) conn_room_room [OF room order_refl]] by metis
  define w2 where "w2 = upd_conn c (\<lambda>cn. cn\<lparr>conn_outputBuffer := b\<rparr>) w1"
  have run: "sendInLoop_store K tid c rest w = (if \<not> Channel_isWriting (chan_of c w2)
      then Channel_enableWriting K (conn_channel (conns w2 c)) w2 else Inr w2)"
    using b(1) w1(1) by (simp add: sendInLoop_store_def Let_def w2_def flip: w1_def)
  show ?thesis
  proof (cases "Channel_isWriting (chan_of c w2)")
    case True
    then show ?thesis
      using run w1 b ok(2)
      by (simp add: conn_effect_def conn_ok_def conn_stream_def w2_def)
  next
    case False
    show ?thesis
    proof (cases "sendInLoop_store K tid c rest w")
      case (Inl e)
      then show ?thesis using False run Channel_update_fails by (simp add: Channel_enableWriting_def)
    next
      case (Inr w')
      then have up: "Channel_update K (conn_channel (conns w2 c)) (upd_chan (conn_channel (conns w2 c))
          (\<lambda>ch. ch\<lparr>ch_events := ch_events ch OR kWriteEvent\<rparr>) w2) = Inr w'"
        using False run by (simp add: Channel_enableWriting_def)
      note fr = Channel_update_frame [OF up] Channel_update_sent [OF up]
      show ?thesis
        using Inr fr(1,3,4) fr(2) [of "conn_channel (conns w c)"] w1 b ok(2)
        by (simp add: conn_effect_def conn_ok_def conn_stream_def w2_def chan_same_def)
    qed
  qed
qed

end

text \<open>
  What a call of \<open>sendInLoop\<close> takes over: nothing on a closed connection and nothing when the
  direct write reports a broken connection, otherwise all of the data.
\<close>

definition send_taken :: "'k kernel \<Rightarrow> int \<Rightarrow> conn \<Rightarrow> bytes \<Rightarrow> ('k, 'a) world_scheme \<Rightarrow> bytes" where
  "send_taken K tid c data w =
     (if conn_state (conns w c) = kDisconnected then []
      else (case sendInLoop_write K tid c data w of (nwrote, remaining, faultError, w1) \<Rightarrow>
              if faultError then [] else data))"

text \<open>The direct write: either it is not made, or the output buffer is empty and it takes a prefix.\<close>


context net_kernel
begin

lemma sendInLoop_write_effect:
  assumes ok: "conn_ok c w" and len: "length data < 2 ^ 63"
    and wr: "sendInLoop_write K tid c data w = (nwrote, remaining, faultError, w1)"
  shows "conns w1 = conns w" "chans w1 = chans w" "wakeupFd (loops w1 l) = wakeupFd (loops w l)"
    "sent (kern w1) (ch_fd (chan_of c w)) = sent (kern w) (ch_fd (chan_of c w)) @ take nwrote data"
    "nwrote \<le> length data" "remaining = length data - nwrote"
    "0 < nwrote \<longrightarrow> Buffer_abs (conn_outputBuffer (conns w c)) = []"
    "faultError \<longrightarrow> nwrote = 0"
proof -
  let ?f = "ch_fd (chan_of c w)" and ?b = "conn_outputBuffer (conns w c)"
  have inv: "Buffer_inv ?b" and wake: "?f \<noteq> wakeupFd (loops w (conn_loop (conns w c)))"
    using ok by (auto simp: conn_ok_def)
  have *: "conns w1 = conns w \<and> chans w1 = chans w \<and> wakeupFd (loops w1 l) = wakeupFd (loops w l) \<and>
    sent (kern w1) ?f = sent (kern w) ?f @ take nwrote data \<and> nwrote \<le> length data \<and>
    remaining = length data - nwrote \<and> (0 < nwrote \<longrightarrow> Buffer_abs ?b = []) \<and> (faultError \<longrightarrow> nwrote = 0)"
  proof (cases "\<not> Channel_isWriting (chan_of c w) \<and> Buffer_readableBytes ?b = 0")
    case False
    then show ?thesis using wr by (auto simp: sendInLoop_write_def)
  next
    case True
    obtain out k' where out: "sys_write K ?f data (kern w) = (out, k')" by fastforce
    have empty: "Buffer_abs ?b = []" using True inv by (simp add: Buffer_readableBytes_abs)
    show ?thesis
    proof (cases out)
      case (Inl e)
      then show ?thesis
        using wr True out write_fail [of ?f data "kern w" e k']
        by (auto simp: sendInLoop_write_def Let_def split: if_splits)
    next
      case (Inr n)
      have n: "n \<le> length data" "sent k' ?f = sent (kern w) ?f @ take n data"
        using write_ok out Inr by auto
      then have "size_t (int (length data) - int n) = length data - n"
        using len by (intro size_t_diff) auto
      then show ?thesis
        using wr True out Inr n empty wake
        by (auto simp: sendInLoop_write_def Let_def queueInLoop_sent split: if_splits)
    qed
  qed
  then show "conns w1 = conns w" "chans w1 = chans w" "wakeupFd (loops w1 l) = wakeupFd (loops w l)"
    "sent (kern w1) ?f = sent (kern w) ?f @ take nwrote data" "nwrote \<le> length data"
    "remaining = length data - nwrote" "0 < nwrote \<longrightarrow> Buffer_abs ?b = []" "faultError \<longrightarrow> nwrote = 0"
    by blast+
qed

lemma sendInLoop_effect:
  assumes ok: "conn_ok c w" and room: "conn_room (length data) c w"
  shows "case TcpConnection_sendInLoop K tid c data w of
      Inl e \<Rightarrow> e = Aborted
    | Inr w' \<Rightarrow> conn_effect sent c (length data) (send_taken K tid c data w) w w'"
proof (cases "conn_state (conns w c) = kDisconnected")
  case True
  then show ?thesis
    using ok by (simp add: TcpConnection_sendInLoop_def send_taken_def conn_effect_def conn_ok_def conn_stream_def)
next
  case False
  obtain nwrote remaining faultError w1 where wr:
    "sendInLoop_write K tid c data w = (nwrote, remaining, faultError, w1)" by (metis prod.exhaust)
  have "length data < 2 ^ 63" using room by (simp add: conn_room_def Buffer_chunk_def limit_defs InitialPrependSize_def)
  note eff = sendInLoop_write_effect [OF ok this wr]
  show ?thesis
  proof (cases "\<not> faultError \<and> remaining > 0")
    case False
    then have "take nwrote data = (if faultError then [] else data)" using eff(6,8) by auto
    then show ?thesis
      using False \<open>conn_state (conns w c) \<noteq> kDisconnected\<close> wr eff ok
      by (auto simp: TcpConnection_sendInLoop_def send_taken_def conn_effect_def conn_ok_def conn_stream_def
          split: if_splits)
  next
    case True
    let ?rest = "take remaining (drop nwrote data)"
    have rest: "?rest = drop nwrote data" using eff(6) by simp
    have run: "TcpConnection_sendInLoop K tid c data w = sendInLoop_store K tid c (drop nwrote data) w1"
      using True False wr rest by (simp add: TcpConnection_sendInLoop_def)
    have "conn_room (length (drop nwrote data)) c w1" using room eff(1) by (simp add: conn_room_def)
    then have "case sendInLoop_store K tid c (drop nwrote data) w1 of Inl e \<Rightarrow> e = Aborted
        | Inr w' \<Rightarrow> conn_effect sent c (length (drop nwrote data)) (drop nwrote data) w1 w'"
      using ok eff by (intro sendInLoop_store_effect) (auto simp: conn_ok_def)
    moreover have "conn_stream sent c w1 @ drop nwrote data = conn_stream sent c w @ data"
      using eff by (cases "nwrote = 0") (auto simp: conn_stream_def)
    ultimately show ?thesis
      using True False wr eff(1) unfolding run
      by (auto simp: send_taken_def conn_effect_def split: sum.splits)
  qed
qed

end

lemma isWriting_disableWriting [simp]: "ch_events ch' = ch_events ch AND kWriteEvent \<Longrightarrow>
    Channel_isWriting ch' \<longleftrightarrow> Channel_isWriting ch"
  by (simp add: Channel_isWriting_def and.assoc)

lemma handleWrite_drain:
  assumes "Channel_isWriting (chan_of c w)" "Buffer_inv (conn_outputBuffer (conns w c))"
    and "sys_write K (ch_fd (chan_of c w)) (Buffer_abs (conn_outputBuffer (conns w c))) (kern w) = (Inr n, k')" "0 < n"
  shows "TcpConnection_handleWrite K tid c w =
    (let b' = Buffer_retrieve (int32 (int n)) (conn_outputBuffer (conns w c));
         w1 = upd_conn c (\<lambda>cn. cn\<lparr>conn_outputBuffer := b'\<rparr>) (w\<lparr>kern := k'\<rparr>)
     in if Buffer_readableBytes b' = 0 then handleWrite_done K tid c w1 else Inr w1)"
  using assms
  by (simp add: TcpConnection_handleWrite_def Let_def Buffer_peek_def
      Buffer_readableBytes_inv Buffer_string_at_abs Buffer_writeFd_ok)

lemma handleWrite_no_progress:
  assumes "Channel_isWriting (chan_of c w)" "Buffer_inv (conn_outputBuffer (conns w c))"
    and "sys_write K (ch_fd (chan_of c w)) (Buffer_abs (conn_outputBuffer (conns w c))) (kern w) = (out, k')"
    and "\<nexists>n. out = Inr n \<and> 0 < n"
  shows "TcpConnection_handleWrite K tid c w = Inr (log_error ''TcpConnection::handleWrite() failed'' (w\<lparr>kern := k'\<rparr>))"
  using assms
  by (cases out) (auto simp: TcpConnection_handleWrite_def Let_def Buffer_peek_def
      Buffer_readableBytes_inv Buffer_string_at_abs Buffer_writeFd_ok)

context net_kernel
begin

lemma shutdownInLoop_frame:
  "case TcpConnection_shutdownInLoop K c w of Inl e \<Rightarrow> False | Inr w' \<Rightarrow>
     conns w' = conns w \<and> chans w' = chans w \<and> loops w' = loops w \<and> sent (kern w') = sent (kern w) \<and>
     world.more w' = world.more w"
  by (auto simp: TcpConnection_shutdownInLoop_def Socket_shutdownWrite_def log_error_def split: prod.split dest: shutdown_frame)

lemma handleWrite_done_frame:
  assumes wake: "ch_fd (chan_of c w1) \<noteq> wakeupFd (loops w1 (conn_loop (conns w1 c)))"
  shows "case handleWrite_done K tid c w1 of Inl e \<Rightarrow> e = Aborted | Inr w' \<Rightarrow>
     conns w' = conns w1 \<and> ch_events (chan_of c w') = ch_events (chan_of c w1) AND kWriteEvent \<and>
     ch_fd (chan_of c w') = ch_fd (chan_of c w1) \<and> wakeupFd (loops w' l) = wakeupFd (loops w1 l) \<and>
     sent (kern w') (ch_fd (chan_of c w1)) = sent (kern w1) (ch_fd (chan_of c w1))"
proof (cases "Channel_disableWriting K (conn_channel (conns w1 c)) w1")
  case (Inl e)
  then show ?thesis using Channel_update_fails
    by (simp add: handleWrite_done_def Channel_disableWriting_def)
next
  case (Inr w2)
  then have up: "Channel_update K (conn_channel (conns w1 c)) (upd_chan (conn_channel (conns w1 c))
      (\<lambda>ch. ch\<lparr>ch_events := ch_events ch AND kWriteEvent\<rparr>) w1) = Inr w2"
    by (simp add: Channel_disableWriting_def)
  note fr = Channel_update_frame(1,3) [OF up] Channel_update_sent [OF up]
    Channel_update_frame(2) [OF up, of "conn_channel (conns w1 c)"]
  define w3 where "w3 = (if conn_hasWriteCompleteCallback (conns w2 c)
      then EventLoop_queueInLoop K tid (conn_loop (conns w2 c)) (F_writeComplete c) w2 else w2)"
  have w3: "conns w3 = conns w1" "chans w3 = chans w2" "wakeupFd (loops w3 l) = wakeupFd (loops w1 l)"
    "sent (kern w3) (ch_fd (chan_of c w1)) = sent (kern w1) (ch_fd (chan_of c w1))"
    using fr wake by (auto simp: w3_def queueInLoop_sent chan_same_def)
  have run: "handleWrite_done K tid c w1 = (if conn_state (conns w3 c) = kDisconnecting
      then TcpConnection_shutdownInLoop K c w3 else Inr w3)"
    using Inr by (simp add: handleWrite_done_def w3_def Let_def)
  show ?thesis
    using shutdownInLoop_frame [where c = c and w = w3] w3 fr unfolding run
    by (auto simp: chan_same_def split: sum.splits)
qed

lemma handleWrite_effect:
  assumes ok: "conn_ok c w" and room: "conn_room 0 c w"
  shows "case TcpConnection_handleWrite K tid c w of Inl e \<Rightarrow> e = Aborted | Inr w' \<Rightarrow> conn_effect sent c 0 [] w w'"
proof (cases "Channel_isWriting (chan_of c w)")
  case False
  then show ?thesis
    using ok by (simp add: TcpConnection_handleWrite_def conn_effect_def conn_ok_def conn_stream_def)
next
  case True
  let ?f = "ch_fd (chan_of c w)" and ?b = "conn_outputBuffer (conns w c)"
  have inv: "Buffer_inv ?b" and wake: "?f \<noteq> wakeupFd (loops w (conn_loop (conns w c)))"
    using ok by (auto simp: conn_ok_def)
  obtain out k' where out: "sys_write K ?f (Buffer_abs ?b) (kern w) = (out, k')" by fastforce
  show ?thesis
  proof (cases "\<exists>n. out = Inr n \<and> 0 < n")
    case False
    then have "sent k' = sent (kern w)" using out write_ok write_fail by (cases out) fastforce+
    then show ?thesis
      using handleWrite_no_progress [OF True inv out False] ok
      by (simp add: conn_effect_def conn_ok_def conn_stream_def)
  next
    case True2: True
    then obtain n where n: "out = Inr n" "0 < n" by blast
    have bound: "length (Buffer_abs ?b) \<le> nat INT_MAX"
      using room inv by (auto simp: conn_room_def Buffer_abs_length Buffer_chunk_def Buffer_inv_def)
    have wr: "n \<le> length (Buffer_abs ?b)" "sent k' ?f = sent (kern w) ?f @ take n (Buffer_abs ?b)"
      using write_ok out n by auto
    define b' where "b' = Buffer_retrieve (int n) ?b"
    have "int n \<le> INT_MAX" using wr(1) bound by (simp add: limit_defs)
    then have b': "int32 (int n) = int n" "Buffer_abs b' = drop n (Buffer_abs ?b)" "Buffer_inv b'"
      "Buffer_size b' = Buffer_size ?b"
      using Buffer_retrieve_abs [OF inv, of "int n"] Buffer_retrieve_inv [OF inv]
      by (simp_all add: b'_def int32_id limit_defs)
    define w1 where "w1 = upd_conn c (\<lambda>cn. cn\<lparr>conn_outputBuffer := b'\<rparr>) (w\<lparr>kern := k'\<rparr>)"
    have run: "TcpConnection_handleWrite K tid c w
        = (if Buffer_readableBytes b' = 0 then handleWrite_done K tid c w1 else Inr w1)"
      using handleWrite_drain [OF True inv out [unfolded n(1)] n(2)] b'(1)
      by (simp add: Let_def w1_def b'_def)
    have str: "conn_effect sent c 0 [] w w1"
      using True b' wr wake by (simp add: conn_effect_def conn_ok_def conn_stream_def w1_def)
    show ?thesis
      using str handleWrite_done_frame [where c = c and ?w1.0 = w1 and tid = tid and l = "conn_loop (conns w1 c)"] unfolding run
      by (auto simp: conn_effect_def conn_ok_def conn_stream_def split: sum.splits)
  qed
qed

end

text \<open>
  \<open>disableWriting\<close> leaves the channel writing, so the shutdown at the end of \<open>handleWrite_done\<close> is
  never made.
\<close>

lemma handleWrite_done_writing:
  assumes "Channel_isWriting (chan_of c w1)"
  shows "handleWrite_done K tid c w1 = rbind (Channel_disableWriting K (conn_channel (conns w1 c)) w1) (\<lambda>w2.
    Inr (if conn_hasWriteCompleteCallback (conns w2 c)
         then EventLoop_queueInLoop K tid (conn_loop (conns w2 c)) (F_writeComplete c) w2 else w2))"
proof (cases "Channel_disableWriting K (conn_channel (conns w1 c)) w1")
  case (Inl e)
  then show ?thesis by (simp add: handleWrite_done_def)
next
  case (Inr w2)
  then have up: "Channel_update K (conn_channel (conns w1 c)) (upd_chan (conn_channel (conns w1 c))
      (\<lambda>ch. ch\<lparr>ch_events := ch_events ch AND kWriteEvent\<rparr>) w1) = Inr w2"
    by (simp add: Channel_disableWriting_def)
  have "Channel_isWriting (chan_of c w2)"
    using Channel_update_frame(1) [OF up] Channel_update_frame(2) [OF up, of "conn_channel (conns w1 c)"] assms
    by (simp add: chan_same_def)
  then show ?thesis using Inr by (simp add: handleWrite_done_def TcpConnection_shutdownInLoop_def Let_def)
qed

text \<open>Operations that do not use \<open>shutdown(2)\<close>.\<close>

lemma EpollPoller_update_kernel: "EpollPoller_update (K\<lparr>sys_shutdown_wr := g\<rparr>) = EpollPoller_update K"
  by (intro ext) (simp add: EpollPoller_update_def)

lemma Channel_disableWriting_kernel:
  "Channel_disableWriting (K\<lparr>sys_shutdown_wr := g\<rparr>) ch w = Channel_disableWriting K ch w"
  unfolding Channel_disableWriting_def Channel_update_def EventLoop_updateChannel_def
    EpollPoller_updateChannel_def EpollPoller_update_kernel ..

lemma queueInLoop_kernel:
  "EventLoop_queueInLoop (K\<lparr>sys_shutdown_wr := g\<rparr>) tid l F w = EventLoop_queueInLoop K tid l F w"
  by (simp add: queue_defs EventLoop_wakeup_def)


section \<open>Sequences of events\<close>

text \<open>
  What happens to an established connection in its loop: data to send, a write event, a request
  to shut down. \<open>conn_taken\<close> collects what the sends of a sequence took over.
\<close>

datatype conn_event = EvSend bytes | EvWritable | EvShutdown

fun conn_handle ::
    "'k kernel \<Rightarrow> int \<Rightarrow> conn \<Rightarrow> conn_event \<Rightarrow> ('k, 'a) world_scheme \<Rightarrow> ('k, 'a) world_scheme res" where
  "conn_handle K tid c (EvSend data) w = TcpConnection_sendInLoop K tid c data w"
| "conn_handle K tid c EvWritable w = TcpConnection_handleWrite K tid c w"
| "conn_handle K tid c EvShutdown w = TcpConnection_shutdownInLoop K c w"

fun event_taken :: "'k kernel \<Rightarrow> int \<Rightarrow> conn \<Rightarrow> conn_event \<Rightarrow> ('k, 'a) world_scheme \<Rightarrow> bytes" where
  "event_taken K tid c (EvSend data) w = send_taken K tid c data w"
| "event_taken K tid c _ w = []"

fun event_bytes :: "conn_event \<Rightarrow> nat" where
  "event_bytes (EvSend data) = length data"
| "event_bytes _ = 0"

fun conn_taken ::
    "'k kernel \<Rightarrow> int \<Rightarrow> conn \<Rightarrow> conn_event list \<Rightarrow> ('k, 'a) world_scheme \<Rightarrow> bytes" where
  "conn_taken K tid c [] w = []"
| "conn_taken K tid c (ev # evs) w = event_taken K tid c ev w @
     (case conn_handle K tid c ev w of Inl e \<Rightarrow> [] | Inr w' \<Rightarrow> conn_taken K tid c evs w')"

context net_kernel
begin

lemma conn_handle_effect:
  assumes "conn_ok c w" "conn_room (event_bytes ev) c w"
  shows "case conn_handle K tid c ev w of Inl e \<Rightarrow> e = Aborted
    | Inr w' \<Rightarrow> conn_effect sent c (event_bytes ev) (event_taken K tid c ev w) w w'"
proof (cases ev)
  case (EvSend data)
  then show ?thesis using sendInLoop_effect [OF assms(1), of data tid] assms(2) by (auto split: sum.splits)
next
  case EvWritable
  then show ?thesis using handleWrite_effect [OF assms(1), of tid] assms(2) by (auto split: sum.splits)
next
  case EvShutdown
  then show ?thesis
    using assms(1) shutdownInLoop_frame [where c = c and w = w]
    by (auto simp: conn_effect_def conn_ok_def conn_stream_def split: sum.splits)
qed

lemma conn_events_effect:
  assumes "conn_ok c w" "conn_room (sum_list (map event_bytes evs)) c w"
  shows "case res_iter (conn_handle K tid c) evs w of Inl e \<Rightarrow> e = Aborted
    | Inr w' \<Rightarrow> conn_ok c w' \<and> conn_stream sent c w' = conn_stream sent c w @ conn_taken K tid c evs w"
  using assms
proof (induction evs arbitrary: w)
  case Nil
  then show ?case by simp
next
  case (Cons ev evs)
  then have "conn_room (event_bytes ev) c w" by (simp add: conn_room_def)
  note step = conn_handle_effect [OF Cons.prems(1) this, of tid]
  show ?case
  proof (cases "conn_handle K tid c ev w")
    case (Inl e)
    then show ?thesis using step by simp
  next
    case (Inr w1)
    then have eff: "conn_effect sent c (event_bytes ev) (event_taken K tid c ev w) w w1" using step by simp
    then have "conn_room (sum_list (map event_bytes evs)) c w1"
      using Cons.prems(2) by (simp add: conn_effect_def conn_room_def)
    then show ?thesis
      using Cons.IH [of w1] eff Inr by (auto simp: conn_effect_def split: sum.splits)
  qed
qed

end


section \<open>Properties\<close>

lemma sample_conn_ok: "conn_ok 1 sample_world"
  by (simp add: conn_ok_def sample_defs)

text \<open>
  C1. Byte-stream integrity. Take any sequence of sends, write events and shutdown requests on a
  connection whose invariant holds. However many bytes the kernel accepts in each call, the bytes
  it has accepted followed by the bytes still in the output buffer are always exactly the bytes
  taken over from the sends, in order, none lost, doubled or reordered (a send takes over
  everything unless the connection is closed or the write reports \<open>EPIPE\<close> or \<open>ECONNRESET\<close>); the
  output buffer keeps its invariant and never holds bytes without a pending write event while the
  connection is open. The only failure is the abort of a refused \<open>epoll_ctl\<close>.
\<close>

theorem TcpConnection_stream_integrity:
  assumes "net_kernel K interest sent" "conn_ok c w" "conn_room (sum_list (map event_bytes evs)) c w"
  shows "case res_iter (conn_handle K tid c) evs w of Inl e \<Rightarrow> e = Aborted
    | Inr w' \<Rightarrow> conn_ok c w' \<and> conn_stream sent c w' = conn_stream sent c w @ conn_taken K tid c evs w"
  by (rule net_kernel.conn_events_effect [OF assms])

theorem TcpConnection_stream_integrity_witness:
  "case res_iter (conn_handle ref_kernel 100 1) [EvSend ''abcde'', EvSend ''fg'', EvWritable] sample_world of
     Inl e \<Rightarrow> e = Aborted
   | Inr w' \<Rightarrow> conn_ok 1 w' \<and> conn_stream rk_sent 1 w' = conn_stream rk_sent 1 sample_world @
       conn_taken ref_kernel 100 1 [EvSend ''abcde'', EvSend ''fg'', EvWritable] sample_world"
  by (rule TcpConnection_stream_integrity [OF rk.net_kernel_axioms sample_conn_ok])
    (simp add: conn_room_def sample_world_def sample_conn_def Buffer_chunk_def limit_defs InitialPrependSize_def)

text \<open>
  C26. The half-close after the last byte never happens: \<open>handleWrite\<close> behaves the same whatever
  \<open>shutdown(2)\<close> does, that is, it never calls it, although it is written to do so when the output
  buffer has drained on a connection in state \<open>kDisconnecting\<close>. The cause is
  \<open>Channel::disableWriting\<close>, which keeps the write interest, so that \<open>shutdownInLoop\<close> always sees
  a writing channel.
\<close>

theorem handleWrite_never_shuts_down:
  "TcpConnection_handleWrite (K\<lparr>sys_shutdown_wr := g\<rparr>) tid c w = TcpConnection_handleWrite K tid c w"
proof -
  have drained: "handleWrite_done (K\<lparr>sys_shutdown_wr := g\<rparr>) tid c w1 = handleWrite_done K tid c w1"
    if "Channel_isWriting (chan_of c w1)" for w1
    unfolding handleWrite_done_writing [OF that] Channel_disableWriting_kernel queueInLoop_kernel ..
  show ?thesis
    by (auto simp: TcpConnection_handleWrite_def Let_def rbind_def drained split: sum.splits prod.splits)
qed

text \<open>
  The high-water mark: storing \<open>rest\<close> behind \<open>old\<close> bytes of unsent output queues the
  callback exactly when it is set and the amount of unsent output crosses the mark from below in
  this very step; the functor carries the new amount, and the loop's queue changes in no other
  way.
\<close>

theorem sendInLoop_mark_crossing:
  assumes "Buffer_inv (conn_outputBuffer (conns w c))"
    and "length (Buffer_abs (conn_outputBuffer (conns w c))) + n < 2 ^ 64"
  shows "pendingFunctors (loops (sendInLoop_mark K tid c n w) (conn_loop (conns w c))) =
    pendingFunctors (loops w (conn_loop (conns w c))) @
    (let old = length (Buffer_abs (conn_outputBuffer (conns w c))); mark = conn_highWaterMark (conns w c) in
     if conn_hasHighWaterMarkCallback (conns w c) \<and> old < mark \<and> mark \<le> old + n
     then [F_highWaterMark c (old + n)] else [])"
  using size_t_sum [OF assms(2)] assms(1)
  by (simp add: sendInLoop_mark_def Let_def Buffer_readableBytes_abs queue_defs)

theorem sendInLoop_mark_crossing_witness:
  "pendingFunctors (loops (sendInLoop_mark ref_kernel 100 1 4 sample_world) 0) = [F_highWaterMark 1 4]"
  using sendInLoop_mark_crossing [of sample_world 1 4 ref_kernel 100]
  by (simp add: sample_defs)

text \<open>
  C36. \<open>send\<close> from a thread other than the loop's: the string overload queues only the address and
  the length of the caller's characters, and running the functor after that string is gone is an
  invalid read; the buffer overload queues a copy of the readable bytes and empties the buffer.
\<close>

theorem send_from_other_thread:
  assumes "conn_state (conns w c) = kConnected" "threadId (loops w (conn_loop (conns w c))) \<noteq> tid"
    and "strings w p = Some s"
    and "Buffer_inv buf" "int (length (Buffer_abs buf)) \<le> INT_MAX"
  shows "(\<exists>w1. TcpConnection_send K tid c p w = Inr w1 \<and>
      pendingFunctors (loops w1 (conn_loop (conns w c)))
        = pendingFunctors (loops w (conn_loop (conns w c))) @ [F_sendInLoop_ptr c p (length s)] \<and>
      (\<forall>w2. strings w2 p = None \<longrightarrow> sendInLoop_ptr K tid2 c p (length s) w2 = Inl OutOfBounds)) \<and>
    (\<exists>w1. TcpConnection_sendBuffer K tid c buf w = Inr (Buffer_retrieveAll buf, w1) \<and>
      pendingFunctors (loops w1 (conn_loop (conns w c)))
        = pendingFunctors (loops w (conn_loop (conns w c))) @ [F_sendInLoop_str c (Buffer_abs buf)])"
  using assms Buffer_retrieveAllAsString_ok [OF assms(4,5)]
  by (simp add: TcpConnection_send_def TcpConnection_sendBuffer_def EventLoop_runInLoop_def
      sendInLoop_ptr_def queue_defs)

theorem send_from_other_thread_witness:
  "(\<exists>w1. TcpConnection_send ref_kernel 200 1 9 sample_world = Inr w1 \<and>
     pendingFunctors (loops w1 0) = [F_sendInLoop_ptr 1 9 3] \<and>
     (\<forall>w2 :: ref_state world. strings w2 9 = None \<longrightarrow> sendInLoop_ptr ref_kernel 100 1 9 3 w2 = Inl OutOfBounds)) \<and>
   (\<exists>w1. TcpConnection_sendBuffer ref_kernel 200 1 fresh_buffer sample_world
       = Inr (Buffer_retrieveAll fresh_buffer, w1) \<and> pendingFunctors (loops w1 0) = [F_sendInLoop_str 1 []])"
  using send_from_other_thread [of sample_world 1 200 9 "''abc''" fresh_buffer ref_kernel 100]
  by (simp add: sample_defs limit_defs numeral_3_eq_3)

text \<open>
  \<open>handleRead\<close> on a well-formed input buffer: delivered bytes are appended to the input
  buffer before the message callback runs; an empty read closes the connection; an error leaves
  the buffer alone, calls no callback and only logs.
\<close>

theorem TcpConnection_handleRead_cases:
  assumes "Buffer_inv (conn_inputBuffer (conns w c))"
    and "sys_read K (ch_fd (chan_of c w)) (readv_capacity (conn_inputBuffer (conns w c))) (kern w) = (out, k')"
    and "\<And>xs. out = Inr xs \<Longrightarrow> length xs \<le> readv_capacity (conn_inputBuffer (conns w c)) \<and>
      Buffer_size (conn_inputBuffer (conns w c)) + length xs \<le> vector_max_size"
  shows "case out of
      Inr xs \<Rightarrow> \<exists>b'. Buffer_inv b' \<and> Buffer_abs b' = Buffer_abs (conn_inputBuffer (conns w c)) @ xs \<and>
        TcpConnection_handleRead K U c t w =
          (let w1 = upd_conn c (\<lambda>cn. cn\<lparr>conn_inputBuffer := b'\<rparr>) (w\<lparr>kern := k'\<rparr>)
           in if xs \<noteq> [] then call_message U c t w1 else TcpConnection_handleClose K U c w1)
    | Inl e \<Rightarrow> \<exists>w'. TcpConnection_handleRead K U c t w = Inr w' \<and> conns w' = conns w \<and> chans w' = chans w \<and>
        loops w' = loops w"
proof (cases out)
  case (Inl e)
  then show ?thesis
    using assms(2)
    by (auto simp: TcpConnection_handleRead_def Let_def Buffer_readFd_def TcpConnection_handleError_def
        fun_upd_idem split: prod.split)
next
  case (Inr xs)
  then have "length xs \<le> readv_capacity (conn_inputBuffer (conns w c))"
    "Buffer_size (conn_inputBuffer (conns w c)) + length xs \<le> vector_max_size"
    using assms(3) by auto
  from Buffer_readFd_ok [OF assms(1) this] obtain b' where
    "Buffer_readFd (Inr xs) (conn_inputBuffer (conns w c)) = Inr (int (length xs), None, b')" "Buffer_inv b'"
    "Buffer_abs b' = Buffer_abs (conn_inputBuffer (conns w c)) @ xs" by metis
  then show ?thesis
    using Inr assms(2) by (auto simp: TcpConnection_handleRead_def Let_def intro!: exI [of _ b'])
qed

definition quiet_callbacks :: "'w callbacks" where
  "quiet_callbacks = \<lparr>connectionCallback = (\<lambda>c w. Inr w), messageCallback = (\<lambda>c t w. Inr w),
     closeCallback = (\<lambda>c w. Inr w)\<rparr>"

definition sample_input :: "ref_state world" where
  "sample_input = sample_world\<lparr>kern := (kern sample_world)\<lparr>rk_delivers := [''GET'']\<rparr>\<rparr>"

theorem TcpConnection_handleRead_cases_witness:
  "\<exists>b'. Buffer_inv b' \<and> Buffer_abs b' = Buffer_abs (conn_inputBuffer (conns sample_input 1)) @ ''GET'' \<and>
     TcpConnection_handleRead ref_kernel quiet_callbacks 1 5 sample_input =
       (let w1 = upd_conn 1 (\<lambda>cn. cn\<lparr>conn_inputBuffer := b'\<rparr>)
          (sample_input\<lparr>kern := (kern sample_world)\<lparr>rk_delivers := []\<rparr>\<rparr>)
        in if ''GET'' \<noteq> [] then call_message quiet_callbacks 1 5 w1
           else TcpConnection_handleClose ref_kernel quiet_callbacks 1 w1)"
proof -
  have rd: "sys_read ref_kernel (ch_fd (chan_of 1 sample_input))
      (readv_capacity (conn_inputBuffer (conns sample_input 1))) (kern sample_input)
    = (Inr ''GET'', (kern sample_world)\<lparr>rk_delivers := []\<rparr>)"
    by (simp add: sample_input_def sample_defs ref_defs readv_capacity_def Let_def extrabuf_size_def)
  have inv: "Buffer_inv (conn_inputBuffer (conns sample_input 1))"
    by (simp add: sample_input_def sample_defs)
  have "length xs \<le> readv_capacity (conn_inputBuffer (conns sample_input 1)) \<and>
      Buffer_size (conn_inputBuffer (conns sample_input 1)) + length xs \<le> vector_max_size"
    if "(Inr ''GET'' :: errno + bytes) = Inr xs" for xs
    using that by (auto simp: sample_input_def sample_defs readv_capacity_def Let_def extrabuf_size_def limit_defs)
  from TcpConnection_handleRead_cases [OF inv rd this, of quiet_callbacks 5] show ?thesis
    unfolding sum.case .
qed

text \<open>Removing a channel and closing a registered connection cannot fail.\<close>

lemma Channel_remove_succeeds: "\<exists>w'. Channel_remove K ch w = Inr w'"
  by (auto simp: Channel_remove_def EventLoop_removeChannel_def EpollPoller_removeChannel_def
      EpollPoller_update_def Let_def split: prod.split)

end
