(* ===== verification/Net_Thread.thy ===== *)
theory Net_Thread
  imports Net_World
begin

text \<open>
  Threads (\<open>src/base/Thread.h\<close>, \<open>src/base/Thread.cc\<close>, \<open>src/base/CurrentThread.h\<close>,
  \<open>src/base/CurrentThread.cc\<close>), the thread that owns an event loop
  (\<open>src/net/EventLoopThread.h\<close>, \<open>src/net/EventLoopThread.cc\<close>) and the pool of such threads
  (\<open>src/net/EventLoopThreadPool.h\<close>, \<open>src/net/EventLoopThreadPool.cc\<close>). The hand-over of the new
  loop's address between the two threads is a step relation.
\<close>

section \<open>Thread\<close>

text \<open>\<open>CurrentThread::tid\<close>: \<open>cached\<close> is the thread-local cache, \<open>gettid\<close> what the system call returns.\<close>

definition CurrentThread_cacheTid :: "int \<Rightarrow> int \<Rightarrow> int" where
  "CurrentThread_cacheTid gettid cached = (if cached = 0 then gettid else cached)"

definition CurrentThread_tid :: "int \<Rightarrow> int \<Rightarrow> int \<times> int" where
  "CurrentThread_tid gettid cached =
     (let cached' = (if cached = 0 then CurrentThread_cacheTid gettid cached else cached) in (cached', cached'))"

record thread =
  th_started :: bool
  th_joined :: bool
  th_tid :: int
  th_name :: bytes

text \<open>The constructor with the counter \<open>numCreated_\<close>, which names threads that have no name.\<close>

definition Thread_setDefaultName :: "int \<Rightarrow> thread \<Rightarrow> thread \<times> int" where
  "Thread_setDefaultName numCreated th =
     (let num = numCreated + 1
      in (if th_name th = [] then th\<lparr>th_name := snprintf_to 32 (''Thread'' @ show_int num)\<rparr> else th, num))"

definition Thread_ctor :: "int \<Rightarrow> bytes \<Rightarrow> thread \<times> int" where
  "Thread_ctor numCreated name =
     Thread_setDefaultName numCreated \<lparr>th_started = False, th_joined = False, th_tid = 0, th_name = name\<rparr>"

text \<open>\<open>start\<close> returns after the new thread, whose id is \<open>gettid\<close>, has stored its id.\<close>

definition Thread_start :: "int \<Rightarrow> thread \<Rightarrow> thread" where
  "Thread_start gettid th = th\<lparr>th_started := True, th_tid := fst (CurrentThread_tid gettid 0)\<rparr>"

definition Thread_join :: "thread \<Rightarrow> thread res" where
  "Thread_join th = (if th_started th then Inr (th\<lparr>th_joined := True\<rparr>) else Inl NullDeref)"

text \<open>The destructor detaches a thread that was started and not joined.\<close>

definition Thread_dtor :: "thread \<Rightarrow> bool" where
  "Thread_dtor th \<longleftrightarrow> th_started th \<and> \<not> th_joined th"


section \<open>EventLoopThread\<close>

text \<open>
  The state of an \<open>EventLoopThread\<close> that has been started: its member \<open>loop_\<close>, where the creating
  thread is in \<open>startLoop\<close> (waiting on the condition, or returned with an address), and where the
  new thread is in \<open>threadFunc\<close>. \<open>l\<close> is the address of the loop on the new thread's stack.
\<close>

datatype starter = Waiting | Returned "loop option"
datatype loop_thread = Constructing | Calling | Looping | Left

record loop_thread_state =
  lt_loop :: "loop option"
  lt_starter :: starter
  lt_thread :: loop_thread

definition EventLoopThread_ctor :: loop_thread_state where
  "EventLoopThread_ctor = \<lparr>lt_loop = None, lt_starter = Waiting, lt_thread = Constructing\<rparr>"

inductive EventLoopThread_step :: "loop \<Rightarrow> loop_thread_state \<Rightarrow> loop_thread_state \<Rightarrow> bool" for l :: loop where
  threadFunc_construct: "lt_thread s = Constructing \<Longrightarrow> EventLoopThread_step l s (s\<lparr>lt_thread := Calling\<rparr>)"
| threadFunc_publish: "lt_thread s = Calling \<Longrightarrow>
    EventLoopThread_step l s (s\<lparr>lt_loop := Some l, lt_thread := Looping\<rparr>)"
| threadFunc_leave: "lt_thread s = Looping \<Longrightarrow> EventLoopThread_step l s (s\<lparr>lt_loop := None, lt_thread := Left\<rparr>)"
| startLoop_return: "lt_starter s = Waiting \<Longrightarrow> lt_loop s \<noteq> None \<Longrightarrow>
    EventLoopThread_step l s (s\<lparr>lt_starter := Returned (lt_loop s)\<rparr>)"

inductive EventLoopThread_reach :: "loop \<Rightarrow> loop_thread_state \<Rightarrow> bool" for l :: loop where
  lt_start: "EventLoopThread_reach l EventLoopThread_ctor"
| lt_next: "EventLoopThread_reach l s \<Longrightarrow> EventLoopThread_step l s t \<Longrightarrow> EventLoopThread_reach l t"

inductive_simps EventLoopThread_step_simps: "EventLoopThread_step l s t"

text \<open>The destructor: \<open>quit\<close> is the effect of \<open>loop_->quit()\<close>; then the thread is joined.\<close>

definition EventLoopThread_dtor ::
    "(loop \<Rightarrow> 'w \<Rightarrow> 'w) \<Rightarrow> loop_thread_state \<Rightarrow> thread \<Rightarrow> 'w \<Rightarrow> (thread \<times> 'w) res" where
  "EventLoopThread_dtor quit s th w =
     (case lt_loop s of
        None \<Rightarrow> Inr (th, w)
      | Some l \<Rightarrow> rbind (Thread_join th) (\<lambda>th'. Inr (th', quit l w)))"

definition lt_inv :: "loop \<Rightarrow> loop_thread_state \<Rightarrow> bool" where
  "lt_inv l s \<longleftrightarrow> (lt_loop s = (if lt_thread s = Looping then Some l else None)) \<and>
     (lt_starter s = Waiting \<or> lt_starter s = Returned (Some l) \<and> lt_thread s \<in> {Looping, Left})"

lemma lt_step_inv: "EventLoopThread_step l s t \<Longrightarrow> lt_inv l s \<Longrightarrow> lt_inv l t"
  by (auto simp: EventLoopThread_step_simps lt_inv_def split: if_splits)

lemma lt_reach_inv: "EventLoopThread_reach l s \<Longrightarrow> lt_inv l s"
proof (induction rule: EventLoopThread_reach.induct)
  case lt_start
  then show ?case by (simp add: lt_inv_def EventLoopThread_ctor_def)
next
  case (lt_next s t)
  then show ?case by (blast intro: lt_step_inv)
qed


section \<open>EventLoopThreadPool\<close>

record pool =
  pool_baseLoop :: loop
  pool_name :: bytes
  pool_started :: bool
  pool_numThreads :: int
  pool_next :: nat
  pool_threads :: "bytes list"
  pool_loops :: "loop list"

definition EventLoopThreadPool_ctor :: "loop \<Rightarrow> bytes \<Rightarrow> pool" where
  "EventLoopThreadPool_ctor baseLoop nameArg = \<lparr>pool_baseLoop = baseLoop, pool_name = nameArg, pool_started = False,
     pool_numThreads = 0, pool_next = 0, pool_threads = [], pool_loops = []\<rparr>"

definition EventLoopThreadPool_setThreadNum :: "int \<Rightarrow> pool \<Rightarrow> pool" where
  "EventLoopThreadPool_setThreadNum n p = p\<lparr>pool_numThreads := n\<rparr>"

text \<open>
  \<open>start\<close>: \<open>startLoop name w\<close> creates an \<open>EventLoopThread\<close> with this name, starts it and yields
  the address of its loop; \<open>cb\<close> is the user's callback, if any.
\<close>

definition pool_thread_name :: "pool \<Rightarrow> nat \<Rightarrow> bytes" where
  "pool_thread_name p i = snprintf_to (length (pool_name p) + 32) (c_str (pool_name p) @ show_int (int i))"

fun pool_start_threads ::
    "(bytes \<Rightarrow> 'w \<Rightarrow> (loop \<times> 'w) res) \<Rightarrow> nat list \<Rightarrow> pool \<Rightarrow> 'w \<Rightarrow> (pool \<times> 'w) res" where
  "pool_start_threads startLoop [] p w = Inr (p, w)"
| "pool_start_threads startLoop (i # is) p w =
     rbind (startLoop (pool_thread_name p i) w) (\<lambda>(l, w1).
       pool_start_threads startLoop is
         (p\<lparr>pool_threads := pool_threads p @ [pool_thread_name p i], pool_loops := pool_loops p @ [l]\<rparr>) w1)"

definition EventLoopThreadPool_start ::
    "(bytes \<Rightarrow> 'w \<Rightarrow> (loop \<times> 'w) res) \<Rightarrow> (loop \<Rightarrow> 'w \<Rightarrow> 'w res) option \<Rightarrow> pool \<Rightarrow> 'w \<Rightarrow> (pool \<times> 'w) res" where
  "EventLoopThreadPool_start startLoop cb p w =
     rbind (pool_start_threads startLoop [0..<nat (pool_numThreads p)] (p\<lparr>pool_started := True\<rparr>) w) (\<lambda>(p1, w1).
       (case cb of
          Some f \<Rightarrow> if pool_numThreads p1 = 0
                    then rbind (f (pool_baseLoop p1) w1) (\<lambda>w2. Inr (p1, w2)) else Inr (p1, w1)
        | None \<Rightarrow> Inr (p1, w1)))"

definition EventLoopThreadPool_getNextLoop :: "pool \<Rightarrow> (loop \<times> pool) res" where
  "EventLoopThreadPool_getNextLoop p =
     (if pool_loops p = [] then Inr (pool_baseLoop p, p)
      else if pool_next p < length (pool_loops p)
      then (let next' = Suc (pool_next p)
            in Inr (pool_loops p ! pool_next p,
                    p\<lparr>pool_next := (if next' \<ge> length (pool_loops p) then 0 else next')\<rparr>))
      else Inl OutOfBounds)"

definition EventLoopThreadPool_getAllLoops :: "pool \<Rightarrow> loop list" where
  "EventLoopThreadPool_getAllLoops p = (if pool_loops p = [] then [pool_baseLoop p] else pool_loops p)"

definition pool_ok :: "pool \<Rightarrow> bool" where
  "pool_ok p \<longleftrightarrow> pool_loops p = [] \<or> pool_next p < length (pool_loops p)"

lemma getNextLoop_ok:
  assumes "pool_ok p"
  shows "\<exists>p'. EventLoopThreadPool_getNextLoop p = Inr (EventLoopThreadPool_getAllLoops p !
      (if pool_loops p = [] then 0 else pool_next p), p') \<and> pool_ok p' \<and> pool_loops p' = pool_loops p \<and>
      pool_baseLoop p' = pool_baseLoop p \<and>
      pool_next p' = (if pool_loops p = [] then pool_next p else Suc (pool_next p) mod length (pool_loops p))"
proof (cases "Suc (pool_next p) < length (pool_loops p)")
  case True
  then show ?thesis
    using assms by (auto simp: EventLoopThreadPool_getNextLoop_def EventLoopThreadPool_getAllLoops_def pool_ok_def)
next
  case False
  then have "pool_loops p \<noteq> [] \<Longrightarrow> length (pool_loops p) = Suc (pool_next p)" using assms by (auto simp: pool_ok_def)
  then show ?thesis
    using assms by (auto simp: EventLoopThreadPool_getNextLoop_def EventLoopThreadPool_getAllLoops_def pool_ok_def)
qed

text \<open>The loops that \<open>k\<close> successive calls of \<open>getNextLoop\<close> select.\<close>

fun next_loops :: "nat \<Rightarrow> pool \<Rightarrow> loop list res" where
  "next_loops 0 p = Inr []"
| "next_loops (Suc k) p = rbind (EventLoopThreadPool_getNextLoop p) (\<lambda>(l, p').
     rbind (next_loops k p') (\<lambda>ls. Inr (l # ls)))"

lemma next_loops_ok:
  assumes "pool_ok p" "pool_loops p \<noteq> []"
  shows "next_loops k p = Inr (map (\<lambda>i. pool_loops p ! ((pool_next p + i) mod length (pool_loops p))) [0..<k])"
  using assms
proof (induction k arbitrary: p)
  case (Suc k)
  let ?n = "length (pool_loops p)"
  obtain p' where p': "EventLoopThreadPool_getNextLoop p = Inr (pool_loops p ! pool_next p, p')" "pool_ok p'"
    "pool_loops p' = pool_loops p" "pool_next p' = Suc (pool_next p) mod ?n"
    using getNextLoop_ok [OF Suc.prems(1)] Suc.prems(2) by (auto simp: EventLoopThreadPool_getAllLoops_def)
  have "pool_next p < ?n" using Suc.prems by (simp add: pool_ok_def)
  moreover have "(Suc (pool_next p) mod ?n + i) mod ?n = (pool_next p + Suc i) mod ?n" for i
    by (metis add_Suc_shift mod_add_left_eq)
  ultimately show ?case
    using Suc.IH [OF p'(2)] p' Suc.prems(2) by (simp add: upt_conv_Cons map_Suc_upt [symmetric] del: upt_Suc)
qed simp


section \<open>Properties\<close>

text \<open>
  C35. Connections are spread round robin: after \<open>start\<close> with \<open>n > 0\<close> threads, the \<open>i\<close>-th call of
  \<open>getNextLoop\<close> selects loop \<open>i mod n\<close>, for any number of calls; with no threads every call selects
  the base loop. The index into the vector of loops never leaves its range.
\<close>

theorem getNextLoop_round_robin:
  assumes "pool_next p = 0"
  shows "next_loops k p = Inr (map (\<lambda>i. EventLoopThreadPool_getAllLoops p !
    (i mod length (EventLoopThreadPool_getAllLoops p))) [0..<k])"
proof (cases "pool_loops p = []")
  case True
  then have "next_loops k p = Inr (replicate k (pool_baseLoop p))"
    by (induction k) (simp_all add: EventLoopThreadPool_getNextLoop_def)
  then show ?thesis using True by (simp add: EventLoopThreadPool_getAllLoops_def map_replicate_const)
next
  case False
  then show ?thesis
    using next_loops_ok [of p k] assms by (simp add: EventLoopThreadPool_getAllLoops_def pool_ok_def)
qed

definition sample_pool :: pool where
  "sample_pool = (EventLoopThreadPool_ctor 0 ''p'')\<lparr>pool_loops := [1, 2, 3]\<rparr>"

theorem getNextLoop_round_robin_witness: "next_loops 5 sample_pool = Inr [1, 2, 3, 1, 2]"
proof -
  have "map (\<lambda>i. EventLoopThreadPool_getAllLoops sample_pool ! (i mod length (EventLoopThreadPool_getAllLoops sample_pool)))
      [0..<5] = [1, 2, 3, 1, 2]"
    by code_simp
  then show ?thesis
    using getNextLoop_round_robin [of sample_pool 5] by (simp add: sample_pool_def EventLoopThreadPool_ctor_def)
qed

text \<open>
  C34. \<open>startLoop\<close> never returns a null pointer: in every interleaving of the creating thread with
  the new thread, the address it returns is that of the new thread's loop, and it returns only
  after that loop exists. (If the new loop is left before the creating thread wakes up, it does not
  return at all.)
\<close>

theorem startLoop_returns_the_loop:
  assumes "EventLoopThread_reach l s" "lt_starter s = Returned r"
  shows "r = Some l \<and> lt_thread s \<in> {Looping, Left}"
  using lt_reach_inv [OF assms(1)] assms(2) by (simp add: lt_inv_def)

theorem startLoop_returns_the_loop_witness:
  "\<exists>s. EventLoopThread_reach 6 s \<and> lt_starter s = Returned (Some 6) \<and> lt_thread s \<in> {Looping, Left}"
proof -
  let ?s0 = EventLoopThread_ctor
  let ?s1 = "?s0\<lparr>lt_thread := Calling\<rparr>"
  let ?s2 = "?s1\<lparr>lt_loop := Some 6, lt_thread := Looping\<rparr>"
  let ?s3 = "?s2\<lparr>lt_starter := Returned (lt_loop ?s2)\<rparr>"
  have "EventLoopThread_reach 6 ?s1"
    by (rule lt_next [OF lt_start]) (rule threadFunc_construct, simp add: EventLoopThread_ctor_def)
  then have "EventLoopThread_reach 6 ?s2" by (rule lt_next) (rule threadFunc_publish, simp)
  then have r3: "EventLoopThread_reach 6 ?s3" by (rule lt_next) (rule startLoop_return, simp_all add: EventLoopThread_ctor_def)
  then show ?thesis using startLoop_returns_the_loop [OF r3, of "Some 6"] by (intro exI [of _ ?s3]) simp
qed

end
