(* ===== verification/Net_InetAddress.thy ===== *)
theory Net_InetAddress
  imports Net_World
begin

unbundle bit_operations_syntax

text \<open>
  Socket addresses (\<open>src/net/InetAddress.h\<close>, \<open>src/net/InetAddress.cc\<close>) on a little-endian machine:
  the port and the address are stored in network byte order, so that the first octet of the
  address is the lowest byte of \<open>s_addr\<close>.
\<close>

definition htons :: "16 word \<Rightarrow> 16 word" where
  "htons w = push_bit 8 w OR drop_bit 8 w"

definition ntohs :: "16 word \<Rightarrow> 16 word" where
  "ntohs w = push_bit 8 w OR drop_bit 8 w"

definition INADDR_ANY :: "32 word" where "INADDR_ANY = 0"

text \<open>The constructor from a port and an address ignores the address; \<open>htonl (INADDR_ANY)\<close> is zero.\<close>

definition InetAddress_ctor :: "16 word \<Rightarrow> bytes \<Rightarrow> sockaddr_in" where
  "InetAddress_ctor port ip = \<lparr>sin_port = htons port, s_addr = INADDR_ANY\<rparr>"

definition InetAddress_ofSockAddr :: "sockaddr_in \<Rightarrow> sockaddr_in" where
  "InetAddress_ofSockAddr addr = addr"

text \<open>What \<open>inet_ntop\<close> writes: the four octets in decimal, separated by dots.\<close>

definition octet :: "nat \<Rightarrow> 32 word \<Rightarrow> nat" where
  "octet i a = unat (drop_bit (8 * i) a AND 255)"

definition inet_ntop :: "32 word \<Rightarrow> bytes" where
  "inet_ntop a = show_nat (octet 0 a) @ ''.'' @ show_nat (octet 1 a) @ ''.'' @ show_nat (octet 2 a) @ ''.'' @ show_nat (octet 3 a)"

definition InetAddress_toIp :: "sockaddr_in \<Rightarrow> bytes" where
  "InetAddress_toIp addr = inet_ntop (s_addr addr)"

definition InetAddress_toPort :: "sockaddr_in \<Rightarrow> 16 word" where
  "InetAddress_toPort addr = ntohs (sin_port addr)"

text \<open>\<open>toIpPort\<close> writes the text of the address and the port into an array of 64 bytes.\<close>

definition InetAddress_toIpPort :: "sockaddr_in \<Rightarrow> bytes res" where
  "InetAddress_toIpPort addr =
     (let buf = inet_ntop (s_addr addr) @ '':'' @ show_nat (unat (ntohs (sin_port addr)))
      in if length buf < 64 then Inr buf else Inl OutOfBounds)"

lemma ntohs_htons [simp]: "ntohs (htons w) = w"
proof (rule bit_eqI)
  fix n
  assume n: "possible_bit TYPE(16 word) n"
  then have "n < 16" by simp
  then show "bit (ntohs (htons w)) n \<longleftrightarrow> bit w n"
    by (cases "n < 8") (auto simp: ntohs_def htons_def bit_simps not_less dest: bit_imp_le_length)
qed

lemma octet_less: "octet i a < 256"
proof -
  have "drop_bit (8 * i) a AND 255 \<le> (255 :: 32 word)" by (rule word_and_le1)
  then have "unat (drop_bit (8 * i) a AND 255) \<le> unat (255 :: 32 word)" by (simp only: word_le_nat_alt)
  then show ?thesis by (simp add: octet_def)
qed

lemma length_inet_ntop: "length (inet_ntop a) \<le> 15"
proof -
  have "length (show_nat (octet i a)) \<le> Suc 2" for i
    using octet_less [of i a] by (intro length_show_nat_le) simp
  from this [of 0] this [of 1] this [of 2] this [of 3] show ?thesis by (simp add: inet_ntop_def)
qed

lemma length_port: "length (show_nat (unat (p :: 16 word))) \<le> 5"
proof -
  have "unat p < 10 ^ Suc 4" using unsigned_less [of p, where ?'a = nat] by simp
  then show ?thesis using length_show_nat_le [of "unat p" 4] by simp
qed

lemma NUL_show_nat [simp]: "NUL \<notin> set (show_nat n)"
proof
  assume "NUL \<in> set (show_nat n)"
  then obtain d where "d < 10" "NUL = digit d" using set_show_nat [of n] by auto
  then have "of_char (CHR 0x00) = (48 + d :: nat)" by (simp add: digit_def NUL_def)
  then show False by simp
qed

lemma NUL_inet_ntop [simp]: "NUL \<notin> set (inet_ntop a)"
  by (simp add: inet_ntop_def) (simp add: NUL_def)

lemma toIpPort_ok:
  "\<exists>t. InetAddress_toIpPort addr = Inr t \<and> length t \<le> 21 \<and> NUL \<notin> set t"
  using length_inet_ntop [of "s_addr addr"] length_port [of "ntohs (sin_port addr)"]
  by (simp add: InetAddress_toIpPort_def) (simp add: NUL_def)


section \<open>Properties\<close>

text \<open>
  An address built from a port and a textual address reads back its port, but not its
  address: the argument is ignored, and every address built this way is the wildcard
  \<open>0.0.0.0\<close>. Its text is that address, a colon and the port in decimal, whatever the port.
\<close>

theorem InetAddress_roundtrip:
  "InetAddress_toPort (InetAddress_ctor port ip) = port \<and> InetAddress_toIp (InetAddress_ctor port ip) = ''0.0.0.0'' \<and>
   InetAddress_toIpPort (InetAddress_ctor port ip) = Inr (''0.0.0.0:'' @ show_nat (unat port))"
proof -
  have ip: "inet_ntop INADDR_ANY = ''0.0.0.0''" by code_simp
  show ?thesis
    using length_port [of port]
    by (simp add: InetAddress_toPort_def InetAddress_ctor_def InetAddress_toIp_def InetAddress_toIpPort_def ip)
qed

end
