(* ===== verification/Net_TcpServer.thy ===== *)
theory Net_TcpServer
  imports Net_TcpConnection Net_Thread Net_InetAddress
begin

text \<open>
  The server (\<open>src/net/TcpServer.h\<close>, \<open>src/net/TcpServer.cc\<close>) and the acceptor it owns
  (\<open>src/net/Acceptor.h\<close>, \<open>src/net/Acceptor.cc\<close>), as an extension of the world by the members of
  one \<open>TcpServer\<close> object. The addresses that \<open>new\<close> yields for a connection and its channel are
  arguments. What the handlers of channels and the queued functors do is put together here:
  \<open>Server_call\<close> and \<open>Server_exec\<close> are what an event loop runs.
\<close>

section \<open>State\<close>

datatype Option = kNoReusePort | kReusePort

record 'k server = "'k world" +
  acc_loop :: loop
  acc_fd :: fd
  acc_chan :: chan
  acc_hasNewConnectionCallback :: bool
  acc_listenning :: bool
  srv_loop :: loop
  srv_ipPort :: bytes
  srv_name :: bytes
  srv_pool :: pool
  srv_hasConnectionCallback :: bool
  srv_hasMessageCallback :: bool
  srv_hasWriteCompleteCallback :: bool
  srv_started :: int
  srv_nextConnId :: int
  srv_connections :: "bytes \<rightharpoonup> conn"


section \<open>Acceptor\<close>

definition createNonblocking ::
    "'k kernel \<Rightarrow> ('k, 'a) world_scheme \<Rightarrow> (fd \<times> ('k, 'a) world_scheme) res" where
  "createNonblocking K w =
     (case sys_socket K (kern w) of
        (Inl e, k') \<Rightarrow> Inl Aborted
      | (Inr sockfd, k') \<Rightarrow> if sockfd < 0 then Inl Aborted else Inr (sockfd, w\<lparr>kern := k'\<rparr>))"

definition Acceptor_ctor ::
    "'k kernel \<Rightarrow> loop \<Rightarrow> sockaddr_in \<Rightarrow> bool \<Rightarrow> chan
      \<Rightarrow> ('k, 'a) server_scheme \<Rightarrow> ('k, 'a) server_scheme res" where
  "Acceptor_ctor K l ListenAddr reuseport ch s =
     rbind (createNonblocking K s) (\<lambda>(sockfd, s1).
       Socket_bindAddress K sockfd ListenAddr
         (Socket_setReusePort K sockfd True (Socket_setReuseAddr K sockfd reuseport
           (s1\<lparr>acc_loop := l, acc_fd := sockfd, acc_chan := ch, acc_hasNewConnectionCallback := False,
               acc_listenning := False,
               chans := (chans s1)(ch := Channel_setReadCallback H_Acceptor_handleRead (Channel_ctor l sockfd))\<rparr>))))"

definition Acceptor_setNewConnectionCallback :: "bool \<Rightarrow> ('k, 'a) server_scheme \<Rightarrow> ('k, 'a) server_scheme" where
  [simp]: "Acceptor_setNewConnectionCallback cb s = s\<lparr>acc_hasNewConnectionCallback := cb\<rparr>"

definition Acceptor_dtor ::
    "'k kernel \<Rightarrow> ('k, 'a) server_scheme \<Rightarrow> ('k, 'a) server_scheme res" where
  "Acceptor_dtor K s =
     rbind (Channel_disableAll K (acc_chan s) s) (\<lambda>s1.
     rbind (Channel_remove K (acc_chan s1) s1) (\<lambda>s2. Inr (Socket_dtor K (acc_fd s2) s2)))"

definition Acceptor_listen ::
    "'k kernel \<Rightarrow> ('k, 'a) server_scheme \<Rightarrow> ('k, 'a) server_scheme res" where
  "Acceptor_listen K s =
     rbind (Socket_listen K (acc_fd s) (s\<lparr>acc_listenning := True\<rparr>)) (\<lambda>s1.
       Channel_enableReading K (acc_chan s1) s1)"

text \<open>
  \<open>handleRead\<close>: \<open>newConnection\<close> is the callback. A default \<open>InetAddress\<close> receives the peer
  address.
\<close>

definition Acceptor_handleRead ::
    "'k kernel \<Rightarrow> (fd \<Rightarrow> sockaddr_in \<Rightarrow> ('k, 'a) server_scheme \<Rightarrow> ('k, 'a) server_scheme res)
      \<Rightarrow> ('k, 'a) server_scheme \<Rightarrow> ('k, 'a) server_scheme res" where
  "Acceptor_handleRead K newConnection s =
     (case Socket_accept K (acc_fd s) s of (connfd, err, addr, s1) \<Rightarrow>
        (let peerAddr = (case addr of None \<Rightarrow> InetAddress_ctor 0 ''127.0.0.1'' | Some a \<Rightarrow> a)
         in if connfd \<ge> 0
            then (if acc_hasNewConnectionCallback s1 then newConnection connfd peerAddr s1
                  else Inr (s1\<lparr>kern := sys_close K connfd (kern s1)\<rparr>))
            else (let s2 = log_error ''accept() failed'' s1
                  in Inr (if err = EMFILE then log_error ''sockfd reached limit'' s2 else s2))))"


section \<open>TcpServer\<close>

definition TcpServer_ctor ::
    "'k kernel \<Rightarrow> loop option \<Rightarrow> sockaddr_in \<Rightarrow> bytes \<Rightarrow> Option \<Rightarrow> chan
      \<Rightarrow> ('k, 'a) server_scheme \<Rightarrow> ('k, 'a) server_scheme res" where
  "TcpServer_ctor K lp listenAddr nameArg opt ch s =
     rbind (CheckLoopNotNull lp) (\<lambda>l.
     rbind (InetAddress_toIpPort listenAddr) (\<lambda>ipPort.
     rbind (Acceptor_ctor K l listenAddr (opt = kReusePort) ch s) (\<lambda>s1.
       Inr (Acceptor_setNewConnectionCallback True (s1\<lparr>srv_loop := l, srv_ipPort := ipPort, srv_name := nameArg,
               srv_pool := EventLoopThreadPool_ctor l nameArg,
               srv_hasConnectionCallback := False, srv_hasMessageCallback := False,
               srv_hasWriteCompleteCallback := False, srv_started := 0, srv_nextConnId := 1,
               srv_connections := Map.empty\<rparr>)))))"

text \<open>The setters; the argument of the first three says whether the given \<open>std::function\<close> is callable.\<close>

definition TcpServer_setConnectionCallback :: "bool \<Rightarrow> ('k, 'a) server_scheme \<Rightarrow> ('k, 'a) server_scheme" where
  "TcpServer_setConnectionCallback cb s = s\<lparr>srv_hasConnectionCallback := cb\<rparr>"

definition TcpServer_setMessageCallback :: "bool \<Rightarrow> ('k, 'a) server_scheme \<Rightarrow> ('k, 'a) server_scheme" where
  "TcpServer_setMessageCallback cb s = s\<lparr>srv_hasMessageCallback := cb\<rparr>"

definition TcpServer_setWriteCompleteCallback :: "bool \<Rightarrow> ('k, 'a) server_scheme \<Rightarrow> ('k, 'a) server_scheme" where
  "TcpServer_setWriteCompleteCallback cb s = s\<lparr>srv_hasWriteCompleteCallback := cb\<rparr>"

definition TcpServer_setThreadNum :: "int \<Rightarrow> ('k, 'a) server_scheme \<Rightarrow> ('k, 'a) server_scheme" where
  "TcpServer_setThreadNum numThreads s = s\<lparr>srv_pool := EventLoopThreadPool_setThreadNum numThreads (srv_pool s)\<rparr>"

definition TcpServer_start ::
    "'k kernel \<Rightarrow> int \<Rightarrow> (bytes \<Rightarrow> ('k, 'a) server_scheme \<Rightarrow> (loop \<times> ('k, 'a) server_scheme) res)
      \<Rightarrow> (loop \<Rightarrow> ('k, 'a) server_scheme \<Rightarrow> ('k, 'a) server_scheme res) option
      \<Rightarrow> ('k, 'a) server_scheme \<Rightarrow> ('k, 'a) server_scheme res" where
  "TcpServer_start K tid startLoop threadInitCallback s =
     (let s0 = s\<lparr>srv_started := int32 (srv_started s + 1)\<rparr>
      in if srv_started s = 0
         then rbind (EventLoopThreadPool_start startLoop threadInitCallback (srv_pool s0) s0) (\<lambda>(p, s1).
                let s2 = s1\<lparr>srv_pool := p\<rparr>
                in EventLoop_runInLoop K tid (srv_loop s2) F_Acceptor_listen (Acceptor_listen K) s2)
         else Inr s0)"

text \<open>The name of the next connection: the server's name and at most 63 characters of the format.\<close>

definition server_connName :: "bytes \<Rightarrow> bytes \<Rightarrow> int \<Rightarrow> bytes" where
  "server_connName name ipPort i = name @ snprintf_to 64 (''-'' @ c_str ipPort @ ''#'' @ show_int i)"

definition newConnection_localAddr ::
    "'k kernel \<Rightarrow> fd \<Rightarrow> ('k, 'a) world_scheme \<Rightarrow> sockaddr_in \<times> ('k, 'a) world_scheme" where
  "newConnection_localAddr K sockfd w =
     (case sys_getsockname K sockfd (kern w) of
        (Inr a, k') \<Rightarrow> (InetAddress_ofSockAddr a, w\<lparr>kern := k'\<rparr>)
      | (Inl e, k') \<Rightarrow> (InetAddress_ofSockAddr \<lparr>sin_port = 0, s_addr = 0\<rparr>,
                       log_error ''sockets::getLocalAddr() failed'' (w\<lparr>kern := k'\<rparr>)))"

definition TcpServer_newConnection ::
    "'k kernel \<Rightarrow> ('k, 'a) server_scheme callbacks \<Rightarrow> int \<Rightarrow> conn \<Rightarrow> chan \<Rightarrow> fd \<Rightarrow> sockaddr_in
      \<Rightarrow> ('k, 'a) server_scheme \<Rightarrow> ('k, 'a) server_scheme res" where
  "TcpServer_newConnection K U tid c ch sockfd peerAddr s =
     rbind (EventLoopThreadPool_getNextLoop (srv_pool s)) (\<lambda>(ioLoop, p).
     let s1 = s\<lparr>srv_pool := p\<rparr>;
         connName = server_connName (srv_name s1) (srv_ipPort s1) (srv_nextConnId s1)
     in if srv_nextConnId s1 = INT_MAX then Inl SignedOverflow
        else (case newConnection_localAddr K sockfd (s1\<lparr>srv_nextConnId := srv_nextConnId s1 + 1\<rparr>) of (localAddr, s2) \<Rightarrow>
          rbind (TcpConnection_ctor K (Some ioLoop) connName sockfd localAddr peerAddr c ch s2) (\<lambda>s3.
            let s4 = s3\<lparr>srv_connections := (srv_connections s3)(connName \<mapsto> c)\<rparr>;
                s5 = upd_conn c (\<lambda>cn. TcpConnection_setCloseCallback True
                       (TcpConnection_setWriteCompleteCallback (srv_hasWriteCompleteCallback s4)
                       (TcpConnection_setMessageCallback (srv_hasMessageCallback s4)
                       (TcpConnection_setConnectionCallback (srv_hasConnectionCallback s4) cn)))) s4
            in EventLoop_runInLoop K tid ioLoop (F_connectEstablished c) (TcpConnection_connectEstablished K U c) s5)))"

definition TcpServer_removeConnectionInLoop ::
    "'k kernel \<Rightarrow> int \<Rightarrow> conn \<Rightarrow> ('k, 'a) server_scheme \<Rightarrow> ('k, 'a) server_scheme res" where
  "TcpServer_removeConnectionInLoop K tid c s =
     (let s1 = s\<lparr>srv_connections := (srv_connections s)(conn_name (conns s c) := None)\<rparr>
      in Inr (EventLoop_queueInLoop K tid (conn_loop (conns s1 c)) (F_connectDestroyed c) s1))"

definition TcpServer_removeConnection ::
    "'k kernel \<Rightarrow> int \<Rightarrow> conn \<Rightarrow> ('k, 'a) server_scheme \<Rightarrow> ('k, 'a) server_scheme res" where
  "TcpServer_removeConnection K tid c s =
     EventLoop_runInLoop K tid (srv_loop s) (F_removeConnectionInLoop c) (TcpServer_removeConnectionInLoop K tid c) s"

text \<open>
  The destructor's body; \<open>order\<close> lists the names in the iteration order of the hash table. The
  shared pointers are reset, so that the table holds no connection afterwards; the entries with a null pointer that stay behind until
  the table itself is destroyed are left out of it here.
\<close>

definition TcpServer_dtor ::
    "'k kernel \<Rightarrow> ('k, 'a) server_scheme callbacks \<Rightarrow> int \<Rightarrow> bytes list
      \<Rightarrow> ('k, 'a) server_scheme \<Rightarrow> ('k, 'a) server_scheme res" where
  "TcpServer_dtor K U tid order s =
     res_iter (\<lambda>name s1. case srv_connections s1 name of
         None \<Rightarrow> Inl NullDeref
       | Some c \<Rightarrow> EventLoop_runInLoop K tid (conn_loop (conns s1 c)) (F_connectDestroyed c)
           (TcpConnection_connectDestroyed K U c) (s1\<lparr>srv_connections := (srv_connections s1)(name := None)\<rparr>)) order s"


section \<open>What the event loops run\<close>

text \<open>
  The user's callbacks with the close callback that \<open>newConnection\<close> binds, and the two callbacks
  that connections queue as functors.
\<close>

definition server_callbacks ::
    "'k kernel \<Rightarrow> int \<Rightarrow> ('k, 'a) server_scheme callbacks \<Rightarrow> ('k, 'a) server_scheme callbacks" where
  "server_callbacks K tid U = U\<lparr>closeCallback := TcpServer_removeConnection K tid\<rparr>"

fun Server_exec ::
    "'k kernel \<Rightarrow> ('k, 'a) server_scheme callbacks
      \<Rightarrow> (conn \<Rightarrow> ('k, 'a) server_scheme \<Rightarrow> ('k, 'a) server_scheme res)
      \<Rightarrow> (conn \<Rightarrow> nat \<Rightarrow> ('k, 'a) server_scheme \<Rightarrow> ('k, 'a) server_scheme res)
      \<Rightarrow> int \<Rightarrow> Functor \<Rightarrow> ('k, 'a) server_scheme \<Rightarrow> ('k, 'a) server_scheme res" where
  "Server_exec K U wc hw tid (F_connectEstablished c) s =
     TcpConnection_connectEstablished K (server_callbacks K tid U) c s"
| "Server_exec K U wc hw tid (F_connectDestroyed c) s =
     TcpConnection_connectDestroyed K (server_callbacks K tid U) c s"
| "Server_exec K U wc hw tid (F_sendInLoop_ptr c p len) s = sendInLoop_ptr K tid c p len s"
| "Server_exec K U wc hw tid (F_sendInLoop_str c xs) s = TcpConnection_sendInLoop K tid c xs s"
| "Server_exec K U wc hw tid (F_shutdownInLoop c) s = TcpConnection_shutdownInLoop K c s"
| "Server_exec K U wc hw tid (F_writeComplete c) s = wc c s"
| "Server_exec K U wc hw tid (F_highWaterMark c n) s = hw c n s"
| "Server_exec K U wc hw tid (F_removeConnectionInLoop c) s = TcpServer_removeConnectionInLoop K tid c s"
| "Server_exec K U wc hw tid F_Acceptor_listen s = Acceptor_listen K s"

fun Server_call ::
    "'k kernel \<Rightarrow> ('k, 'a) server_scheme callbacks \<Rightarrow> (('k, 'a) server_scheme \<Rightarrow> conn \<times> chan)
      \<Rightarrow> int \<Rightarrow> int \<Rightarrow> handler \<Rightarrow> ('k, 'a) server_scheme \<Rightarrow> ('k, 'a) server_scheme res" where
  "Server_call K U alloc tid now (H_EventLoop_handleRead l) s = Inr (EventLoop_handleRead K l s)"
| "Server_call K U alloc tid now H_Acceptor_handleRead s =
     Acceptor_handleRead K (\<lambda>sockfd peerAddr s1. case alloc s1 of (c, ch) \<Rightarrow>
       TcpServer_newConnection K (server_callbacks K tid U) tid c ch sockfd peerAddr s1) s"
| "Server_call K U alloc tid now (H_TcpConnection_handleRead c) s =
     TcpConnection_handleRead K (server_callbacks K tid U) c now s"
| "Server_call K U alloc tid now (H_TcpConnection_handleWrite c) s = TcpConnection_handleWrite K tid c s"
| "Server_call K U alloc tid now (H_TcpConnection_handleClose c) s =
     TcpConnection_handleClose K (server_callbacks K tid U) c s"
| "Server_call K U alloc tid now (H_TcpConnection_handleError c) s = TcpConnection_handleError K c s"

section \<open>Names of connections\<close>

text \<open>
  The interface between the server and its user: the connection callback may do what it likes with
  connections, channels and loops, but it does not rename a connection and does not touch the
  server's members.
\<close>

definition keeps_server :: "('k, 'a) world_scheme \<Rightarrow> ('k, 'a) world_scheme \<Rightarrow> bool" where
  "keeps_server w w' \<longleftrightarrow> world.more w' = world.more w \<and> (\<forall>c. conn_name (conns w' c) = conn_name (conns w c))"

definition pool_wf :: "pool \<Rightarrow> bool" where
  "pool_wf p \<longleftrightarrow> pool_next p < max 1 (length (pool_loops p))"

definition server_inv :: "('k, 'a) server_scheme \<Rightarrow> bool" where
  "server_inv s \<longleftrightarrow> length (c_str (srv_ipPort s)) \<le> 21 \<and> 0 < srv_nextConnId s \<and> srv_nextConnId s \<le> INT_MAX \<and>
     pool_wf (srv_pool s) \<and>
     (\<forall>n c. srv_connections s n = Some c \<longrightarrow> conn_name (conns s c) = n \<and>
        (\<exists>i. 0 < i \<and> i < srv_nextConnId s \<and> n = server_connName (srv_name s) (srv_ipPort s) i))"

lemma getNextLoop_wf:
  assumes "EventLoopThreadPool_getNextLoop p = Inr (l, p')" "pool_wf p"
  shows "pool_wf p'"
proof -
  have "pool_ok p" using assms(2) by (cases "pool_loops p") (auto simp: pool_ok_def pool_wf_def)
  from getNextLoop_ok [OF this] show ?thesis
    using assms by (cases "pool_loops p = []") (auto simp: pool_wf_def less_max_iff_disj)
qed

lemma keeps_server_refl [simp]: "keeps_server w w"
  by (simp add: keeps_server_def)

lemma keeps_server_trans: "keeps_server u v \<Longrightarrow> keeps_server v w \<Longrightarrow> keeps_server u w"
  by (simp add: keeps_server_def)

lemma more_server_fields:
  fixes s s' :: "('k, 'a) server_scheme"
  assumes "world.more s' = world.more s"
  shows "srv_connections s' = srv_connections s" "srv_nextConnId s' = srv_nextConnId s" "srv_pool s' = srv_pool s"
    "srv_name s' = srv_name s" "srv_ipPort s' = srv_ipPort s" "srv_loop s' = srv_loop s"
proof -
  have "s' = s\<lparr>kern := kern s', chans := chans s', loops := loops s', conns := conns s', strings := strings s',
      t_loopInThisThread := t_loopInThisThread s', error_log := error_log s'\<rparr>" (is "_ = ?s")
    by (rule world.equality) (simp_all add: assms)
  moreover have "srv_connections ?s = srv_connections s" "srv_nextConnId ?s = srv_nextConnId s" "srv_pool ?s = srv_pool s"
    "srv_name ?s = srv_name s" "srv_ipPort ?s = srv_ipPort s" "srv_loop ?s = srv_loop s"
    by simp_all
  ultimately show "srv_connections s' = srv_connections s" "srv_nextConnId s' = srv_nextConnId s" "srv_pool s' = srv_pool s"
    "srv_name s' = srv_name s" "srv_ipPort s' = srv_ipPort s" "srv_loop s' = srv_loop s"
    by metis+
qed

lemma more_server_flags:
  fixes s s' :: "('k, 'a) server_scheme"
  assumes "world.more s' = world.more s"
  shows "acc_fd s' = acc_fd s" "acc_chan s' = acc_chan s" "acc_hasNewConnectionCallback s' = acc_hasNewConnectionCallback s"
    "srv_hasConnectionCallback s' = srv_hasConnectionCallback s" "srv_hasMessageCallback s' = srv_hasMessageCallback s"
    "srv_hasWriteCompleteCallback s' = srv_hasWriteCompleteCallback s"
proof -
  have "s' = s\<lparr>kern := kern s', chans := chans s', loops := loops s', conns := conns s', strings := strings s',
      t_loopInThisThread := t_loopInThisThread s', error_log := error_log s'\<rparr>" (is "_ = ?s")
    by (rule world.equality) (simp_all add: assms)
  moreover have "acc_fd ?s = acc_fd s" "acc_chan ?s = acc_chan s" "acc_hasNewConnectionCallback ?s = acc_hasNewConnectionCallback s"
    "srv_hasConnectionCallback ?s = srv_hasConnectionCallback s" "srv_hasMessageCallback ?s = srv_hasMessageCallback s"
    "srv_hasWriteCompleteCallback ?s = srv_hasWriteCompleteCallback s"
    by simp_all
  ultimately show "acc_fd s' = acc_fd s" "acc_chan s' = acc_chan s" "acc_hasNewConnectionCallback s' = acc_hasNewConnectionCallback s"
    "srv_hasConnectionCallback s' = srv_hasConnectionCallback s" "srv_hasMessageCallback s' = srv_hasMessageCallback s"
    "srv_hasWriteCompleteCallback s' = srv_hasWriteCompleteCallback s"
    by metis+
qed

lemma keeps_server_inv: "keeps_server s s' \<Longrightarrow> server_inv s \<Longrightarrow> server_inv s'"
proof -
  assume k: "keeps_server s s'"
  then have "world.more s' = world.more s" by (simp add: keeps_server_def)
  note more_server_fields [OF this]
  then show "server_inv s \<Longrightarrow> server_inv s'" using k by (simp add: keeps_server_def server_inv_def)
qed

lemma length_show_connId: "0 < i \<Longrightarrow> i \<le> INT_MAX \<Longrightarrow> length (show_int i) \<le> 10"
  using length_show_nat_le [of "nat i" 9] by (simp add: show_int_def limit_defs)

lemma server_connName_full:
  assumes "length (c_str ip) \<le> 21" "0 < i" "i \<le> INT_MAX"
  shows "server_connName nm ip i = nm @ ''-'' @ c_str ip @ ''#'' @ show_int i"
  using assms(1) length_show_connId [OF assms(2,3)] by (simp add: server_connName_def snprintf_to_def)

lemma server_connName_inject:
  assumes "length (c_str ip) \<le> 21" "0 < i" "i \<le> INT_MAX" "0 < j" "j \<le> INT_MAX"
  shows "server_connName nm ip i = server_connName nm ip j \<longleftrightarrow> i = j"
  using assms by (simp add: server_connName_full)

lemma next_connName_free:
  assumes "server_inv s"
  shows "srv_connections s (server_connName (srv_name s) (srv_ipPort s) (srv_nextConnId s)) = None"
proof (rule ccontr)
  assume "srv_connections s (server_connName (srv_name s) (srv_ipPort s) (srv_nextConnId s)) \<noteq> None"
  then obtain i where "0 < i" "i < srv_nextConnId s"
    "server_connName (srv_name s) (srv_ipPort s) (srv_nextConnId s) = server_connName (srv_name s) (srv_ipPort s) i"
    using assms by (auto simp: server_inv_def)
  then show False using assms by (auto simp: server_inv_def server_connName_inject)
qed

lemma queueInLoop_keeps [simp]: "keeps_server w (EventLoop_queueInLoop K tid l F w)"
  by (simp add: keeps_server_def queue_defs EventLoop_wakeup_def split: prod.split)

lemma queueInLoop_pending [simp]:
  "pendingFunctors (loops (EventLoop_queueInLoop K tid l F w) l) = pendingFunctors (loops w l) @ [F]"
  by (simp add: queue_defs EventLoop_wakeup_def split: prod.split)

lemma Channel_update_keeps: "Channel_update K ch w = Inr w' \<Longrightarrow> keeps_server w w'"
  by (auto simp: keeps_server_def Channel_update_def EventLoop_updateChannel_def EpollPoller_updateChannel_def
      Let_def rbind_eq_Inr_iff elim!: EpollPoller_update_cases split: if_splits)

lemma newConnection_localAddr_keeps: "newConnection_localAddr K f w = (a, w') \<Longrightarrow> keeps_server w w'"
  by (auto simp: newConnection_localAddr_def keeps_server_def split: prod.splits sum.splits)

locale server_user =
  fixes K :: "'k kernel" and U :: "('k, 'a) server_scheme callbacks"
  assumes connection_keeps: "connectionCallback U c w = Inr w' \<Longrightarrow> keeps_server w w'"
begin

lemma connectEstablished_keeps:
  assumes "TcpConnection_connectEstablished K U c w = Inr w'"
  shows "keeps_server w w'"
proof -
  let ?w2 = "upd_chan (conn_channel (conns w c)) (Channel_tie c) (TcpConnection_setState kConnected c w)"
  obtain w3 where w3: "Channel_enableReading K (conn_channel (conns w c)) ?w2 = Inr w3" "connectionCallback U c w3 = Inr w'"
    using assms by (auto simp: TcpConnection_connectEstablished_def TcpConnection_setState_def call_connection_def
        Let_def rbind_eq_Inr_iff split: if_splits)
  have "keeps_server w ?w2" by (simp add: keeps_server_def TcpConnection_setState_def)
  moreover have "keeps_server ?w2 w3"
    using Channel_update_keeps [of K "conn_channel (conns w c)" _ w3] w3(1)
    by (fastforce simp: Channel_enableReading_def keeps_server_def)
  ultimately show ?thesis using connection_keeps [OF w3(2)] by (blast intro: keeps_server_trans)
qed

lemma runInLoop_connectEstablished_keeps:
  "EventLoop_runInLoop K tid l F (TcpConnection_connectEstablished K U c) w = Inr w' \<Longrightarrow> keeps_server w w'"
  by (auto simp: EventLoop_runInLoop_def connectEstablished_keeps split: if_splits)

end

text \<open>
  What \<open>newConnection\<close> has prepared when it hands the connection to its loop: an entry in the
  table, a connection object with the chosen name and loop, and nothing else changed.
\<close>

definition prepared ::
    "loop \<Rightarrow> pool \<Rightarrow> conn \<Rightarrow> fd \<Rightarrow> ('k, 'a) server_scheme \<Rightarrow> ('k, 'a) server_scheme \<Rightarrow> bool" where
  "prepared l p c sockfd s s5 \<longleftrightarrow>
     (let name = server_connName (srv_name s) (srv_ipPort s) (srv_nextConnId s)
      in srv_connections s5 = (srv_connections s)(name \<mapsto> c) \<and> srv_nextConnId s5 = srv_nextConnId s + 1 \<and>
         srv_pool s5 = p \<and> srv_name s5 = srv_name s \<and> srv_ipPort s5 = srv_ipPort s \<and>
         conn_name (conns s5 c) = name \<and> conn_loop (conns s5 c) = l \<and> conn_sockfd (conns s5 c) = sockfd \<and>
         conn_state (conns s5 c) = kConnecting \<and> conn_hasCloseCallback (conns s5 c) \<and>
         (\<forall>d. d \<noteq> c \<longrightarrow> conns s5 d = conns s d) \<and> loops s5 = loops s)"

lemma newConnection_localAddr_frame:
  assumes "newConnection_localAddr K f s = (a, s')"
  shows "conns s' = conns s" "loops s' = loops s" "world.more s' = world.more s"
  using assms by (auto simp: newConnection_localAddr_def split: prod.splits sum.splits)

lemma newConnection_prepared:
  assumes "TcpServer_newConnection K U tid c ch sockfd peerAddr s = Inr s'"
  obtains l p s5 where "EventLoopThreadPool_getNextLoop (srv_pool s) = Inr (l, p)" "srv_nextConnId s \<noteq> INT_MAX"
    "prepared l p c sockfd s s5"
    "EventLoop_runInLoop K tid l (F_connectEstablished c) (TcpConnection_connectEstablished K U c) s5 = Inr s'"
proof -
  let ?name = "server_connName (srv_name s) (srv_ipPort s) (srv_nextConnId s)"
  obtain l p where lp: "EventLoopThreadPool_getNextLoop (srv_pool s) = Inr (l, p)" "srv_nextConnId s \<noteq> INT_MAX"
    using assms by (auto simp: TcpServer_newConnection_def rbind_eq_Inr_iff Let_def split: if_splits)
  let ?s1 = "s\<lparr>srv_pool := p, srv_nextConnId := srv_nextConnId s + 1\<rparr>"
  obtain a s2 where s2: "newConnection_localAddr K sockfd ?s1 = (a, s2)" by fastforce
  note frame = newConnection_localAddr_frame(1,2) [OF s2] more_server_fields [OF newConnection_localAddr_frame(3) [OF s2]]
  obtain s3 where s3: "TcpConnection_ctor K (Some l) ?name sockfd a peerAddr c ch s2 = Inr s3"
    using assms lp s2 by (auto simp: TcpServer_newConnection_def rbind_eq_Inr_iff Let_def)
  let ?s4 = "s3\<lparr>srv_connections := (srv_connections s3)(?name \<mapsto> c)\<rparr>"
  let ?s5 = "upd_conn c (\<lambda>cn. cn\<lparr>conn_hasConnectionCallback := srv_hasConnectionCallback ?s4,
                       conn_hasMessageCallback := srv_hasMessageCallback ?s4,
                       conn_hasWriteCompleteCallback := srv_hasWriteCompleteCallback ?s4,
                       conn_hasCloseCallback := True\<rparr>) ?s4"
  have run: "EventLoop_runInLoop K tid l (F_connectEstablished c) (TcpConnection_connectEstablished K U c) ?s5 = Inr s'"
    using assms lp s2 s3 by (simp add: TcpServer_newConnection_def Let_def)
  have "prepared l p c sockfd s ?s5"
    using s3 frame by (auto simp: prepared_def TcpConnection_ctor_def CheckLoopNotNull_def Socket_setKeepAlive_def
        rbind_eq_Inr_iff Let_def)
  then show thesis using that lp run by blast
qed

lemma Buffer_ctor_InitialSize: obtains b where "Buffer_ctor InitialSize = Inr b"
  using Buffer_ctor_ok [of InitialSize] by (auto simp: InitialSize_def InitialPrependSize_def limit_defs)

lemma newConnection_queues:
  assumes "EventLoopThreadPool_getNextLoop (srv_pool s) = Inr (l, p)" "srv_nextConnId s < INT_MAX" "threadId (loops s l) \<noteq> tid"
  shows "\<exists>s'. TcpServer_newConnection K U tid c ch sockfd peerAddr s = Inr s'"
proof -
  obtain b where b: "Buffer_ctor InitialSize = Inr b" by (rule Buffer_ctor_InitialSize)
  obtain a s2 where s2: "newConnection_localAddr K sockfd (s\<lparr>srv_pool := p, srv_nextConnId := srv_nextConnId s + 1\<rparr>) = (a, s2)"
    by fastforce
  then have "loops s2 = loops s" using newConnection_localAddr_frame(2) by fastforce
  then show ?thesis
    using assms s2 b by (simp add: TcpServer_newConnection_def Let_def TcpConnection_ctor_def CheckLoopNotNull_def
        Socket_setKeepAlive_def EventLoop_runInLoop_def EventLoop_isInLoopThread_def)
qed

lemma prepared_inv:
  assumes inv: "server_inv s" and pr: "prepared l p c sockfd s s5" and c: "c \<notin> ran (srv_connections s)"
    and p: "EventLoopThreadPool_getNextLoop (srv_pool s) = Inr (l, p)" and i: "srv_nextConnId s \<noteq> INT_MAX"
  shows "server_inv s5"
proof -
  have "pool_wf p" using getNextLoop_wf [OF p] inv by (simp add: server_inv_def)
  moreover have "conn_name (conns s5 d) = n \<and>
      (\<exists>i. 0 < i \<and> i < srv_nextConnId s + 1 \<and> n = server_connName (srv_name s) (srv_ipPort s) i)"
    if "srv_connections s5 n = Some d" for n d
  proof (cases "n = server_connName (srv_name s) (srv_ipPort s) (srv_nextConnId s)")
    case True
    then show ?thesis using that pr inv by (auto simp: prepared_def server_inv_def Let_def)
  next
    case False
    then have d: "srv_connections s n = Some d" using that pr by (simp add: prepared_def Let_def)
    then have "d \<noteq> c" using c by (auto simp: ran_def)
    then have "conns s5 d = conns s d" using pr by (simp add: prepared_def Let_def)
    moreover obtain i where "conn_name (conns s d) = n" "0 < i" "i < srv_nextConnId s"
      "n = server_connName (srv_name s) (srv_ipPort s) i"
      using d inv by (auto simp: server_inv_def)
    ultimately show ?thesis by (metis less_add_one less_trans)
  qed
  ultimately show ?thesis using pr inv i by (simp add: server_inv_def prepared_def Let_def)
qed

lemma removeConnectionInLoop_inv:
  assumes "TcpServer_removeConnectionInLoop K tid c s = Inr s'" "server_inv s"
  shows "server_inv s'"
proof -
  let ?s1 = "s\<lparr>srv_connections := (srv_connections s)(conn_name (conns s c) := None)\<rparr>"
  have "server_inv ?s1" using assms(2) by (simp add: server_inv_def)
  moreover have "keeps_server ?s1 s'" using assms(1) by (auto simp: TcpServer_removeConnectionInLoop_def)
  ultimately show ?thesis using keeps_server_inv by blast
qed

text \<open>
  Starting the server: creating the loop threads and the initialisation callback do not touch the
  server's members either.
\<close>

definition startLoop_keeps :: "(bytes \<Rightarrow> ('k, 'a) world_scheme \<Rightarrow> (loop \<times> ('k, 'a) world_scheme) res) \<Rightarrow> bool" where
  "startLoop_keeps startLoop \<longleftrightarrow> (\<forall>n w l w'. startLoop n w = Inr (l, w') \<longrightarrow> keeps_server w w')"

definition init_keeps :: "(loop \<Rightarrow> ('k, 'a) world_scheme \<Rightarrow> ('k, 'a) world_scheme res) option \<Rightarrow> bool" where
  "init_keeps cb \<longleftrightarrow> (\<forall>f l w w'. cb = Some f \<longrightarrow> f l w = Inr w' \<longrightarrow> keeps_server w w')"

lemma pool_start_threads_ok:
  "pool_start_threads startLoop is p w = Inr (p', w') \<Longrightarrow> startLoop_keeps startLoop \<Longrightarrow> pool_wf p \<Longrightarrow>
     pool_wf p' \<and> keeps_server w w'"
proof (induction "is" arbitrary: p w)
  case (Cons i "is")
  then obtain l w1 where w1: "startLoop (pool_thread_name p i) w = Inr (l, w1)"
    "pool_start_threads startLoop is (p\<lparr>pool_threads := pool_threads p @ [pool_thread_name p i],
       pool_loops := pool_loops p @ [l]\<rparr>) w1 = Inr (p', w')"
    by (auto simp: rbind_eq_Inr_iff)
  moreover have "keeps_server w w1" using w1(1) Cons.prems(2) by (auto simp: startLoop_keeps_def)
  ultimately show ?case
    using Cons.IH [OF w1(2) Cons.prems(2)] Cons.prems(3) by (auto simp: pool_wf_def intro: keeps_server_trans)
qed simp

lemma EventLoopThreadPool_start_ok:
  assumes "EventLoopThreadPool_start startLoop cb p w = Inr (p', w')" "startLoop_keeps startLoop" "init_keeps cb" "pool_wf p"
  shows "pool_wf p' \<and> keeps_server w w'"
proof -
  obtain w1 where w1: "pool_start_threads startLoop [0..<nat (pool_numThreads p)] (p\<lparr>pool_started := True\<rparr>) w = Inr (p', w1)"
    "w' = w1 \<or> (\<exists>f. cb = Some f \<and> f (pool_baseLoop p') w1 = Inr w')"
    using assms(1) by (auto simp: EventLoopThreadPool_start_def rbind_eq_Inr_iff split: option.splits if_splits)
  have "keeps_server w1 w'" using w1(2) assms(3) by (auto simp: init_keeps_def)
  moreover have "pool_wf p' \<and> keeps_server w w1"
    using pool_start_threads_ok [OF w1(1) assms(2)] assms(4) by (simp add: pool_wf_def)
  ultimately show ?thesis by (blast intro: keeps_server_trans)
qed

lemma Acceptor_listen_inv:
  assumes "Acceptor_listen K s = Inr s'" "server_inv s"
  shows "server_inv s'"
proof -
  let ?s = "s\<lparr>acc_listenning := True\<rparr>"
  obtain s1 where s1: "Socket_listen K (acc_fd s) ?s = Inr s1" "Channel_enableReading K (acc_chan s1) s1 = Inr s'"
    using assms(1) by (auto simp: Acceptor_listen_def rbind_eq_Inr_iff)
  have "server_inv ?s" using assms(2) by (simp add: server_inv_def)
  moreover have "keeps_server ?s s1" using s1(1) by (auto simp: Socket_listen_def keeps_server_def split: prod.splits if_splits)
  moreover have "keeps_server s1 s'"
    using Channel_update_keeps [OF s1(2) [unfolded Channel_enableReading_def]] by (simp add: keeps_server_def)
  ultimately show ?thesis by (blast intro: keeps_server_inv)
qed

lemma TcpServer_start_inv:
  assumes "TcpServer_start K tid startLoop cb s = Inr s'" "startLoop_keeps startLoop" "init_keeps cb" "server_inv s"
  shows "server_inv s'"
proof -
  let ?s0 = "s\<lparr>srv_started := int32 (srv_started s + 1)\<rparr>"
  have inv0: "server_inv ?s0" using assms(4) by (simp add: server_inv_def)
  show ?thesis
  proof (cases "srv_started s = 0")
    case True
    then obtain p s1 where s1: "EventLoopThreadPool_start startLoop cb (srv_pool ?s0) ?s0 = Inr (p, s1)"
      "EventLoop_runInLoop K tid (srv_loop (s1\<lparr>srv_pool := p\<rparr>)) F_Acceptor_listen (Acceptor_listen K) (s1\<lparr>srv_pool := p\<rparr>) = Inr s'"
      using assms(1) by (auto simp: TcpServer_start_def Let_def rbind_eq_Inr_iff simp del: server.simps)
    have "pool_wf p \<and> keeps_server ?s0 s1"
      using EventLoopThreadPool_start_ok [OF s1(1) assms(2,3)] inv0 by (simp add: server_inv_def)
    then have "server_inv (s1\<lparr>srv_pool := p\<rparr>)" using keeps_server_inv [OF _ inv0] by (simp add: server_inv_def)
    then show ?thesis
      using s1(2) by (auto simp: EventLoop_runInLoop_def intro: Acceptor_listen_inv keeps_server_inv [OF queueInLoop_keeps]
          split: if_splits)
  next
    case False
    then show ?thesis using assms(1) inv0 by (simp add: TcpServer_start_def Let_def)
  qed
qed

lemma TcpServer_setters_inv:
  "server_inv s \<Longrightarrow> server_inv (TcpServer_setConnectionCallback b s)"
  "server_inv s \<Longrightarrow> server_inv (TcpServer_setMessageCallback b s)"
  "server_inv s \<Longrightarrow> server_inv (TcpServer_setWriteCompleteCallback b s)"
  "server_inv s \<Longrightarrow> server_inv (TcpServer_setThreadNum n s)"
  by (simp_all add: server_inv_def TcpServer_setConnectionCallback_def TcpServer_setMessageCallback_def
      TcpServer_setWriteCompleteCallback_def TcpServer_setThreadNum_def EventLoopThreadPool_setThreadNum_def pool_wf_def)

text \<open>
  What can happen to the server's table: the setters and the start, a new connection at a fresh
  address, the removal of a connection, and any other step, which keeps the server's members and the names.
\<close>

inductive server_reach ::
    "'k kernel \<Rightarrow> ('k, 'a) server_scheme callbacks \<Rightarrow> int \<Rightarrow> ('k, 'a) server_scheme \<Rightarrow> ('k, 'a) server_scheme \<Rightarrow> bool"
  for K U tid s0 where
  server_start: "server_reach K U tid s0 s0"
| server_new: "server_reach K U tid s0 s \<Longrightarrow> c \<notin> ran (srv_connections s) \<Longrightarrow>
    TcpServer_newConnection K U tid c ch sockfd peerAddr s = Inr s' \<Longrightarrow> server_reach K U tid s0 s'"
| server_remove: "server_reach K U tid s0 s \<Longrightarrow> TcpServer_removeConnectionInLoop K tid c s = Inr s' \<Longrightarrow>
    server_reach K U tid s0 s'"
| server_set: "server_reach K U tid s0 s \<Longrightarrow>
    s' \<in> {TcpServer_setConnectionCallback b s, TcpServer_setMessageCallback b s,
          TcpServer_setWriteCompleteCallback b s, TcpServer_setThreadNum n s} \<Longrightarrow> server_reach K U tid s0 s'"
| server_begin: "server_reach K U tid s0 s \<Longrightarrow> startLoop_keeps startLoop \<Longrightarrow> init_keeps threadInitCallback \<Longrightarrow>
    TcpServer_start K tid startLoop threadInitCallback s = Inr s' \<Longrightarrow> server_reach K U tid s0 s'"
| server_other: "server_reach K U tid s0 s \<Longrightarrow> keeps_server s s' \<Longrightarrow> server_reach K U tid s0 s'"

context server_user
begin

lemma newConnection_inv:
  assumes "TcpServer_newConnection K U tid c ch sockfd peerAddr s = Inr s'" "server_inv s" "c \<notin> ran (srv_connections s)"
  shows "server_inv s'"
  using newConnection_prepared [OF assms(1)] prepared_inv [OF assms(2) _ assms(3)]
    runInLoop_connectEstablished_keeps keeps_server_inv by metis

lemma server_reach_inv: "server_reach K U tid s0 s \<Longrightarrow> server_inv s0 \<Longrightarrow> server_inv s"
proof (induction rule: server_reach.induct)
  case (server_new s c ch sockfd peerAddr s')
  then show ?case using newConnection_inv by blast
next
  case (server_set s s' b n)
  then show ?case using TcpServer_setters_inv by blast
next
  case (server_begin s startLoop cb s')
  then show ?case using TcpServer_start_inv by blast
next
  case (server_remove s c s')
  then show ?case using removeConnectionInLoop_inv by blast
next
  case (server_other s s')
  then show ?case using keeps_server_inv by blast
qed

end

lemma TcpServer_ctor_inv:
  assumes "TcpServer_ctor K lp addr nm opt ch s = Inr s0"
  shows "server_inv s0"
proof -
  obtain t where t: "InetAddress_toIpPort addr = Inr t" "length t \<le> 21" using toIpPort_ok by blast
  have "length (c_str t) \<le> length t" by (simp add: c_str_def length_takeWhile_le)
  then show ?thesis
    using assms t by (auto simp: TcpServer_ctor_def rbind_eq_Inr_iff server_inv_def pool_wf_def
        EventLoopThreadPool_ctor_def limit_defs)
qed

lemma server_inv_inj:
  assumes "server_inv s"
  shows "inj_on (srv_connections s) (dom (srv_connections s))"
proof (rule inj_onI)
  fix m n
  assume "m \<in> dom (srv_connections s)" "srv_connections s m = srv_connections s n"
  then obtain c where "srv_connections s m = Some c" "srv_connections s n = Some c" by (metis domD)
  then show "m = n" using assms by (auto simp: server_inv_def)
qed


section \<open>A sample server\<close>

text \<open>
  A server on loop 0, whose acceptor has channel 2 on descriptor 3, constructed over the sample world.
  All loops belong to thread 100.
\<close>

definition sample_blank :: "ref_state server" where
  "sample_blank = \<lparr>kern = kern sample_world, chans = chans sample_world, loops = loops sample_world,
     conns = conns sample_world, strings = strings sample_world, t_loopInThisThread = t_loopInThisThread sample_world,
     error_log = [], acc_loop = 0, acc_fd = 3, acc_chan = 2, acc_hasNewConnectionCallback = True, acc_listenning = False,
     srv_loop = 0, srv_ipPort = [], srv_name = [], srv_pool = EventLoopThreadPool_ctor 0 [],
     srv_hasConnectionCallback = False, srv_hasMessageCallback = False, srv_hasWriteCompleteCallback = False,
     srv_started = 0, srv_nextConnId = 1, srv_connections = Map.empty\<rparr>"

definition sample_ctor :: "ref_state server res" where
  "sample_ctor = TcpServer_ctor ref_kernel (Some 0) (InetAddress_ctor 8080 ''127.0.0.1'') ''s'' kNoReusePort 2 sample_blank"

definition sample_server :: "ref_state server" where
  "sample_server = (case sample_ctor of Inr s \<Rightarrow> s | Inl e \<Rightarrow> sample_blank)"

lemmas ctor_defs = TcpServer_ctor_def CheckLoopNotNull_def Acceptor_ctor_def createNonblocking_def
  Socket_bindAddress_def Socket_setReusePort_def Socket_setReuseAddr_def

lemma createNonblocking_frame: "createNonblocking K w = Inr (f, w') \<Longrightarrow> \<exists>k'. w' = w\<lparr>kern := k'\<rparr>"
  by (auto simp: createNonblocking_def split: prod.splits sum.splits if_splits)

lemma Socket_bindAddress_frame: "Socket_bindAddress K f a w = Inr w' \<Longrightarrow> \<exists>k'. w' = w\<lparr>kern := k'\<rparr>"
  by (auto simp: Socket_bindAddress_def split: prod.splits if_splits)

lemma Acceptor_ctor_frame:
  assumes "Acceptor_ctor K l addr reuse ch s = Inr s1"
  shows "loops s1 = loops s" "conns s1 = conns s"
  using assms by (auto simp: Acceptor_ctor_def rbind_eq_Inr_iff Socket_setReusePort_def Socket_setReuseAddr_def
      dest!: createNonblocking_frame Socket_bindAddress_frame)

lemma ctor_fields:
  assumes "TcpServer_ctor K (Some l) addr nm opt ch s = Inr s0"
  shows "srv_pool s0 = EventLoopThreadPool_ctor l nm" "srv_nextConnId s0 = 1" "srv_connections s0 = Map.empty"
    "loops s0 = loops s" "srv_loop s0 = l" "conns s0 = conns s"
  using assms by (auto simp: TcpServer_ctor_def CheckLoopNotNull_def rbind_eq_Inr_iff Acceptor_ctor_frame)

lemma sample_server_ctor:
  "TcpServer_ctor ref_kernel (Some 0) (InetAddress_ctor 8080 ''127.0.0.1'') ''s'' kNoReusePort 2 sample_blank = Inr sample_server"
proof -
  obtain t where "InetAddress_toIpPort (InetAddress_ctor 8080 ''127.0.0.1'') = Inr t" using toIpPort_ok by blast
  then have "\<exists>s. TcpServer_ctor ref_kernel (Some 0) (InetAddress_ctor 8080 ''127.0.0.1'') ''s'' kNoReusePort 2 sample_blank = Inr s"
    by (simp add: ctor_defs ref_kernel_def)
  then show ?thesis by (elim exE) (simp add: sample_server_def sample_ctor_def)
qed

lemma sample_server_inv: "server_inv sample_server"
  using sample_server_ctor by (rule TcpServer_ctor_inv)

interpretation quiet_user: server_user K quiet_callbacks for K
  by unfold_locales (simp add: quiet_callbacks_def)


section \<open>Properties\<close>

text \<open>
  C18. Connection names are unique for the whole life of a server: after any sequence of starting
  it, accepting connections, removing connections and other steps of the program, every entry of
  the table is filed under the name of its connection, no connection has two entries, and the name
  that the next connection will get is not in use, so that no entry is ever overwritten. (The
  63 characters that the formatted suffix may have are always enough.)
\<close>

theorem TcpServer_names_unique:
  assumes "server_user U" "TcpServer_ctor K lp listenAddr nm opt ach w = Inr s0" "server_reach K U tid s0 s"
  shows "(\<forall>n c. srv_connections s n = Some c \<longrightarrow> conn_name (conns s c) = n) \<and>
    inj_on (srv_connections s) (dom (srv_connections s)) \<and>
    srv_connections s (server_connName (srv_name s) (srv_ipPort s) (srv_nextConnId s)) = None"
proof -
  have "server_inv s"
    using server_user.server_reach_inv [OF assms(1,3)] TcpServer_ctor_inv [OF assms(2)] by blast
  then show ?thesis
    using next_connName_free server_inv_inj by (auto simp: server_inv_def)
qed

lemma sample_server_kern: "kern sample_server = kern sample_world"
proof -
  obtain t where "InetAddress_toIpPort (InetAddress_ctor 8080 ''127.0.0.1'') = Inr t" using toIpPort_ok by blast
  moreover have "kern sample_blank = kern sample_world" by (simp add: sample_blank_def)
  ultimately show ?thesis by (simp add: sample_server_def sample_ctor_def ctor_defs ref_kernel_def)
qed

lemmas sample_fields = ctor_fields [OF sample_server_ctor]

lemma sample_server_loop: "loops sample_blank l = sample_loop"
  by (simp add: sample_blank_def sample_world_def)

definition sample_ready :: "ref_state server" where
  "sample_ready = TcpServer_setConnectionCallback True sample_server"

lemma sample_newConnection:
  "\<exists>s'. TcpServer_newConnection ref_kernel quiet_callbacks 100 5 5 8 sample_addr sample_ready = Inr s'"
proof -
  obtain b where b: "Buffer_ctor InitialSize = Inr b" by (rule Buffer_ctor_InitialSize)
  have "rk_interest (kern sample_world) 4 8 = None" by (simp add: sample_defs)
  then show ?thesis
    by (simp add: TcpServer_newConnection_def sample_ready_def TcpServer_setConnectionCallback_def sample_fields
        sample_server_kern sample_server_loop EventLoopThreadPool_getNextLoop_def EventLoopThreadPool_ctor_def Let_def
        limit_defs newConnection_localAddr_def ref_kernel_def TcpConnection_ctor_def CheckLoopNotNull_def
        Socket_setKeepAlive_def EventLoop_runInLoop_def EventLoop_isInLoopThread_def
        sample_loop_def TcpConnection_connectEstablished_def TcpConnection_setState_def Channel_enableReading_def
        Channel_update_def EventLoop_updateChannel_def EpollPoller_updateChannel_def EpollPoller_update_def
        Channel_ctor_def Channel_tie_def kNew_def kAdded_def kDeleted_def ref_epoll_ctl_def call_connection_def quiet_callbacks_def
        b)
qed

theorem TcpServer_names_unique_witness:
  "\<exists>s. TcpServer_newConnection ref_kernel quiet_callbacks 100 5 5 8 sample_addr sample_ready = Inr s \<and>
     (\<forall>n c. srv_connections s n = Some c \<longrightarrow> conn_name (conns s c) = n) \<and>
     inj_on (srv_connections s) (dom (srv_connections s)) \<and>
     srv_connections s (server_connName (srv_name s) (srv_ipPort s) (srv_nextConnId s)) = None"
proof -
  obtain s where s: "TcpServer_newConnection ref_kernel quiet_callbacks 100 5 5 8 sample_addr sample_ready = Inr s"
    using sample_newConnection by blast
  have "server_reach ref_kernel quiet_callbacks 100 sample_server sample_ready"
    by (rule server_set [OF server_start, where b = True]) (simp add: sample_ready_def)
  then have "server_reach ref_kernel quiet_callbacks 100 sample_server s"
    by (rule server_new [OF _ _ s]) (simp add: sample_ready_def TcpServer_setConnectionCallback_def sample_fields)
  from TcpServer_names_unique [OF quiet_user.server_user_axioms sample_server_ctor this] s
  show ?thesis by blast
qed

text \<open>
  A new connection is dispatched to the next loop of the round robin. When that loop runs in
  another thread, \<open>newConnection\<close> files the connection under a name that was free, creates it in
  the state \<open>kConnecting\<close> with that loop, and queues exactly one functor there, which will
  establish the connection in the loop's own thread; nothing else is queued anywhere. It can only
  fail by exhausting the connection numbers.
\<close>

theorem TcpServer_newConnection_dispatch:
  assumes "server_inv s" "srv_nextConnId s < INT_MAX" "c \<notin> ran (srv_connections s)"
    and "l = EventLoopThreadPool_getAllLoops (srv_pool s) ! (if pool_loops (srv_pool s) = [] then 0 else pool_next (srv_pool s))"
    and "threadId (loops s l) \<noteq> tid"
  shows "\<exists>s'. TcpServer_newConnection K U tid c ch sockfd peerAddr s = Inr s' \<and> server_inv s' \<and>
    srv_connections s (conn_name (conns s' c)) = None \<and>
    srv_connections s' = (srv_connections s)(conn_name (conns s' c) \<mapsto> c) \<and>
    conn_loop (conns s' c) = l \<and> conn_sockfd (conns s' c) = sockfd \<and> conn_state (conns s' c) = kConnecting \<and>
    pendingFunctors (loops s' l) = pendingFunctors (loops s l) @ [F_connectEstablished c] \<and>
    (\<forall>l'. l' \<noteq> l \<longrightarrow> loops s' l' = loops s l')"
proof -
  have "pool_ok (srv_pool s)" using assms(1) by (cases "pool_loops (srv_pool s)") (auto simp: server_inv_def pool_wf_def pool_ok_def)
  from getNextLoop_ok [OF this] obtain p where
    p: "EventLoopThreadPool_getNextLoop (srv_pool s) = Inr (l, p)" using assms(4) by auto
  have "\<exists>s'. TcpServer_newConnection K U tid c ch sockfd peerAddr s = Inr s'"
    using newConnection_queues [OF p] assms(2,5) by blast
  then obtain s' s5 where s': "TcpServer_newConnection K U tid c ch sockfd peerAddr s = Inr s'" "prepared l p c sockfd s s5"
    "EventLoop_runInLoop K tid l (F_connectEstablished c) (TcpConnection_connectEstablished K U c) s5 = Inr s'"
    using p by (metis newConnection_prepared Inr_inject Pair_inject)
  then have q: "s' = EventLoop_queueInLoop K tid l (F_connectEstablished c) s5"
    using assms(5) by (simp add: EventLoop_runInLoop_def EventLoop_isInLoopThread_def prepared_def Let_def)
  have k: "keeps_server s5 s'" using q by simp
  then have "server_inv s'" using prepared_inv [OF assms(1) s'(2) assms(3) p] assms(2) keeps_server_inv by fastforce
  moreover have "srv_connections s' = srv_connections s5" using k more_server_fields by (auto simp: keeps_server_def)
  moreover have "conns s' = conns s5" using q by simp
  moreover have "loops s' = (loops s5)(l := (loops s5 l)\<lparr>pendingFunctors := pendingFunctors (loops s5 l) @ [F_connectEstablished c]\<rparr>)"
    using q by (simp add: queue_defs EventLoop_wakeup_def split: prod.split)
  ultimately show ?thesis
    using s'(1,2) next_connName_free [OF assms(1)] by (auto simp: prepared_def Let_def)
qed

theorem TcpServer_newConnection_dispatch_witness:
  "\<exists>s'. TcpServer_newConnection ref_kernel quiet_callbacks 7 5 5 8 sample_addr sample_server = Inr s' \<and> server_inv s' \<and>
    srv_connections sample_server (conn_name (conns s' 5)) = None \<and>
    srv_connections s' = (srv_connections sample_server)(conn_name (conns s' 5) \<mapsto> 5) \<and>
    conn_loop (conns s' 5) = 0 \<and> conn_sockfd (conns s' 5) = 8 \<and> conn_state (conns s' 5) = kConnecting \<and>
    pendingFunctors (loops s' 0) = pendingFunctors (loops sample_server 0) @ [F_connectEstablished 5] \<and>
    (\<forall>l'. l' \<noteq> 0 \<longrightarrow> loops s' l' = loops sample_server l')"
  by (rule TcpServer_newConnection_dispatch [OF sample_server_inv])
    (simp_all add: sample_fields sample_server_loop sample_loop_def limit_defs EventLoopThreadPool_getAllLoops_def
      EventLoopThreadPool_ctor_def)

text \<open>
  Closing crosses two threads. In the connection's thread \<open>removeConnection\<close> leaves the table
  alone and queues the removal to the server's loop; when the server's thread executes it, exactly
  this connection's entry disappears, no other entry refers to the connection, and its destruction
  is queued to the connection's own loop, after whatever is pending there.
\<close>

theorem TcpServer_close_handoff:
  assumes "server_inv s" "srv_connections s n = Some c"
    and "threadId (loops s (srv_loop s)) \<noteq> tid"
  shows "(\<exists>s1. TcpServer_removeConnection K tid c s = Inr s1 \<and> srv_connections s1 = srv_connections s \<and>
      pendingFunctors (loops s1 (srv_loop s)) = pendingFunctors (loops s (srv_loop s)) @ [F_removeConnectionInLoop c]) \<and>
    (\<exists>s2. Server_exec K U wc hw tid' (F_removeConnectionInLoop c) s = Inr s2 \<and>
      srv_connections s2 = (srv_connections s)(n := None) \<and> c \<notin> ran (srv_connections s2) \<and>
      pendingFunctors (loops s2 (conn_loop (conns s c))) = pendingFunctors (loops s (conn_loop (conns s c))) @ [F_connectDestroyed c])"
proof
  let ?s1 = "EventLoop_queueInLoop K tid (srv_loop s) (F_removeConnectionInLoop c) s"
  have "keeps_server s ?s1" by simp
  then have "srv_connections ?s1 = srv_connections s" using more_server_fields(1) by (auto simp: keeps_server_def)
  then show "\<exists>s1. TcpServer_removeConnection K tid c s = Inr s1 \<and> srv_connections s1 = srv_connections s \<and>
      pendingFunctors (loops s1 (srv_loop s)) = pendingFunctors (loops s (srv_loop s)) @ [F_removeConnectionInLoop c]"
    using assms(3) by (simp add: TcpServer_removeConnection_def EventLoop_runInLoop_def EventLoop_isInLoopThread_def)
  have n: "conn_name (conns s c) = n" using assms(1,2) by (auto simp: server_inv_def)
  let ?t = "s\<lparr>srv_connections := (srv_connections s)(n := None)\<rparr>"
  let ?s2 = "EventLoop_queueInLoop K tid' (conn_loop (conns s c)) (F_connectDestroyed c) ?t"
  have "keeps_server ?t ?s2" by simp
  then have t: "srv_connections ?s2 = (srv_connections s)(n := None)" using more_server_fields(1) [of ?s2 ?t] by (auto simp: keeps_server_def)
  have "c \<notin> ran ((srv_connections s)(n := None))"
    using assms(1) n by (auto simp: server_inv_def ran_def)
  then show "\<exists>s2. Server_exec K U wc hw tid' (F_removeConnectionInLoop c) s = Inr s2 \<and>
      srv_connections s2 = (srv_connections s)(n := None) \<and> c \<notin> ran (srv_connections s2) \<and>
      pendingFunctors (loops s2 (conn_loop (conns s c))) = pendingFunctors (loops s (conn_loop (conns s c))) @ [F_connectDestroyed c]"
    using t n by (simp add: TcpServer_removeConnectionInLoop_def)
qed

definition sample_name :: bytes where
  "sample_name = server_connName (srv_name sample_server) (srv_ipPort sample_server) 1"

definition sample_serving :: "ref_state server" where
  "sample_serving = sample_server\<lparr>srv_connections := [sample_name \<mapsto> 5], srv_nextConnId := 2,
     conns := (conns sample_server)(5 := sample_conn\<lparr>conn_name := sample_name\<rparr>)\<rparr>"

lemma sample_serving_inv: "server_inv sample_serving"
  using sample_server_inv by (auto simp: sample_serving_def server_inv_def sample_name_def limit_defs intro!: exI [of _ 1])

theorem TcpServer_close_handoff_witness:
  "(\<exists>s1. TcpServer_removeConnection ref_kernel 7 5 sample_serving = Inr s1 \<and> srv_connections s1 = srv_connections sample_serving \<and>
      pendingFunctors (loops s1 (srv_loop sample_serving)) =
        pendingFunctors (loops sample_serving (srv_loop sample_serving)) @ [F_removeConnectionInLoop 5]) \<and>
    (\<exists>s2. Server_exec ref_kernel quiet_callbacks (\<lambda>c. Inr) (\<lambda>c n. Inr) 100 (F_removeConnectionInLoop 5) sample_serving = Inr s2 \<and>
      srv_connections s2 = (srv_connections sample_serving)(sample_name := None) \<and> 5 \<notin> ran (srv_connections s2) \<and>
      pendingFunctors (loops s2 (conn_loop (conns sample_serving 5))) =
        pendingFunctors (loops sample_serving (conn_loop (conns sample_serving 5))) @ [F_connectDestroyed 5])"
  by (rule TcpServer_close_handoff [OF sample_serving_inv])
    (simp_all add: sample_serving_def sample_fields sample_server_loop sample_loop_def)

end
