(* ===== verification/Net_InLoop.thy ===== *)
theory Net_InLoop
  imports Net_TcpServer
begin

text \<open>
  A connection used from its own thread, as message callbacks use it: sending a string that lives
  only for the call, sending a buffer, and shutting down. The lemmas say what such a call does to
  the stream of the connection, and that it leaves the input buffer alone.
\<close>

section \<open>A temporary string\<close>

text \<open>
  \<open>conn->send (s)\<close> for a \<open>std::string\<close> that is constructed at address \<open>p\<close> for the call (or as a
  local variable of the caller) and destroyed afterwards.
\<close>

definition send_temporary ::
    "'k kernel \<Rightarrow> int \<Rightarrow> conn \<Rightarrow> nat \<Rightarrow> bytes \<Rightarrow> ('k, 'a) world_scheme \<Rightarrow> ('k, 'a) world_scheme res" where
  "send_temporary K tid c p s w =
     rbind (TcpConnection_send K tid c p (w\<lparr>strings := (strings w)(p \<mapsto> s)\<rparr>)) (\<lambda>w1.
       Inr (w1\<lparr>strings := (strings w1)(p := None)\<rparr>))"


section \<open>Calls in the connection's thread\<close>

text \<open>The descriptor is not reported broken.\<close>

definition link_up :: "'k kernel \<Rightarrow> fd \<Rightarrow> bool" where
  "link_up K f \<longleftrightarrow> (\<forall>xs k e k'. sys_write K f xs k = (Inl e, k') \<longrightarrow> e \<noteq> EPIPE \<and> e \<noteq> ECONNRESET)"

text \<open>An established connection seen from its own thread: ready to take \<open>n\<close> bytes.\<close>

definition conn_ready :: "'k kernel \<Rightarrow> int \<Rightarrow> nat \<Rightarrow> conn \<Rightarrow> ('k, 'a) world_scheme \<Rightarrow> bool" where
  "conn_ready K tid n c w \<longleftrightarrow> conn_ok c w \<and> conn_room n c w \<and> conn_state (conns w c) = kConnected \<and>
     threadId (loops w (conn_loop (conns w c))) = tid \<and> link_up K (ch_fd (chan_of c w))"

text \<open>
  A message callback sees the world after the parser has consumed bytes of the input buffer.
  \<open>conn_ready\<close> and the stream do not depend on that buffer.
\<close>

abbreviation with_input :: "conn \<Rightarrow> buffer \<Rightarrow> ('k, 'a) world_scheme \<Rightarrow> ('k, 'a) world_scheme" where
  "with_input c b w \<equiv> upd_conn c (\<lambda>cn. cn\<lparr>conn_inputBuffer := b\<rparr>) w"

lemma with_input_simps [simp]:
  "conn_ready K tid n c (with_input c b w) = conn_ready K tid n c w"
  "conn_stream sent c (with_input c b w) = conn_stream sent c w"
  by (simp_all add: conn_ready_def conn_ok_def conn_room_def conn_stream_def)

text \<open>
  What a send and the calls after it leave alone. Without the two callbacks that are queued as
  functors, nothing is queued to any loop.
\<close>

definition conn_rest :: "conn \<Rightarrow> ('k, 'a) world_scheme \<Rightarrow> ('k, 'a) world_scheme \<Rightarrow> bool" where
  "conn_rest c w w' \<longleftrightarrow> conn_inputBuffer (conns w' c) = conn_inputBuffer (conns w c) \<and>
     conn_loop (conns w' c) = conn_loop (conns w c) \<and> conn_channel (conns w' c) = conn_channel (conns w c) \<and>
     conn_hasWriteCompleteCallback (conns w' c) = conn_hasWriteCompleteCallback (conns w c) \<and>
     conn_hasHighWaterMarkCallback (conns w' c) = conn_hasHighWaterMarkCallback (conns w c) \<and>
     conn_hasMessageCallback (conns w' c) = conn_hasMessageCallback (conns w c) \<and> world.more w' = world.more w \<and>
     (\<forall>l. threadId (loops w' l) = threadId (loops w l)) \<and>
     (\<forall>d. ch_revents (chans w' d) = ch_revents (chans w d) \<and> ch_fd (chans w' d) = ch_fd (chans w d) \<and>
        ch_tied (chans w' d) = ch_tied (chans w d) \<and> ch_tie (chans w' d) = ch_tie (chans w d) \<and>
        ch_readCallback (chans w' d) = ch_readCallback (chans w d) \<and>
        ch_writeCallback (chans w' d) = ch_writeCallback (chans w d)) \<and>
     (\<not> conn_hasWriteCompleteCallback (conns w c) \<and> \<not> conn_hasHighWaterMarkCallback (conns w c) \<longrightarrow>
        (\<forall>l. pendingFunctors (loops w' l) = pendingFunctors (loops w l)))"

lemma conn_rest_refl [simp]: "conn_rest c w w"
  by (simp add: conn_rest_def)

lemma conn_rest_trans: "conn_rest c u v \<Longrightarrow> conn_rest c v w \<Longrightarrow> conn_rest c u w"
  by (simp add: conn_rest_def)

lemma queueInLoop_more [simp]: "world.more (EventLoop_queueInLoop K tid l F w) = world.more w"
  by (simp add: queue_defs EventLoop_wakeup_def log_error_def split: prod.split)

lemma queueInLoop_threadId [simp]:
  "threadId (loops (EventLoop_queueInLoop K tid l F w) l') = threadId (loops w l')"
  by (simp add: queue_defs EventLoop_wakeup_def split: prod.split)

lemma Channel_update_rest: "Channel_update K ch w = Inr w' \<Longrightarrow> conn_rest c w w'"
  by (auto simp: conn_rest_def Channel_update_def EventLoop_updateChannel_def EpollPoller_updateChannel_def
      Let_def rbind_eq_Inr_iff elim!: EpollPoller_update_cases split: if_splits)

lemma sendInLoop_mark_frame:
  "conns (sendInLoop_mark K tid c n w) = conns w" "chans (sendInLoop_mark K tid c n w) = chans w"
  "threadId (loops (sendInLoop_mark K tid c n w) l) = threadId (loops w l)"
  "world.more (sendInLoop_mark K tid c n w) = world.more w"
  "\<not> conn_hasHighWaterMarkCallback (conns w c) \<Longrightarrow> sendInLoop_mark K tid c n w = w"
  by (simp_all add: sendInLoop_mark_def Let_def)

lemma sendInLoop_store_rest:
  assumes "sendInLoop_store K tid c rest w = Inr w'"
  shows "conn_rest c w w'"
proof -
  obtain b where b: "Buffer_append rest (conn_outputBuffer (conns w c)) = Inr b"
    using assms by (auto simp: sendInLoop_store_def Let_def rbind_eq_Inr_iff sendInLoop_mark_frame)
  define w2 where "w2 = upd_conn c (\<lambda>cn. cn\<lparr>conn_outputBuffer := b\<rparr>) (sendInLoop_mark K tid c (length rest) w)"
  have w2: "conn_rest c w w2" by (simp add: conn_rest_def w2_def sendInLoop_mark_frame)
  have run: "(if \<not> Channel_isWriting (chan_of c w2) then Channel_enableWriting K (conn_channel (conns w2 c)) w2
      else Inr w2) = Inr w'"
    using assms b unfolding w2_def by (simp add: sendInLoop_store_def Let_def sendInLoop_mark_frame)
  have "conn_rest c w2 w'"
  proof (cases "Channel_isWriting (chan_of c w2)")
    case False
    then have "Channel_update K (conn_channel (conns w2 c)) (upd_chan (conn_channel (conns w2 c))
        (\<lambda>ch. ch\<lparr>ch_events := ch_events ch OR kWriteEvent\<rparr>) w2) = Inr w'"
      using run by (simp add: Channel_enableWriting_def)
    from Channel_update_rest [OF this, of c] show ?thesis by (simp add: conn_rest_def)
  qed (use run in simp)
  with w2 show ?thesis by (rule conn_rest_trans)
qed

lemma sendInLoop_write_rest:
  "sendInLoop_write K tid c data w = (n, r, f, w1) \<Longrightarrow> conn_rest c w w1"
  by (auto simp: sendInLoop_write_def conn_rest_def Let_def split: if_splits prod.splits sum.splits)

lemma sendInLoop_rest:
  "TcpConnection_sendInLoop K tid c data w = Inr w' \<Longrightarrow> conn_rest c w w'"
  by (auto simp: TcpConnection_sendInLoop_def conn_rest_def [of c w "log_error _ w"] split: if_splits prod.splits
      dest: sendInLoop_write_rest sendInLoop_store_rest intro: conn_rest_trans)

lemma queueInLoop_writeComplete_rest:
  "conn_rest c w (if conn_hasWriteCompleteCallback (conns w c) then EventLoop_queueInLoop K tid l F w else w)"
  by (simp add: conn_rest_def)

lemma handleWrite_done_rest:
  assumes "handleWrite_done K tid c w = Inr w'" "Channel_isWriting (chan_of c w)"
  shows "conn_rest c w w'"
proof -
  obtain w2 where w2: "Channel_disableWriting K (conn_channel (conns w c)) w = Inr w2"
    "w' = (if conn_hasWriteCompleteCallback (conns w2 c)
           then EventLoop_queueInLoop K tid (conn_loop (conns w2 c)) (F_writeComplete c) w2 else w2)"
    using assms(1) unfolding handleWrite_done_writing [OF assms(2)] by (auto simp: rbind_eq_Inr_iff)
  have "Channel_update K (conn_channel (conns w c)) (upd_chan (conn_channel (conns w c))
      (\<lambda>ch. ch\<lparr>ch_events := ch_events ch AND kWriteEvent\<rparr>) w) = Inr w2"
    using w2(1) by (simp add: Channel_disableWriting_def)
  from Channel_update_rest [OF this, of c] have "conn_rest c w w2" by (simp add: conn_rest_def)
  then show ?thesis unfolding w2(2) using queueInLoop_writeComplete_rest by (rule conn_rest_trans)
qed

lemma handleWrite_rest: "TcpConnection_handleWrite K tid c w = Inr w' \<Longrightarrow> conn_rest c w w'"
proof (cases "Channel_isWriting (chan_of c w)")
  case True
  have out: "conn_rest c w (upd_conn c (\<lambda>cn. cn\<lparr>conn_outputBuffer := b\<rparr>) (w\<lparr>kern := k\<rparr>))"
    "conn_rest c w (log_error m (w\<lparr>kern := k\<rparr>))" for b k m
    by (simp_all add: conn_rest_def log_error_def)
  have drained: "conn_rest c w w'" if "handleWrite_done K tid c (upd_conn c (\<lambda>cn. cn\<lparr>conn_outputBuffer := b\<rparr>) (w\<lparr>kern := k\<rparr>)) = Inr w'" for b k
    by (rule conn_rest_trans [OF out(1) handleWrite_done_rest [OF that]]) (simp add: True)
  assume run: "TcpConnection_handleWrite K tid c w = Inr w'"
  then obtain s where s: "string_at (conn_outputBuffer (conns w c)) (Buffer_peek (conn_outputBuffer (conns w c)))
      (Buffer_readableBytes (conn_outputBuffer (conns w c))) = Inr s"
    using True by (auto simp: TcpConnection_handleWrite_def Let_def rbind_eq_Inr_iff)
  obtain r k' where "sys_write K (ch_fd (chan_of c w)) s (kern w) = (r, k')" by fastforce
  then show "conn_rest c w w'"
    using run s True out drained
    by (auto simp: TcpConnection_handleWrite_def Let_def rbind_eq_Inr_iff split: if_splits)
qed (auto simp: TcpConnection_handleWrite_def conn_rest_def log_error_def)

lemma send_taken_all:
  assumes "conn_state (conns w c) \<noteq> kDisconnected" "link_up K (ch_fd (chan_of c w))"
  shows "send_taken K tid c data w = data"
  using assms by (auto simp: send_taken_def sendInLoop_write_def link_up_def Let_def split: prod.splits sum.splits if_splits)

context net_kernel
begin

lemma sendInLoop_ready:
  assumes "conn_ready K tid (length s) c w"
  shows "case TcpConnection_sendInLoop K tid c s w of Inl e \<Rightarrow> e = Aborted
    | Inr w' \<Rightarrow> conn_effect sent c (length s) s w w' \<and> conn_rest c w w'"
proof -
  have "send_taken K tid c s w = s" using assms by (intro send_taken_all) (simp_all add: conn_ready_def)
  then show ?thesis
    using sendInLoop_effect [where tid = tid and data = s and c = c and w = w] assms sendInLoop_rest
    by (auto simp: conn_ready_def split: sum.splits)
qed

lemma send_temporary_ready:
  assumes "conn_ready K tid (length s) c w"
  shows "case send_temporary K tid c p s w of Inl e \<Rightarrow> e = Aborted
    | Inr w' \<Rightarrow> conn_effect sent c (length s) s w w' \<and> conn_rest c w w'"
proof -
  let ?w = "w\<lparr>strings := (strings w)(p \<mapsto> s)\<rparr>"
  have "conn_ready K tid (length s) c ?w"
    using assms by (simp add: conn_ready_def conn_ok_def conn_room_def)
  note eff = sendInLoop_ready [OF this]
  have "TcpConnection_send K tid c p ?w = TcpConnection_sendInLoop K tid c s ?w"
    using assms by (simp add: TcpConnection_send_def EventLoop_runInLoop_def EventLoop_isInLoopThread_def
        conn_ready_def sendInLoop_ptr_def)
  then show ?thesis
    using eff by (cases "TcpConnection_sendInLoop K tid c s ?w")
      (auto simp: send_temporary_def conn_effect_def conn_ok_def conn_stream_def conn_rest_def)
qed

lemma sendBuffer_ready:
  assumes "Buffer_inv buf" "conn_ready K tid (length (Buffer_abs buf)) c w"
  shows "case TcpConnection_sendBuffer K tid c buf w of Inl e \<Rightarrow> e = Aborted
    | Inr (buf', w') \<Rightarrow> conn_effect sent c (length (Buffer_abs buf)) (Buffer_abs buf) w w' \<and> conn_rest c w w'"
  using sendInLoop_ready [OF assms(2)] assms
  by (cases "TcpConnection_sendInLoop K tid c (Buffer_abs buf) w")
    (auto simp: TcpConnection_sendBuffer_def conn_ready_def EventLoop_isInLoopThread_def Buffer_peek_def
      Buffer_readableBytes_inv Buffer_string_at_abs)

lemma shutdown_ready:
  assumes "conn_ok c w" "conn_state (conns w c) = kConnected" "threadId (loops w (conn_loop (conns w c))) = tid"
  shows "\<exists>w'. TcpConnection_shutdown K tid c w = Inr w' \<and> conn_ok c w' \<and> conn_rest c w w' \<and>
    conn_stream sent c w' = conn_stream sent c w \<and> conn_state (conns w' c) = kDisconnecting \<and>
    conn_outputBuffer (conns w' c) = conn_outputBuffer (conns w c)"
proof -
  let ?w = "TcpConnection_setState kDisconnecting c w"
  have run: "TcpConnection_shutdown K tid c w = TcpConnection_shutdownInLoop K c ?w"
    using assms by (simp add: TcpConnection_shutdown_def shutdown_mark_def TcpConnection_setState_def EventLoop_runInLoop_def
        EventLoop_isInLoopThread_def Let_def)
  show ?thesis
    using shutdownInLoop_frame [where c = c and w = ?w] assms(1,2) unfolding run
    by (auto simp: TcpConnection_setState_def conn_ok_def conn_stream_def conn_rest_def split: sum.splits)
qed

end


section \<open>Calls on a connection that is closing\<close>

text \<open>A connection that is not in the state \<open>kConnected\<close> takes no bytes, and is not shut down again.\<close>

lemma send_not_connected:
  assumes "conn_state (conns w c) \<noteq> kConnected"
  shows "send_temporary K tid c p xs w = Inr (w\<lparr>strings := (strings w)(p := None)\<rparr>)"
    "TcpConnection_sendBuffer K tid c buf w = Inr (buf, w)" "TcpConnection_shutdown K tid c w = Inr w"
  using assms by (simp_all add: send_temporary_def TcpConnection_send_def TcpConnection_sendBuffer_def TcpConnection_shutdown_def)

end
