(* ===== verification/Net_ConnState.thy ===== *)
theory Net_ConnState
  imports Net_InLoop
begin

text \<open>
  The state machine of a connection: whatever its handlers, its functors and its user do, in any order, it is connected once and stops being so once.
  In the thread of its loop its state moves forward from \<open>kConnecting\<close> over \<open>kConnected\<close> and \<open>kDisconnecting\<close> to \<open>kDisconnected\<close>;
  other threads that call \<open>shutdown\<close> act between its test and its assignment, which can turn the last two around.
\<close>

section \<open>The order of the states\<close>

fun state_age :: "StateE \<Rightarrow> nat" where
  "state_age kConnecting = 0"
| "state_age kConnected = 1"
| "state_age kDisconnecting = 2"
| "state_age kDisconnected = 3"

lemma state_age_inject [simp]: "state_age a = state_age b \<longleftrightarrow> a = b"
  by (cases a; cases b; simp)

instantiation StateE :: linorder
begin

definition less_eq_StateE :: "StateE \<Rightarrow> StateE \<Rightarrow> bool" where
  "less_eq_StateE a b \<longleftrightarrow> state_age a \<le> state_age b"

definition less_StateE :: "StateE \<Rightarrow> StateE \<Rightarrow> bool" where
  "less_StateE a b \<longleftrightarrow> state_age a < state_age b"

instance
  by standard (auto simp: less_eq_StateE_def less_StateE_def)

end

lemma state_bounds [simp]: "kConnecting \<le> st" "st \<le> kDisconnected" "kDisconnected \<le> st \<longleftrightarrow> st = kDisconnected"
  "kConnected \<le> kDisconnecting"
  by (cases st; simp add: less_eq_StateE_def)+

text \<open>No connection goes back.\<close>

definition forward :: "('k, 'a) world_scheme \<Rightarrow> ('k, 'a) world_scheme \<Rightarrow> bool" where
  "forward w w' \<longleftrightarrow> (\<forall>c. conn_state (conns w c) \<le> conn_state (conns w' c))"

definition forward_res :: "('k, 'a) world_scheme \<Rightarrow> ('k, 'a) world_scheme res \<Rightarrow> bool" where
  "forward_res w r \<longleftrightarrow> (case r of Inl e \<Rightarrow> True | Inr w' \<Rightarrow> forward w w')"

lemma forward_res_simps [simp]: "forward_res w (Inl e)" "forward_res w (Inr w') \<longleftrightarrow> forward w w'"
  by (simp_all add: forward_res_def)

lemma forward_conns: "conns w' = conns w \<Longrightarrow> forward w w'"
  by (simp add: forward_def)

lemma forward_refl [simp]: "forward w w"
  by (simp add: forward_def)

lemma forward_trans: "forward u v \<Longrightarrow> forward v w \<Longrightarrow> forward u w"
  unfolding forward_def by (meson order_trans)

lemma forward_rbind:
  assumes "forward_res w m" "\<And>w1. m = Inr w1 \<Longrightarrow> forward_res w1 (k w1)"
  shows "forward_res w (rbind m k)"
  using assms by (cases m; cases "rbind m k") (auto intro: forward_trans)

lemma forward_rbind_value: "(\<And>x. m = Inr x \<Longrightarrow> forward_res w (k x)) \<Longrightarrow> forward_res w (rbind m k)"
  by (cases m) simp_all

lemma forward_from: "forward u v \<Longrightarrow> forward_res v r \<Longrightarrow> forward_res u r"
  by (cases r) (auto intro: forward_trans)

lemma forward_upd [simp]: "forward w (upd_conn c f w) \<longleftrightarrow> conn_state (conns w c) \<le> conn_state (f (conns w c))"
  by (auto simp: forward_def)

lemma forward_log [simp]: "forward w (log_error m w') = forward w w'"
  by (simp add: forward_def)


section \<open>The operations of a connection\<close>

lemma Channel_update_forward: "forward_res w (Channel_update K ch w)"
  by (cases "Channel_update K ch w") (simp_all add: forward_conns [OF Channel_update_frame(1)])

lemma set_events_forward:
  "forward_res w (Channel_enableReading K ch w)" "forward_res w (Channel_disableReading K ch w)"
  "forward_res w (Channel_enableWriting K ch w)" "forward_res w (Channel_disableWriting K ch w)"
  "forward_res w (Channel_disableAll K ch w)"
  unfolding channel_setters by (rule forward_from [OF _ Channel_update_forward], simp add: forward_def)+

lemma Channel_remove_forward: "forward_res w (Channel_remove K ch w)"
  by (auto simp: forward_def Channel_remove_def EventLoop_removeChannel_def EpollPoller_removeChannel_def
      Let_def rbind_eq_Inr_iff forward_res_def elim!: EpollPoller_update_cases split: sum.split if_splits)

lemma queueInLoop_forward [simp]: "forward w (EventLoop_queueInLoop K tid l F w') = forward w w'"
  by (simp add: forward_def)

lemma runInLoop_forward: "forward_res w (body w) \<Longrightarrow> forward_res w (EventLoop_runInLoop K tid l F body w)"
  by (simp add: EventLoop_runInLoop_def)

lemma sendInLoop_write_conns: "sendInLoop_write K tid c data w = (n, r, e, w1) \<Longrightarrow> conns w1 = conns w"
  by (auto simp: sendInLoop_write_def Let_def split: if_splits sum.splits prod.splits)

lemma sendInLoop_store_forward: "forward_res w (sendInLoop_store K tid c rest w)"
proof -
  define w1 where "w1 = sendInLoop_mark K tid c (length rest) w"
  have "conns w1 = conns w" by (simp add: w1_def sendInLoop_mark_def Let_def)
  then have w1: "forward w w1" by (rule forward_conns)
  show ?thesis
  proof (cases "Buffer_append rest (conn_outputBuffer (conns w1 c))")
    case (Inr b)
    define w2 where "w2 = upd_conn c (\<lambda>cn. cn\<lparr>conn_outputBuffer := b\<rparr>) w1"
    have w2: "forward w1 w2" by (simp add: w2_def)
    have run: "sendInLoop_store K tid c rest w = (if \<not> Channel_isWriting (chan_of c w2)
        then Channel_enableWriting K (conn_channel (conns w2 c)) w2 else Inr w2)"
      using Inr by (simp only: sendInLoop_store_def Let_def rbind_Inr flip: w1_def w2_def)
    have "forward_res w2 (sendInLoop_store K tid c rest w)"
      unfolding run by (simp add: set_events_forward(3))
    then show ?thesis using forward_from [OF forward_trans [OF w1 w2]] by blast
  qed (simp add: sendInLoop_store_def Let_def flip: w1_def)
qed

lemma sendInLoop_forward: "forward_res w (TcpConnection_sendInLoop K tid c data w)"
proof -
  obtain n r e w1 where wr: "sendInLoop_write K tid c data w = (n, r, e, w1)" by (metis prod.exhaust)
  have w1: "forward w w1" using sendInLoop_write_conns [OF wr] by (rule forward_conns)
  then have "forward_res w (sendInLoop_store K tid c rest w1)" for rest
    using sendInLoop_store_forward by (rule forward_from)
  with w1 wr show ?thesis by (simp add: TcpConnection_sendInLoop_def)
qed

lemma sendInLoop_ptr_forward: "forward_res w (sendInLoop_ptr K tid c p len w)"
  by (simp add: sendInLoop_ptr_def sendInLoop_forward split: option.split)

lemma send_forward: "forward_res w (TcpConnection_send K tid c p w)"
  by (simp add: TcpConnection_send_def runInLoop_forward sendInLoop_ptr_forward split: option.split)

lemma sendBuffer_forward: "forward_res w (rbind (TcpConnection_sendBuffer K tid c buf w) (\<lambda>(b, w'). Inr w'))"
proof -
  have "forward_res w (rbind (TcpConnection_sendInLoop K tid c s w) Inr)"
    "forward_res w (rbind (EventLoop_runInLoop K tid l F (TcpConnection_sendInLoop K tid c s) w) Inr)" for s l F
    by (rule forward_rbind [OF sendInLoop_forward], simp) (rule forward_rbind [OF runInLoop_forward], simp_all add: sendInLoop_forward)
  then show ?thesis
    by (cases "string_at buf (Buffer_peek buf) (Buffer_readableBytes buf)"; cases "Buffer_retrieveAllAsString buf")
      (simp_all add: TcpConnection_sendBuffer_def rbind_assoc split: prod.split)
qed

lemma send_temporary_forward: "forward_res w (send_temporary K tid c p s w)"
proof (rule forward_from)
  show "forward w (w\<lparr>strings := (strings w)(p \<mapsto> s)\<rparr>)" by (simp add: forward_def)
  show "forward_res (w\<lparr>strings := (strings w)(p \<mapsto> s)\<rparr>) (send_temporary K tid c p s w)"
    unfolding send_temporary_def by (rule forward_rbind [OF send_forward]) (simp add: forward_def)
qed

lemma shutdownInLoop_forward: "forward_res w (TcpConnection_shutdownInLoop K c w)"
  by (auto simp: TcpConnection_shutdownInLoop_def Socket_shutdownWrite_def forward_def split: prod.split)

lemma shutdown_forward: "forward_res w (TcpConnection_shutdown K tid c w)"
proof (cases "conn_state (conns w c) = kConnected")
  case True
  have "forward w (TcpConnection_setState kDisconnecting c w)" using True by (simp add: TcpConnection_setState_def)
  then show ?thesis
    using True
    by (simp add: TcpConnection_shutdown_def shutdown_mark_def Let_def forward_from runInLoop_forward shutdownInLoop_forward)
qed (simp add: TcpConnection_shutdown_def)

lemma handleWrite_done_forward: "forward_res w (handleWrite_done K tid c w)"
  unfolding handleWrite_done_def Let_def
  by (rule forward_rbind [OF set_events_forward(4)]) (auto intro!: forward_from [OF _ shutdownInLoop_forward])

lemma handleWrite_forward: "forward_res w (TcpConnection_handleWrite K tid c w)"
proof -
  have upd: "forward w (upd_conn c (\<lambda>cn. cn\<lparr>conn_outputBuffer := b\<rparr>) (w\<lparr>kern := k\<rparr>))" "forward w (w\<lparr>kern := k\<rparr>)" for b k
    by (simp_all add: forward_def)
  have "forward_res w (handleWrite_done K tid c (upd_conn c (\<lambda>cn. cn\<lparr>conn_outputBuffer := b\<rparr>) (w\<lparr>kern := k\<rparr>)))" for b k
    by (rule forward_from [OF upd(1) handleWrite_done_forward])
  with upd show ?thesis
    by (auto simp: TcpConnection_handleWrite_def Let_def intro!: forward_rbind_value split: prod.split)
qed

lemma handleError_forward: "forward_res w (TcpConnection_handleError K c w)"
  by (simp add: TcpConnection_handleError_def Let_def forward_def split: prod.split)

section \<open>With the callbacks of a user\<close>

text \<open>The close callback that a server installs.\<close>

lemma removeConnection_forward: "forward_res s (TcpServer_removeConnection K tid c s)"
proof -
  have "forward_res s (TcpServer_removeConnectionInLoop K tid c s)"
    by (simp add: TcpServer_removeConnectionInLoop_def Let_def forward_def)
  then show ?thesis unfolding TcpServer_removeConnection_def by (rule runInLoop_forward)
qed

text \<open>The contract of the callbacks: like the connection's own operations, they move no connection back.\<close>

locale forward_callbacks =
  fixes U :: "('k, 'a) world_scheme callbacks"
  assumes connection_forward: "forward_res w (connectionCallback U c w)"
    and message_forward: "forward_res w (messageCallback U c t w)"
    and close_forward: "forward_res w (closeCallback U c w)"
begin

lemma calls_forward: "forward_res w (call_connection U c w)" "forward_res w (call_message U c t w)" "forward_res w (call_close U c w)"
  by (simp_all add: call_connection_def call_message_def call_close_def connection_forward message_forward close_forward)

lemma connectEstablished_forward:
  assumes "conn_state (conns w c) \<le> kConnected"
  shows "forward_res w (TcpConnection_connectEstablished K U c w)"
proof -
  let ?ch = "conn_channel (conns w c)"
  let ?w2 = "upd_chan ?ch (Channel_tie c) (TcpConnection_setState kConnected c w)"
  have run: "TcpConnection_connectEstablished K U c w = rbind (Channel_enableReading K ?ch ?w2) (call_connection U c)"
    by (simp add: TcpConnection_connectEstablished_def TcpConnection_setState_def)
  have "forward w ?w2" using assms by (simp add: forward_def TcpConnection_setState_def)
  moreover have "forward_res ?w2 (rbind (Channel_enableReading K ?ch ?w2) (call_connection U c))"
    by (rule forward_rbind [OF set_events_forward(1) calls_forward(1)])
  ultimately show ?thesis unfolding run by (rule forward_from)
qed

lemma close_down_forward: "forward_res w (rbind (Channel_disableAll K ch (TcpConnection_setState kDisconnected c w)) (call_connection U c))"
proof (rule forward_from)
  show "forward w (TcpConnection_setState kDisconnected c w)" by (simp add: TcpConnection_setState_def)
  show "forward_res (TcpConnection_setState kDisconnected c w)
      (rbind (Channel_disableAll K ch (TcpConnection_setState kDisconnected c w)) (call_connection U c))"
    by (rule forward_rbind [OF set_events_forward(5) calls_forward(1)])
qed

lemma handleClose_forward: "forward_res w (TcpConnection_handleClose K U c w)"
proof -
  have "TcpConnection_handleClose K U c w = rbind (rbind (Channel_disableAll K (conn_channel (conns w c))
      (TcpConnection_setState kDisconnected c w)) (call_connection U c)) (call_close U c)"
    by (simp add: TcpConnection_handleClose_def rbind_assoc)
  then show ?thesis by (simp only: forward_rbind [OF close_down_forward calls_forward(3)])
qed

lemma connectDestroyed_forward: "forward_res w (TcpConnection_connectDestroyed K U c w)"
  unfolding TcpConnection_connectDestroyed_def
  by (rule forward_rbind [OF _ Channel_remove_forward]) (simp add: close_down_forward)

lemma handleRead_forward: "forward_res w (TcpConnection_handleRead K U c t w)"
proof -
  have upd: "forward w (w\<lparr>kern := k, conns := (conns w)(c := conns w c\<lparr>conn_inputBuffer := b\<rparr>)\<rparr>)" for b k
    by (simp add: forward_def)
  then have log: "forward w (log_error m (w\<lparr>kern := k, conns := (conns w)(c := conns w c\<lparr>conn_inputBuffer := b\<rparr>)\<rparr>))" for b k m
    by simp
  show ?thesis
    by (auto simp: TcpConnection_handleRead_def Let_def simp del: forward_log split: prod.split intro!: forward_rbind_value
        forward_from [OF upd calls_forward(2)] forward_from [OF upd handleClose_forward] forward_from [OF log handleError_forward])
qed

end


section \<open>The life of connections\<close>

text \<open>
  Everything that is done to a connection: the functors of the server, the handlers of its channel, and the calls of its user, from a thread \<open>tid\<close>.
  \<open>connectEstablished\<close> is called once, on a new connection.
\<close>

datatype conn_action =
    ActEstablish | ActRead int | ActWrite | ActClose | ActError | ActDestroy
  | ActSend nat | ActSendInLoop bytes | ActSendPtr nat nat | ActShutdown | ActShutdownInLoop

fun conn_act ::
    "'k kernel \<Rightarrow> ('k, 'a) world_scheme callbacks \<Rightarrow> int \<Rightarrow> conn \<Rightarrow> conn_action
      \<Rightarrow> ('k, 'a) world_scheme \<Rightarrow> ('k, 'a) world_scheme res" where
  "conn_act K U tid c ActEstablish w = TcpConnection_connectEstablished K U c w"
| "conn_act K U tid c (ActRead t) w = TcpConnection_handleRead K U c t w"
| "conn_act K U tid c ActWrite w = TcpConnection_handleWrite K tid c w"
| "conn_act K U tid c ActClose w = TcpConnection_handleClose K U c w"
| "conn_act K U tid c ActError w = TcpConnection_handleError K c w"
| "conn_act K U tid c ActDestroy w = TcpConnection_connectDestroyed K U c w"
| "conn_act K U tid c (ActSend p) w = TcpConnection_send K tid c p w"
| "conn_act K U tid c (ActSendInLoop data) w = TcpConnection_sendInLoop K tid c data w"
| "conn_act K U tid c (ActSendPtr p n) w = sendInLoop_ptr K tid c p n w"
| "conn_act K U tid c ActShutdown w = TcpConnection_shutdown K tid c w"
| "conn_act K U tid c ActShutdownInLoop w = TcpConnection_shutdownInLoop K c w"

text \<open>
  The life of the connections. \<open>F\<close> are the connections that threads other than that of their loop may shut down, and \<open>S\<close> the calls of
  \<open>shutdown\<close>, with the thread that makes them, that have read \<open>kConnected\<close> and have not stored \<open>kDisconnecting\<close> yet: everything else can happen in between. The
  handlers of a loop, with the callbacks that they call, are single steps; so is a \<open>shutdown\<close> of the connection's own thread. A callback that shuts down a connection of
  another loop makes the two steps of a foreign thread.
\<close>

inductive conn_life ::
    "'k kernel \<Rightarrow> ('k, 'a) world_scheme callbacks \<Rightarrow> conn set \<Rightarrow> ('k, 'a) world_scheme \<Rightarrow> (int \<times> conn) list \<Rightarrow>
      ('k, 'a) world_scheme \<Rightarrow> bool"
  for K :: "'k kernel" and U :: "('k, 'a) world_scheme callbacks" and F :: "conn set" and w0 :: "('k, 'a) world_scheme" where
  life_start: "conn_life K U F w0 [] w0"
| life_act: "conn_life K U F w0 S w \<Longrightarrow> (act = ActEstablish \<longrightarrow> conn_state (conns w c) = kConnecting) \<Longrightarrow>
    (act = ActShutdown \<longrightarrow> threadId (loops w (conn_loop (conns w c))) = tid) \<Longrightarrow>
    conn_act K U tid c act w = Inr w' \<Longrightarrow> conn_life K U F w0 S w'"
| life_test: "conn_life K U F w0 S w \<Longrightarrow> c \<in> F \<Longrightarrow> conn_state (conns w c) = kConnected \<Longrightarrow> conn_life K U F w0 ((tid, c) # S) w"
| life_set: "conn_life K U F w0 S w \<Longrightarrow> (tid, c) \<in> set S \<Longrightarrow> shutdown_mark K tid c w = Inr w' \<Longrightarrow>
    conn_life K U F w0 (remove1 (tid, c) S) w'"

text \<open>The stages of a connection, which do not tell \<open>kDisconnecting\<close> from \<open>kDisconnected\<close>.\<close>

definition conn_stage :: "StateE \<Rightarrow> nat" where
  "conn_stage st = min 2 (state_age st)"

lemma conn_stage_simps [simp]: "conn_stage kConnecting = 0" "conn_stage kConnected = 1" "conn_stage kDisconnecting = 2"
  "conn_stage kDisconnected = 2" "conn_stage st \<le> 2"
  by (simp_all add: conn_stage_def)

lemma conn_stage_mono: "a \<le> b \<Longrightarrow> conn_stage a \<le> conn_stage b"
  by (simp add: conn_stage_def less_eq_StateE_def min_def)

lemma conn_stage_2: "conn_stage st = 2 \<Longrightarrow> st \<noteq> kConnected"
  by auto

lemma shutdown_mark_conns:
  assumes "shutdown_mark K tid c w = Inr w'"
  shows "conn_state (conns w' c) = kDisconnecting" "d \<noteq> c \<Longrightarrow> conns w' d = conns w d"
  using assms
  by (auto simp: shutdown_mark_def Let_def TcpConnection_setState_def EventLoop_runInLoop_def TcpConnection_shutdownInLoop_def
      Socket_shutdownWrite_def split: if_splits prod.splits)

lemma shutdown_mark_succeeds: "\<exists>w'. shutdown_mark K tid c w = Inr w'"
  unfolding shutdown_mark_def Let_def EventLoop_runInLoop_def TcpConnection_shutdownInLoop_def by auto

text \<open>A call that has passed its test is about a connection that others may shut down and that has been connected.\<close>

definition calls_passed :: "conn set \<Rightarrow> (int \<times> conn) list \<Rightarrow> ('k, 'a) world_scheme \<Rightarrow> bool" where
  "calls_passed F S w \<longleftrightarrow> (\<forall>tid c. (tid, c) \<in> set S \<longrightarrow> c \<in> F \<and> 1 \<le> conn_stage (conn_state (conns w c)))"

definition stages_advance :: "conn set \<Rightarrow> ('k, 'a) world_scheme \<Rightarrow> ('k, 'a) world_scheme \<Rightarrow> bool" where
  "stages_advance F w w' \<longleftrightarrow> (\<forall>c. conn_stage (conn_state (conns w c)) \<le> conn_stage (conn_state (conns w' c)) \<and>
     (c \<notin> F \<longrightarrow> conn_state (conns w c) \<le> conn_state (conns w' c)))"

lemma stages_advance_refl: "stages_advance F w w"
  by (simp add: stages_advance_def)

lemma stages_advance_trans: "stages_advance F u v \<Longrightarrow> stages_advance F v w \<Longrightarrow> stages_advance F u w"
  unfolding stages_advance_def by (meson order_trans)

lemma forward_stages: "forward w w' \<Longrightarrow> stages_advance F w w'"
  by (simp add: forward_def stages_advance_def conn_stage_mono)

lemma calls_passed_advance: "calls_passed F S w \<Longrightarrow> stages_advance F w w' \<Longrightarrow> calls_passed F S w'"
  unfolding calls_passed_def stages_advance_def by (meson order_trans)

lemma mark_stages:
  assumes "shutdown_mark K tid c w = Inr w'" "c \<in> F"
  shows "stages_advance F w w'"
  unfolding stages_advance_def
proof
  fix d
  show "conn_stage (conn_state (conns w d)) \<le> conn_stage (conn_state (conns w' d)) \<and>
      (d \<notin> F \<longrightarrow> conn_state (conns w d) \<le> conn_state (conns w' d))"
    using shutdown_mark_conns [OF assms(1)] assms(2) by (cases "d = c") auto
qed

context forward_callbacks
begin

lemma conn_act_forward:
  assumes "act = ActEstablish \<longrightarrow> conn_state (conns w c) = kConnecting"
  shows "forward_res w (conn_act K U tid c act w)"
  using assms
  by (cases act) (simp_all add: connectEstablished_forward handleRead_forward handleWrite_forward handleClose_forward
      handleError_forward connectDestroyed_forward send_forward sendInLoop_forward sendInLoop_ptr_forward shutdown_forward
      shutdownInLoop_forward)

lemma conn_life_stages:
  assumes "conn_life K U F w0 S w"
  shows "calls_passed F S w \<and> stages_advance F w0 w"
  using assms
proof (induction rule: conn_life.induct)
  case life_start
  show ?case by (simp add: calls_passed_def stages_advance_refl)
next
  case (life_act S w act c tid w')
  then have "stages_advance F w w'"
    using conn_act_forward [of act w c K tid] by (simp add: forward_stages)
  with life_act.IH show ?case using calls_passed_advance stages_advance_trans by blast
next
  case (life_test S w c tid)
  then show ?case by (auto simp: calls_passed_def)
next
  case (life_set S w tid c w')
  then have "c \<in> F" by (auto simp: calls_passed_def)
  then have "stages_advance F w w'" by (rule mark_stages [OF life_set(3)])
  moreover have "calls_passed F (remove1 (tid, c) S) w"
    using life_set.IH using notin_set_remove1 by (fastforce simp: calls_passed_def)
  ultimately show ?case using life_set.IH calls_passed_advance stages_advance_trans by blast
qed

end

end
