(* ===== verification/Http_Message.thy ===== *)
theory Http_Message
  imports Net_Buffer
begin

text \<open>
  The request and response objects of the HTTP layer (\<open>src/http/HttpRequest.h\<close>,
  \<open>src/http/HttpResponse.h\<close>, \<open>src/http/HttpResponse.cc\<close>). A character range
  \<open>[start, end)\<close> is a list. The header tables are \<open>std::unordered_map\<close>s: finite maps,
  whose unspecified iteration order is a parameter of the operation that iterates.
\<close>

section \<open>HttpRequest\<close>

datatype Method = kInvalid | kGet | kPost | kHead | kPut | kDelete

datatype Version = kUnknownVersion | kHttp10 | kHttp11

record http_request =
  req_method :: Method
  req_version :: Version
  req_path :: bytes
  req_query :: bytes
  req_receiveTime :: int
  req_headers :: "bytes \<rightharpoonup> bytes"

definition HttpRequest_ctor :: http_request where
  "HttpRequest_ctor = \<lparr>req_method = kInvalid, req_version = kUnknownVersion, req_path = [],
     req_query = [], req_receiveTime = 0, req_headers = Map.empty\<rparr>"

definition HttpRequest_setVersion :: "Version \<Rightarrow> http_request \<Rightarrow> http_request" where
  "HttpRequest_setVersion v r = r\<lparr>req_version := v\<rparr>"

definition HttpRequest_setMethod :: "bytes \<Rightarrow> http_request \<Rightarrow> bool \<times> http_request" where
  "HttpRequest_setMethod m r =
     (let r' = r\<lparr>req_method :=
          (if m = ''GET'' then kGet
           else if m = ''POST'' then kPost
           else if m = ''HEAD'' then kHead
           else if m = ''PUT'' then kPut
           else if m = ''DELETE'' then kDelete
           else kInvalid)\<rparr>
      in (req_method r' \<noteq> kInvalid, r'))"

fun HttpRequest_methodString :: "Method \<Rightarrow> bytes" where
  "HttpRequest_methodString kGet = ''GET''"
| "HttpRequest_methodString kPost = ''POST''"
| "HttpRequest_methodString kHead = ''HEAD''"
| "HttpRequest_methodString kPut = ''PUT''"
| "HttpRequest_methodString kDelete = ''DELETE''"
| "HttpRequest_methodString kInvalid = ''UNKNOWN''"

definition HttpRequest_setPath :: "bytes \<Rightarrow> http_request \<Rightarrow> http_request" where
  "HttpRequest_setPath p r = r\<lparr>req_path := p\<rparr>"

definition HttpRequest_setQuery :: "bytes \<Rightarrow> http_request \<Rightarrow> http_request" where
  "HttpRequest_setQuery q r = r\<lparr>req_query := q\<rparr>"

definition HttpRequest_setReceiveTime :: "int \<Rightarrow> http_request \<Rightarrow> http_request" where
  "HttpRequest_setReceiveTime t r = r\<lparr>req_receiveTime := t\<rparr>"

text \<open>
  \<open>addHeader (start, colon, end)\<close> on the range \<open>line\<close> with the colon at offset \<open>colon\<close>.
  The value string is built from \<open>[colon + 1, end)\<close>, a range of negative length when the
  colon is the end: the constructor then throws.
\<close>

definition skip_spaces :: "bytes \<Rightarrow> bytes" where
  "skip_spaces xs = dropWhile isspace xs"

definition trim_trailing :: "bytes \<Rightarrow> bytes" where
  "trim_trailing v = rev (dropWhile isspace (rev v))"

definition HttpRequest_addHeader :: "bytes \<Rightarrow> nat \<Rightarrow> http_request \<Rightarrow> http_request res" where
  "HttpRequest_addHeader line colon r =
     (if colon < length line
      then (let field = take colon line;
                val = trim_trailing (skip_spaces (drop (Suc colon) line))
            in Inr (r\<lparr>req_headers := (req_headers r)(field \<mapsto> val)\<rparr>))
      else Inl LengthError)"

definition HttpRequest_getHeader :: "bytes \<Rightarrow> http_request \<Rightarrow> bytes" where
  "HttpRequest_getHeader field r =
     (case req_headers r field of Some v \<Rightarrow> v | None \<Rightarrow> [])"

definition HttpRequest_swap :: "http_request \<Rightarrow> http_request \<Rightarrow> http_request \<times> http_request" where
  "HttpRequest_swap r s =
     (r\<lparr>req_method := req_method s, req_version := req_version s, req_path := req_path s,
        req_query := req_query s, req_receiveTime := req_receiveTime s,
        req_headers := req_headers s\<rparr>,
      s\<lparr>req_method := req_method r, req_version := req_version r, req_path := req_path r,
        req_query := req_query r, req_receiveTime := req_receiveTime r,
        req_headers := req_headers r\<rparr>)"

lemma HttpRequest_swap_eq [simp]: "HttpRequest_swap r s = (s, r)"
  by (simp add: HttpRequest_swap_def)

lemma HttpRequest_setMethod_methodString [simp]:
  "m \<noteq> kInvalid \<Longrightarrow> HttpRequest_setMethod (HttpRequest_methodString m) r = (True, r\<lparr>req_method := m\<rparr>)"
  by (cases m) (simp_all add: HttpRequest_setMethod_def)

lemma HttpRequest_setMethod_fst:
  "fst (HttpRequest_setMethod s r) \<longleftrightarrow> s \<in> {''GET'', ''POST'', ''HEAD'', ''PUT'', ''DELETE''}"
  by (simp add: HttpRequest_setMethod_def Let_def)

text \<open>A value that neither starts nor ends with white space survives the trimming.\<close>

definition trimmed :: "bytes \<Rightarrow> bool" where
  "trimmed v \<longleftrightarrow> v = [] \<or> \<not> isspace (hd v) \<and> \<not> isspace (last v)"

lemma trim_trimmed [simp]:
  assumes "trimmed v"
  shows "trim_trailing (skip_spaces v) = v"
proof (cases "v = []")
  case True
  then show ?thesis by (simp add: trim_trailing_def skip_spaces_def)
next
  case False
  with assms have "dropWhile isspace v = v" "dropWhile isspace (rev v) = rev v"
    by (auto simp: trimmed_def dropWhile_eq_self_iff hd_rev)
  then show ?thesis by (simp add: trim_trailing_def skip_spaces_def)
qed

lemma skip_space_Cons [simp]: "skip_spaces (CHR '' '' # v) = skip_spaces v"
  by (simp add: skip_spaces_def isspace_def)

lemma trim_trailing_no_space: "trim_trailing v = [] \<or> \<not> isspace (last (trim_trailing v))"
proof -
  have "dropWhile isspace (rev v) = [] \<or> \<not> isspace (hd (dropWhile isspace (rev v)))"
    by (metis hd_dropWhile)
  then show ?thesis by (auto simp: trim_trailing_def last_rev)
qed


section \<open>HttpResponse\<close>

datatype HttpStatusCode =
  kUnknownStatus | k200Ok | k301MovedPermanently | k400BadRequest | k404NotFound

fun status_number :: "HttpStatusCode \<Rightarrow> int" where
  "status_number kUnknownStatus = 0"
| "status_number k200Ok = 200"
| "status_number k301MovedPermanently = 301"
| "status_number k400BadRequest = 400"
| "status_number k404NotFound = 404"

record http_response =
  resp_headers :: "bytes \<rightharpoonup> bytes"
  resp_statusCode :: HttpStatusCode
  resp_statusMessage :: bytes
  resp_closeConnection :: bool
  resp_body :: bytes

definition HttpResponse_ctor :: "bool \<Rightarrow> http_response" where
  "HttpResponse_ctor close = \<lparr>resp_headers = Map.empty, resp_statusCode = kUnknownStatus,
     resp_statusMessage = [], resp_closeConnection = close, resp_body = []\<rparr>"

definition HttpResponse_setStatusCode :: "HttpStatusCode \<Rightarrow> http_response \<Rightarrow> http_response" where
  "HttpResponse_setStatusCode c r = r\<lparr>resp_statusCode := c\<rparr>"

definition HttpResponse_setStatusMessage :: "bytes \<Rightarrow> http_response \<Rightarrow> http_response" where
  "HttpResponse_setStatusMessage m r = r\<lparr>resp_statusMessage := m\<rparr>"

definition HttpResponse_setCloseConnection :: "bool \<Rightarrow> http_response \<Rightarrow> http_response" where
  "HttpResponse_setCloseConnection on r = r\<lparr>resp_closeConnection := on\<rparr>"

definition HttpResponse_addHeader :: "bytes \<Rightarrow> bytes \<Rightarrow> http_response \<Rightarrow> http_response" where
  "HttpResponse_addHeader k v r = r\<lparr>resp_headers := (resp_headers r)(k \<mapsto> v)\<rparr>"

definition HttpResponse_setContentType :: "bytes \<Rightarrow> http_response \<Rightarrow> http_response" where
  "HttpResponse_setContentType t r = HttpResponse_addHeader ''Content-Type'' t r"

definition HttpResponse_setBody :: "bytes \<Rightarrow> http_response \<Rightarrow> http_response" where
  "HttpResponse_setBody b r = r\<lparr>resp_body := b\<rparr>"

text \<open>
  \<open>appendToBuffer\<close> is a sequence of \<open>append\<close> calls on the output buffer. Their arguments,
  in order: \<open>iter\<close> is the iteration order of the header table; the status line and the
  content length pass through a 32-byte array that \<open>snprintf\<close> fills.
\<close>

definition appendToBuffer_args ::
    "((bytes \<rightharpoonup> bytes) \<Rightarrow> (bytes \<times> bytes) list) \<Rightarrow> http_response \<Rightarrow> bytes list" where
  "appendToBuffer_args iter r =
     [snprintf_to 32 (''HTTP/1.1 '' @ show_int (status_number (resp_statusCode r)) @ '' ''),
      resp_statusMessage r, CRLF]
     @ (if resp_closeConnection r
        then [''Connection: close'' @ CRLF]
        else [snprintf_to 32 (''Content-Length: '' @ show_int (int (length (resp_body r))) @ CRLF),
              ''Connection: Keep-Alive'' @ CRLF])
     @ concat (map (\<lambda>(k, v). [k, '': '', v, CRLF]) (iter (resp_headers r)))
     @ [CRLF, resp_body r]"

definition HttpResponse_appendToBuffer ::
    "((bytes \<rightharpoonup> bytes) \<Rightarrow> (bytes \<times> bytes) list) \<Rightarrow> http_response \<Rightarrow> buffer \<Rightarrow> buffer res" where
  "HttpResponse_appendToBuffer iter r output = res_iter Buffer_append (appendToBuffer_args iter r) output"

text \<open>The response as it should look on the wire.\<close>

definition render_headers :: "(bytes \<times> bytes) list \<Rightarrow> bytes" where
  "render_headers hs = concat (map (\<lambda>(k, v). k @ '': '' @ v @ CRLF) hs)"

definition render_response :: "(bytes \<times> bytes) list \<Rightarrow> http_response \<Rightarrow> bytes" where
  "render_response hs r =
     ''HTTP/1.1 '' @ show_int (status_number (resp_statusCode r)) @ '' '' @ resp_statusMessage r @ CRLF
     @ (if resp_closeConnection r then ''Connection: close'' @ CRLF
        else ''Content-Length: '' @ show_int (int (length (resp_body r))) @ CRLF
             @ ''Connection: Keep-Alive'' @ CRLF)
     @ render_headers hs @ CRLF @ resp_body r"

lemma concat_header_args:
  "concat (concat (map (\<lambda>(k, v). [k, '': '', v, CRLF]) hs)) = render_headers hs"
  by (induction hs) (auto simp: render_headers_def)

lemma status_line_fits:
  "snprintf_to 32 (''HTTP/1.1 '' @ show_int (status_number c) @ '' '')
    = ''HTTP/1.1 '' @ show_int (status_number c) @ '' ''"
  by (cases c) (simp_all add: snprintf_to_def show_int_def show_nat.simps)

lemma content_length_fits:
  assumes "n < 10 ^ 13"
  shows "snprintf_to 32 (''Content-Length: '' @ show_int (int n) @ CRLF)
    = ''Content-Length: '' @ show_int (int n) @ CRLF"
proof -
  have "n < 10 ^ Suc 12" using assms by simp
  then have "length (show_nat n) \<le> Suc 12" by (rule length_show_nat_le)
  then show ?thesis by (simp add: snprintf_to_def show_int_def CRLF_def)
qed

lemma appendToBuffer_args_concat:
  assumes "length (resp_body r) < 10 ^ 13"
  shows "concat (appendToBuffer_args iter r) = render_response (iter (resp_headers r)) r"
  unfolding appendToBuffer_args_def render_response_def status_line_fits content_length_fits [OF assms]
  by (simp add: concat_header_args)

section \<open>Properties\<close>

text \<open>
  \<open>appendToBuffer\<close> puts exactly the rendered response behind what the output buffer already
  holds: status line, connection and length lines, the headers in iteration order, the empty line
  and the body. The 32-byte scratch array never truncates a line, as long as the body is shorter
  than ten terabytes.
\<close>

theorem HttpResponse_appendToBuffer_correct:
  assumes "Buffer_inv output" "length (resp_body r) < 10 ^ 13"
    and "list_all (\<lambda>xs. length xs \<le> Buffer_chunk) (appendToBuffer_args iter r)"
    and "Buffer_size output + length (render_response (iter (resp_headers r)) r) \<le> vector_max_size"
  shows "\<exists>b'. HttpResponse_appendToBuffer iter r output = Inr b' \<and> Buffer_inv b' \<and>
    Buffer_abs b' = Buffer_abs output @ render_response (iter (resp_headers r)) r"
  using bq.put_all_law [OF assms(1), of "appendToBuffer_args iter r"] assms(2-4)
  by (simp add: HttpResponse_appendToBuffer_def appendToBuffer_args_concat list_all_iff)

definition sample_response :: http_response where
  "sample_response = \<lparr>resp_headers = [''Server'' \<mapsto> ''Muduo''], resp_statusCode = k404NotFound,
     resp_statusMessage = ''Not Found'', resp_closeConnection = False, resp_body = ''x''\<rparr>"

theorem HttpResponse_appendToBuffer_correct_witness:
  "\<exists>b'. HttpResponse_appendToBuffer (\<lambda>_. [(''Server'', ''Muduo'')]) sample_response fresh_buffer = Inr b' \<and>
     Buffer_inv b' \<and> Buffer_abs b' = ''HTTP/1.1 404 Not Found'' @ CRLF @ ''Content-Length: 1'' @ CRLF @
       ''Connection: Keep-Alive'' @ CRLF @ ''Server: Muduo'' @ CRLF @ CRLF @ ''x''"
proof -
  let ?it = "\<lambda>_ :: bytes \<rightharpoonup> bytes. [(''Server'', ''Muduo'')]"
  have r: "render_response [(''Server'', ''Muduo'')] sample_response
      = ''HTTP/1.1 404 Not Found'' @ CRLF @ ''Content-Length: 1'' @ CRLF @
        ''Connection: Keep-Alive'' @ CRLF @ ''Server: Muduo'' @ CRLF @ CRLF @ ''x''"
    by (simp add: render_response_def sample_response_def show_int_def show_nat.simps render_headers_def)
  have "list_all (\<lambda>xs. length xs \<le> Buffer_chunk) (appendToBuffer_args ?it sample_response)"
    by (simp add: appendToBuffer_args_def sample_response_def Buffer_chunk_def limit_defs
        InitialPrependSize_def CRLF_def snprintf_to_def show_int_def show_nat.simps)
  then show ?thesis
    using HttpResponse_appendToBuffer_correct [of fresh_buffer sample_response ?it] r
    by (simp add: limit_defs sample_response_def CRLF_def)
qed

end
