(* ===== verification/Http_Context.thy ===== *)
theory Http_Context
  imports Http_Message
begin

text \<open>
  The incremental HTTP request parser (\<open>src/http/HttpContext.h\<close>, \<open>src/http/HttpContext.cc\<close>).
  \<open>parseRequest\<close> is a loop over a state machine. In two of its states the loop body does
  nothing and the loop never ends, so the loop is a \<open>partial_function (option)\<close>: \<open>None\<close>
  means that the call does not return.
\<close>

section \<open>The parser\<close>

datatype HttpRequestParseState = kExpectRequestLine | kExpectHeaders | kExpectBody | kGotAll

record http_context =
  ctx_state :: HttpRequestParseState
  ctx_request :: http_request

definition HttpContext_ctor :: http_context where
  "HttpContext_ctor = \<lparr>ctx_state = kExpectRequestLine, ctx_request = HttpRequest_ctor\<rparr>"

definition HttpContext_gotAll :: "http_context \<Rightarrow> bool" where
  "HttpContext_gotAll c \<longleftrightarrow> ctx_state c = kGotAll"

definition HttpContext_reset :: "http_context \<Rightarrow> http_context" where
  "HttpContext_reset c =
     c\<lparr>ctx_state := kExpectRequestLine,
       ctx_request := fst (HttpRequest_swap (ctx_request c) HttpRequest_ctor)\<rparr>"

text \<open>
  \<open>processRequestLine (begin, end)\<close> on the range \<open>line\<close>: the returned flag and the request
  with the fields that were set before the first problem.
\<close>

definition HttpContext_processRequestLine :: "bytes \<Rightarrow> http_request \<Rightarrow> bool \<times> http_request" where
  "HttpContext_processRequestLine line r =
     (let space = std_find (CHR '' '') line in
      if space \<noteq> length line
      then (case HttpRequest_setMethod (take space line) r of (valid, r1) \<Rightarrow>
        if valid
        then (let rest = drop (Suc space) line; space2 = std_find (CHR '' '') rest in
          if space2 \<noteq> length rest
          then (let target = take space2 rest;
                    question = std_find (CHR ''?'') target;
                    r2 = (if question \<noteq> length target
                          then HttpRequest_setQuery (drop question target)
                                 (HttpRequest_setPath (take question target) r1)
                          else HttpRequest_setPath target r1);
                    ver = drop (Suc space2) rest in
            if length ver = 8 \<and> take 7 ver = ''HTTP/1.''
            then (if ver ! 7 = CHR ''1'' then (True, HttpRequest_setVersion kHttp11 r2)
                  else if ver ! 7 = CHR ''0'' then (True, HttpRequest_setVersion kHttp10 r2)
                  else (False, r2))
            else (False, r2))
          else (False, r1))
        else (False, r1))
      else (False, r))"

text \<open>The line in front of the offset \<open>crlf\<close> that \<open>findCRLF\<close> reported.\<close>

definition line_upto :: "nat \<Rightarrow> buffer \<Rightarrow> bytes" where
  "line_upto crlf buf = segment (buffer_data buf) (Buffer_peek buf) crlf"

partial_function (option) HttpContext_parse_loop ::
    "int \<Rightarrow> bool \<Rightarrow> http_context \<Rightarrow> buffer \<Rightarrow> (bool \<times> http_context \<times> buffer) res option" where
  "HttpContext_parse_loop receiveTime ok c buf =
     (case ctx_state c of
        kExpectRequestLine \<Rightarrow>
          (case Buffer_findCRLF buf of
             None \<Rightarrow> Some (Inr (ok, c, buf))
           | Some crlf \<Rightarrow>
               (case HttpContext_processRequestLine (line_upto crlf buf) (ctx_request c) of (ok', r) \<Rightarrow>
                  if ok'
                  then HttpContext_parse_loop receiveTime ok'
                         (c\<lparr>ctx_request := HttpRequest_setReceiveTime receiveTime r,
                            ctx_state := kExpectHeaders\<rparr>)
                         (Buffer_retrieveUtil (crlf + 2) buf)
                  else Some (Inr (ok', c\<lparr>ctx_request := r\<rparr>, buf))))
      | kExpectHeaders \<Rightarrow>
          (case Buffer_findCRLF buf of
             None \<Rightarrow> Some (Inr (ok, c, buf))
           | Some crlf \<Rightarrow>
               (if std_find (CHR '':'') (line_upto crlf buf) \<noteq> length (line_upto crlf buf)
                then (case HttpRequest_addHeader (line_upto crlf buf)
                             (std_find (CHR '':'') (line_upto crlf buf)) (ctx_request c) of
                        Inl e \<Rightarrow> Some (Inl e)
                      | Inr r \<Rightarrow> HttpContext_parse_loop receiveTime ok (c\<lparr>ctx_request := r\<rparr>)
                                   (Buffer_retrieveUtil (crlf + 2) buf))
                else Some (Inr (ok, c\<lparr>ctx_state := kGotAll\<rparr>, Buffer_retrieveUtil (crlf + 2) buf))))
      | kExpectBody \<Rightarrow> HttpContext_parse_loop receiveTime ok c buf
      | kGotAll \<Rightarrow> HttpContext_parse_loop receiveTime ok c buf)"

definition HttpContext_parseRequest ::
    "buffer \<Rightarrow> int \<Rightarrow> http_context \<Rightarrow> (bool \<times> http_context \<times> buffer) res option" where
  "HttpContext_parseRequest buf receiveTime c = HttpContext_parse_loop receiveTime False c buf"


section \<open>A reference parser on the readable bytes\<close>

text \<open>
  The same state machine on a plain byte list, by recursion on the bytes that are left:
  \<open>parse_headers\<close> and \<open>parse_bytes\<close> return the flag, the context and the unread bytes.
\<close>

definition split_line :: "bytes \<Rightarrow> (bytes \<times> bytes) option" where
  "split_line xs =
     (let i = std_search CRLF xs
      in if i = length xs then None else Some (take i xs, drop (i + 2) xs))"

lemma split_line_shorter [dest]: "split_line xs = Some (l, ys) \<Longrightarrow> length ys < length xs"
  using std_search_le [of CRLF xs] by (auto simp: split_line_def Let_def split: if_splits)

lemma split_line_append [simp]:
  "CR \<notin> set line \<Longrightarrow> split_line (line @ CRLF @ rest) = Some (line, rest)"
  by (simp add: split_line_def Let_def) (simp add: CRLF_def)

lemma split_line_suffix: "split_line xs = Some (l, ys) \<Longrightarrow> \<exists>zs. xs = zs @ ys"
  by (auto simp: split_line_def Let_def split: if_splits) (metis append_take_drop_id)

lemma split_line_more: "split_line xs = Some (l, zs) \<Longrightarrow> split_line (xs @ ys) = Some (l, zs @ ys)"
  using std_search_le [of CRLF xs] std_search_append [of CRLF xs ys] std_search_hit_room [of CRLF xs]
  by (auto simp: split_line_def Let_def CRLF_def split: if_splits)

definition header_entry :: "bytes \<Rightarrow> bytes \<times> bytes" where
  "header_entry line =
     (take (std_find (CHR '':'') line) line,
      trim_trailing (skip_spaces (drop (Suc (std_find (CHR '':'') line)) line)))"

function parse_headers :: "http_request \<Rightarrow> bytes \<Rightarrow> HttpRequestParseState \<times> http_request \<times> bytes" where
  "parse_headers r xs =
     (case split_line xs of
        None \<Rightarrow> (kExpectHeaders, r, xs)
      | Some (line, ys) \<Rightarrow>
          if CHR '':'' \<in> set line
          then parse_headers (r\<lparr>req_headers := (req_headers r)(fst (header_entry line) \<mapsto> snd (header_entry line))\<rparr>) ys
          else (kGotAll, r, ys))"
  by pat_completeness auto
termination
  by (relation "measure (\<lambda>(r, xs). length xs)") auto

declare parse_headers.simps [simp del]

definition parse_bytes ::
    "int \<Rightarrow> http_request \<Rightarrow> bytes \<Rightarrow> bool \<times> HttpRequestParseState \<times> http_request \<times> bytes" where
  "parse_bytes t r xs =
     (case split_line xs of
        None \<Rightarrow> (False, kExpectRequestLine, r, xs)
      | Some (line, ys) \<Rightarrow>
          (case HttpContext_processRequestLine line r of (ok, r') \<Rightarrow>
             if ok then (True, parse_headers (HttpRequest_setReceiveTime t r') ys)
             else (False, kExpectRequestLine, r', xs)))"


section \<open>The loop implements the reference parser\<close>

text \<open>One search of the loop, seen from the readable bytes.\<close>

lemma findCRLF_split_line:
  assumes "Buffer_inv b" "int (length (Buffer_abs b)) \<le> INT_MAX"
  shows "case split_line (Buffer_abs b) of
      None \<Rightarrow> Buffer_findCRLF b = None
    | Some (line, ys) \<Rightarrow> \<exists>off. Buffer_findCRLF b = Some off \<and> line_upto off b = line \<and>
        Buffer_inv (Buffer_retrieveUtil (off + 2) b) \<and> Buffer_abs (Buffer_retrieveUtil (off + 2) b) = ys"
proof (cases "Buffer_findCRLF b")
  case None
  then show ?thesis using assms(1) by (simp add: split_line_def Buffer_findCRLF_None)
next
  case (Some off)
  note off = Buffer_findCRLF_Some [OF assms(1) Some]
  let ?i = "std_search CRLF (Buffer_abs b)"
  have "readIndex b + ?i \<le> writeIndex b"
    using off(2) Buffer_abs_length [OF assms(1)] by linarith
  then have line: "line_upto off b = take ?i (Buffer_abs b)"
    using off(1) take_segment [of "readIndex b" ?i "writeIndex b" "buffer_data b"]
    by (simp add: line_upto_def Buffer_peek_def Buffer_abs_def)
  have "readIndex b \<le> off + 2" "off + 2 - readIndex b = ?i + 2" using off(1) by simp_all
  moreover have "int (off + 2) - int (readIndex b) \<le> INT_MAX" using off assms(2) by simp
  ultimately have "Buffer_inv (Buffer_retrieveUtil (off + 2) b)"
    "Buffer_abs (Buffer_retrieveUtil (off + 2) b) = drop (?i + 2) (Buffer_abs b)"
    using Buffer_retrieveUtil_ok [OF assms(1), of "off + 2"] by simp_all
  moreover have "split_line (Buffer_abs b) = Some (take ?i (Buffer_abs b), drop (?i + 2) (Buffer_abs b))"
    using off(2) by (simp add: split_line_def Let_def)
  ultimately show ?thesis using Some line by auto
qed

lemma addHeader_entry:
  "CHR '':'' \<in> set line \<Longrightarrow> HttpRequest_addHeader line (std_find (CHR '':'') line) r
    = Inr (r\<lparr>req_headers := (req_headers r)(fst (header_entry line) \<mapsto> snd (header_entry line))\<rparr>)"
  using le_neq_implies_less [OF std_find_le [of "CHR '':''" line]]
  by (auto simp: HttpRequest_addHeader_def header_entry_def Let_def std_find_eq_length_iff)

lemma parse_loop_headers:
  assumes "Buffer_inv b" "int (length (Buffer_abs b)) \<le> INT_MAX" "ctx_state c = kExpectHeaders"
    and "parse_headers (ctx_request c) (Buffer_abs b) = (st, r, rest)"
  shows "\<exists>b'. HttpContext_parse_loop t ok c b = Some (Inr (ok, c\<lparr>ctx_state := st, ctx_request := r\<rparr>, b'))
    \<and> Buffer_inv b' \<and> Buffer_abs b' = rest"
  using assms
proof (induction "length (Buffer_abs b)" arbitrary: b c rule: less_induct)
  case less
  note find = findCRLF_split_line [OF less.prems(1,2)]
  note res = less.prems(4) [unfolded parse_headers.simps [of "ctx_request c" "Buffer_abs b"]]
  show ?case
  proof (cases "split_line (Buffer_abs b)")
    case None
    then show ?thesis
      using find res less.prems(1,3) by (simp add: HttpContext_parse_loop.simps [of t ok c b])
  next
    case (Some p)
    then obtain line ys where p: "split_line (Buffer_abs b) = Some (line, ys)" by (cases p) auto
    with find obtain off where off: "Buffer_findCRLF b = Some off" "line_upto off b = line"
      "Buffer_inv (Buffer_retrieveUtil (off + 2) b)" "Buffer_abs (Buffer_retrieveUtil (off + 2) b) = ys"
      by auto
    show ?thesis
    proof (cases "CHR '':'' \<in> set line")
      case False
      then show ?thesis
        using off p res less.prems(3) by (simp add: HttpContext_parse_loop.simps [of t ok c b])
    next
      case True
      let ?r = "(ctx_request c)\<lparr>req_headers := (req_headers (ctx_request c))(fst (header_entry line) \<mapsto> snd (header_entry line))\<rparr>"
      let ?b = "Buffer_retrieveUtil (off + 2) b"
      have step: "HttpContext_parse_loop t ok c b = HttpContext_parse_loop t ok (c\<lparr>ctx_request := ?r\<rparr>) ?b"
        using off True less.prems(3)
        by (simp add: HttpContext_parse_loop.simps [of t ok c b] addHeader_entry std_find_eq_length_iff)
      have shorter: "length (Buffer_abs ?b) < length (Buffer_abs b)" using p off(4) by auto
      then have "int (length (Buffer_abs ?b)) \<le> INT_MAX" using less.prems(2) by simp
      moreover have "parse_headers ?r (Buffer_abs ?b) = (st, r, rest)"
        using res p True off(4) by simp
      ultimately show ?thesis
        using less.hyps [OF shorter off(3), of "c\<lparr>ctx_request := ?r\<rparr>"] step less.prems(3) by simp
    qed
  qed
qed

lemma parse_loop_request_line:
  assumes "Buffer_inv b" "int (length (Buffer_abs b)) \<le> INT_MAX" "ctx_state c = kExpectRequestLine"
    and "parse_bytes t (ctx_request c) (Buffer_abs b) = (ok, st, r, rest)"
  shows "\<exists>b'. HttpContext_parseRequest b t c = Some (Inr (ok, c\<lparr>ctx_state := st, ctx_request := r\<rparr>, b'))
    \<and> Buffer_inv b' \<and> Buffer_abs b' = rest"
proof (cases "split_line (Buffer_abs b)")
  case None
  then show ?thesis
    using findCRLF_split_line [OF assms(1,2)] assms
    by (simp add: HttpContext_parseRequest_def HttpContext_parse_loop.simps [of t False c b] parse_bytes_def)
next
  case (Some p)
  then obtain line ys where p: "split_line (Buffer_abs b) = Some (line, ys)" by (cases p) auto
  with findCRLF_split_line [OF assms(1,2)] obtain off where
    off: "Buffer_findCRLF b = Some off" "line_upto off b = line"
      "Buffer_inv (Buffer_retrieveUtil (off + 2) b)" "Buffer_abs (Buffer_retrieveUtil (off + 2) b) = ys"
    by auto
  obtain ok1 r1 where l: "HttpContext_processRequestLine line (ctx_request c) = (ok1, r1)" by fastforce
  show ?thesis
  proof (cases ok1)
    case False
    then show ?thesis
      using off p l assms
      by (simp add: HttpContext_parseRequest_def HttpContext_parse_loop.simps [of t False c b] parse_bytes_def)
  next
    case True
    let ?c = "c\<lparr>ctx_request := HttpRequest_setReceiveTime t r1, ctx_state := kExpectHeaders\<rparr>"
    let ?b = "Buffer_retrieveUtil (off + 2) b"
    have "HttpContext_parseRequest b t c = HttpContext_parse_loop t True ?c ?b"
      using True off l assms(3)
      by (simp add: HttpContext_parseRequest_def HttpContext_parse_loop.simps [of t False c b])
    moreover have "ok" "parse_headers (ctx_request ?c) (Buffer_abs ?b) = (st, r, rest)"
      using assms(4) p l True off(4) by (auto simp: parse_bytes_def)
    moreover have "int (length (Buffer_abs ?b)) \<le> INT_MAX"
      using split_line_shorter [OF p] off(4) assms(2) by simp
    ultimately show ?thesis
      using parse_loop_headers [OF off(3), of ?c st r rest t True] by simp
  qed
qed

text \<open>Parsing moves the reading position; it never changes the size of the buffer.\<close>

lemma Buffer_size_retrieveUtil [simp]: "Buffer_size (Buffer_retrieveUtil n b) = Buffer_size b"
  by (simp add: Buffer_retrieveUtil_def Buffer_retrieve_def Buffer_retrieveAll_def Buffer_size_def)

lemma parse_loop_size:
  assumes "HttpContext_parse_loop t ok c b = Some y"
  shows "\<forall>ok' c' b'. y = Inr (ok', c', b') \<longrightarrow> Buffer_size b' = Buffer_size b"
proof (rule HttpContext_parse_loop.raw_induct
    [where P = "\<lambda>t ok c b y. \<forall>ok' c' b'. y = Inr (ok', c', b') \<longrightarrow> Buffer_size b' = Buffer_size b", OF _ assms], goal_cases)
  case (1 loop t ok c b y)
  have loop: "Buffer_size b' = Buffer_size b" if "loop t ok c b = Some (Inr (ok', c', b'))" for t ok c b ok' c' b'
    using 1(1) [OF that] by blast
  show ?case
    using 1(2) by (auto dest!: loop split: HttpRequestParseState.splits option.splits prod.splits if_splits sum.splits)
qed

lemma parse_headers_suffix:
  "parse_headers r xs = (st, r', rest) \<Longrightarrow> (\<exists>zs. xs = zs @ rest) \<and> st \<in> {kExpectHeaders, kGotAll}"
proof (induction r xs arbitrary: st r' rest rule: parse_headers.induct)
  case (1 r xs)
  show ?case
  proof (cases "split_line xs")
    case None
    then show ?thesis using "1.prems" by (simp add: parse_headers.simps [of r xs])
  next
    case (Some p)
    then obtain line ys where p: "split_line xs = Some (line, ys)" by (cases p) auto
    from split_line_suffix [OF p] obtain us where us: "xs = us @ ys" by blast
    show ?thesis
    proof (cases "CHR '':'' \<in> set line")
      case True
      then obtain zs where "ys = zs @ rest" "st \<in> {kExpectHeaders, kGotAll}"
        using "1.IH" [OF p refl True, of st r' rest] "1.prems" p
        by (auto simp: parse_headers.simps [of r xs])
      then show ?thesis using us by auto
    next
      case False
      then show ?thesis using "1.prems" p us by (auto simp: parse_headers.simps [of r "us @ ys"])
    qed
  qed
qed

text \<open>The two states without a transition: the loop spins.\<close>

lemma parse_loop_spins:
  assumes "ctx_state c \<in> {kExpectBody, kGotAll}"
  shows "HttpContext_parse_loop t ok c b = None"
proof (rule ccontr)
  assume "HttpContext_parse_loop t ok c b \<noteq> None"
  then obtain res where ret: "HttpContext_parse_loop t ok c b = Some res" by blast
  have "ctx_state c \<notin> {kExpectBody, kGotAll}"
  proof (rule HttpContext_parse_loop.raw_induct
      [where P = "\<lambda>t ok c b res. ctx_state c \<notin> {kExpectBody, kGotAll}", OF _ ret])
    fix f t ok c b res
    assume IH: "\<And>t ok c b res. f t ok c b = Some res \<Longrightarrow> ctx_state c \<notin> {kExpectBody, kGotAll}"
      and "(case ctx_state c of
        kExpectRequestLine \<Rightarrow>
          (case Buffer_findCRLF b of
             None \<Rightarrow> Some (Inr (ok, c, b))
           | Some crlf \<Rightarrow>
               (case HttpContext_processRequestLine (line_upto crlf b) (ctx_request c) of (ok', r) \<Rightarrow>
                  if ok'
                  then f t ok' (c\<lparr>ctx_request := HttpRequest_setReceiveTime t r, ctx_state := kExpectHeaders\<rparr>)
                         (Buffer_retrieveUtil (crlf + 2) b)
                  else Some (Inr (ok', c\<lparr>ctx_request := r\<rparr>, b))))
      | kExpectHeaders \<Rightarrow>
          (case Buffer_findCRLF b of
             None \<Rightarrow> Some (Inr (ok, c, b))
           | Some crlf \<Rightarrow>
               (if std_find (CHR '':'') (line_upto crlf b) \<noteq> length (line_upto crlf b)
                then (case HttpRequest_addHeader (line_upto crlf b)
                             (std_find (CHR '':'') (line_upto crlf b)) (ctx_request c) of
                        Inl e \<Rightarrow> Some (Inl e)
                      | Inr r \<Rightarrow> f t ok (c\<lparr>ctx_request := r\<rparr>) (Buffer_retrieveUtil (crlf + 2) b))
                else Some (Inr (ok, c\<lparr>ctx_state := kGotAll\<rparr>, Buffer_retrieveUtil (crlf + 2) b))))
      | kExpectBody \<Rightarrow> f t ok c b
      | kGotAll \<Rightarrow> f t ok c b) = Some res"
    then show "ctx_state c \<notin> {kExpectBody, kGotAll}"
      by (cases "ctx_state c") (auto dest: IH)
  qed
  with assms show False by simp
qed


section \<open>Well-formed requests\<close>

text \<open>
  A request as a client writes it: the request line, one line per header, an empty line.
\<close>

fun version_string :: "Version \<Rightarrow> bytes" where
  "version_string kHttp10 = ''HTTP/1.0''"
| "version_string kHttp11 = ''HTTP/1.1''"
| "version_string kUnknownVersion = []"

definition render_request_line :: "Method \<Rightarrow> bytes \<Rightarrow> bytes \<Rightarrow> Version \<Rightarrow> bytes" where
  "render_request_line m p q v =
     HttpRequest_methodString m @ CHR '' '' # p @ q @ CHR '' '' # version_string v"

definition render_request ::
    "Method \<Rightarrow> bytes \<Rightarrow> bytes \<Rightarrow> Version \<Rightarrow> (bytes \<times> bytes) list \<Rightarrow> bytes" where
  "render_request m p q v hs = render_request_line m p q v @ CRLF @ render_headers hs @ CRLF"

definition wf_target :: "bytes \<Rightarrow> bytes \<Rightarrow> bool" where
  "wf_target p q \<longleftrightarrow> CHR '' '' \<notin> set (p @ q) \<and> CR \<notin> set (p @ q) \<and> CHR ''?'' \<notin> set p \<and>
     (q = [] \<or> hd q = CHR ''?'')"

definition wf_header :: "bytes \<times> bytes \<Rightarrow> bool" where
  "wf_header h \<longleftrightarrow> CHR '':'' \<notin> set (fst h) \<and> CR \<notin> set (fst h @ snd h) \<and> trimmed (snd h)"

definition upd_headers :: "(bytes \<rightharpoonup> bytes) \<Rightarrow> (bytes \<times> bytes) list \<Rightarrow> (bytes \<rightharpoonup> bytes)" where
  "upd_headers m hs = foldl (\<lambda>m (k, v). m(k \<mapsto> v)) m hs"

lemma method_chars: "m \<noteq> kInvalid \<Longrightarrow> CHR '' '' \<notin> set (HttpRequest_methodString m)"
  "CR \<notin> set (HttpRequest_methodString m)"
  by (cases m; simp add: CR_def)+

lemma version_chars: "CR \<notin> set (version_string v)"
  by (cases v) (simp_all add: CR_def)

lemma processRequestLine_render:
  assumes "m \<noteq> kInvalid" "v \<noteq> kUnknownVersion" "wf_target p q" "req_query r = []"
  shows "HttpContext_processRequestLine (render_request_line m p q v) r
    = (True, r\<lparr>req_method := m, req_path := p, req_query := q, req_version := v\<rparr>)"
proof -
  have s1: "std_find (CHR '' '') (render_request_line m p q v) = length (HttpRequest_methodString m)"
    using method_chars(1) [OF assms(1)] by (simp add: render_request_line_def)
  have s2: "std_find (CHR '' '') ((p @ q) @ CHR '' '' # version_string v) = length (p @ q)"
    using assms(3) by (intro std_find_append_hit) (auto simp: wf_target_def)
  have s3: "std_find (CHR ''?'') (p @ q) = length p"
    using assms(3) by (cases q) (auto simp: wf_target_def)
  have v: "length (version_string v) = 8" "take 7 (version_string v) = ''HTTP/1.''"
    "version_string v ! 7 = (if v = kHttp11 then CHR ''1'' else CHR ''0'')"
    using assms(2) by (cases v; simp)+
  have "v = kHttp10 \<or> v = kHttp11" using assms(2) by (cases v) auto
  then show ?thesis
    using s1 s2 s3 v assms(1,4)
    by (cases q) (auto simp: HttpContext_processRequestLine_def Let_def render_request_line_def
        HttpRequest_setPath_def HttpRequest_setQuery_def HttpRequest_setVersion_def)
qed

lemma parse_headers_render:
  assumes "\<forall>h \<in> set hs. wf_header h"
  shows "parse_headers r (render_headers hs @ CRLF @ rest)
    = (kGotAll, r\<lparr>req_headers := upd_headers (req_headers r) hs\<rparr>, rest)"
  using assms
proof (induction hs arbitrary: r)
  case Nil
  have "split_line (CRLF @ rest) = Some ([], rest)" using split_line_append [of "[]" rest] by simp
  then show ?case
    by (simp add: parse_headers.simps [of r] render_headers_def upd_headers_def)
next
  case (Cons h hs)
  obtain k v where h: "h = (k, v)" by fastforce
  let ?line = "k @ '': '' @ v"
  have wf: "CHR '':'' \<notin> set k" "CR \<notin> set ?line" "trimmed v"
    using Cons.prems h by (auto simp: wf_header_def CR_def)
  have "render_headers (h # hs) @ CRLF @ rest = ?line @ CRLF @ render_headers hs @ CRLF @ rest"
    using h by (simp add: render_headers_def)
  then have sl: "split_line (render_headers (h # hs) @ CRLF @ rest)
      = Some (?line, render_headers hs @ CRLF @ rest)"
    using wf(2) by (metis split_line_append)
  have "header_entry ?line = (k, v)"
    using wf by (simp add: header_entry_def)
  then show ?case
    using Cons.IH [of "r\<lparr>req_headers := (req_headers r)(k \<mapsto> v)\<rparr>"] Cons.prems sl h
    by (simp add: parse_headers.simps [of r] upd_headers_def fun_upd_def)
qed

lemma parse_bytes_render:
  assumes "m \<noteq> kInvalid" "v \<noteq> kUnknownVersion" "wf_target p q" "req_query r = []"
    and "\<forall>h \<in> set hs. wf_header h"
  shows "parse_bytes t r (render_request m p q v hs @ rest) = (True, kGotAll,
    r\<lparr>req_method := m, req_path := p, req_query := q, req_version := v, req_receiveTime := t,
      req_headers := upd_headers (req_headers r) hs\<rparr>, rest)"
proof -
  have "CR \<notin> set (render_request_line m p q v)"
    using method_chars(2) [of m] version_chars [of v] assms(3)
    by (auto simp: render_request_line_def wf_target_def CR_def)
  then have "split_line (render_request m p q v hs @ rest)
      = Some (render_request_line m p q v, render_headers hs @ CRLF @ rest)"
    by (simp add: render_request_def)
  then show ?thesis
    using processRequestLine_render [OF assms(1-4)] parse_headers_render [OF assms(5)]
    by (simp add: parse_bytes_def HttpRequest_setReceiveTime_def)
qed

section \<open>Requests that arrive in pieces\<close>

lemma parse_headers_resume:
  "parse_headers r xs = (kExpectHeaders, r', rest) \<Longrightarrow> parse_headers r (xs @ ys) = parse_headers r' (rest @ ys)"
proof (induction r xs rule: parse_headers.induct)
  case (1 r xs)
  show ?case
  proof (cases "split_line xs")
    case None
    then show ?thesis using "1.prems" by (simp add: parse_headers.simps [of r xs])
  next
    case (Some p)
    then obtain line zs where p: "split_line xs = Some (line, zs)" by (cases p) auto
    note more = split_line_more [OF p, of ys]
    have colon: "CHR '':'' \<in> set line"
      using "1.prems" p by (auto simp: parse_headers.simps [of r xs] split: if_splits)
    then show ?thesis
      using "1.IH" [OF p refl colon] "1.prems" p more
      by (simp add: parse_headers.simps [of r xs] parse_headers.simps [of r "xs @ ys"])
  qed
qed


section \<open>Properties\<close>

text \<open>
  C20. \<open>parseRequest\<close> on a context that expects a request line returns, and what it returns (the
  flag, the parser state, the request and the bytes left in the buffer) is what the reference
  parser computes from the readable bytes.
\<close>

theorem parseRequest_refines_parse_bytes:
  assumes "Buffer_inv b" "int (length (Buffer_abs b)) \<le> INT_MAX" "ctx_state c = kExpectRequestLine"
  shows "\<exists>b'. Buffer_inv b' \<and> (case parse_bytes t (ctx_request c) (Buffer_abs b) of (ok, st, r, rest) \<Rightarrow>
    HttpContext_parseRequest b t c = Some (Inr (ok, c\<lparr>ctx_state := st, ctx_request := r\<rparr>, b')) \<and>
    Buffer_abs b' = rest)"
proof -
  obtain ok st r rest where p: "parse_bytes t (ctx_request c) (Buffer_abs b) = (ok, st, r, rest)"
    by (metis prod.exhaust)
  from parse_loop_request_line [OF assms p] show ?thesis unfolding p by auto
qed

theorem parseRequest_refines_parse_bytes_witness:
  "\<exists>b'. Buffer_inv b' \<and> (case parse_bytes 7 (ctx_request HttpContext_ctor) (Buffer_abs fresh_buffer) of (ok, st, r, rest) \<Rightarrow>
    HttpContext_parseRequest fresh_buffer 7 HttpContext_ctor
      = Some (Inr (ok, HttpContext_ctor\<lparr>ctx_state := st, ctx_request := r\<rparr>, b')) \<and> Buffer_abs b' = rest)"
  by (rule parseRequest_refines_parse_bytes) (simp_all add: HttpContext_ctor_def limit_defs)

text \<open>
  C17. Round trip: a request written by a client (a known method, a target without blanks, version
  1.0 or 1.1, header fields without colon whose values have no blanks at the ends, no carriage
  returns) that is complete in the buffer is parsed to exactly these parts; the parser reports
  success, is in state \<open>kGotAll\<close>, and leaves the bytes behind the request in the buffer.
\<close>

theorem parseRequest_roundtrip:
  assumes "Buffer_inv b" "int (length (Buffer_abs b)) \<le> INT_MAX"
    and "Buffer_abs b = render_request m p q v hs @ rest"
    and "m \<noteq> kInvalid" "v \<noteq> kUnknownVersion" "wf_target p q" "list_all wf_header hs"
  shows "\<exists>c' b'. HttpContext_parseRequest b t HttpContext_ctor = Some (Inr (True, c', b')) \<and>
    HttpContext_gotAll c' \<and> req_method (ctx_request c') = m \<and> req_path (ctx_request c') = p \<and>
    req_query (ctx_request c') = q \<and> req_version (ctx_request c') = v \<and>
    req_receiveTime (ctx_request c') = t \<and> req_headers (ctx_request c') = upd_headers Map.empty hs \<and>
    Buffer_abs b' = rest"
proof -
  have "req_query HttpRequest_ctor = []" by (simp add: HttpRequest_ctor_def)
  then have "parse_bytes t (ctx_request HttpContext_ctor) (Buffer_abs b) = (True, kGotAll,
      HttpRequest_ctor\<lparr>req_method := m, req_path := p, req_query := q, req_version := v,
        req_receiveTime := t, req_headers := upd_headers (req_headers HttpRequest_ctor) hs\<rparr>, rest)"
    using parse_bytes_render [OF assms(4-6)] assms(3,7) by (simp add: HttpContext_ctor_def list_all_iff)
  from parse_loop_request_line [OF assms(1,2) _ this] show ?thesis
    by (auto simp: HttpContext_ctor_def HttpContext_gotAll_def HttpRequest_ctor_def)
qed

definition sample_request_buffer :: buffer where
  "sample_request_buffer = \<lparr>buffer_data = replicate 8 NUL @
       render_request kGet ''/a'' ''?b'' kHttp11 [(''Host'', ''h'')] @ ''x'',
     readIndex = 8, writeIndex = 8 + length (render_request kGet ''/a'' ''?b'' kHttp11 [(''Host'', ''h'')]) + 1\<rparr>"

lemma sample_request_buffer_ok:
  "Buffer_inv sample_request_buffer"
  "Buffer_abs sample_request_buffer = render_request kGet ''/a'' ''?b'' kHttp11 [(''Host'', ''h'')] @ ''x''"
  "int (length (Buffer_abs sample_request_buffer)) \<le> INT_MAX"
  by (simp_all add: sample_request_buffer_def Buffer_inv_def Buffer_size_def Buffer_abs_def segment_def
      render_request_def render_request_line_def render_headers_def CRLF_def limit_defs InitialPrependSize_def)

theorem parseRequest_roundtrip_witness:
  "\<exists>c' b'. HttpContext_parseRequest sample_request_buffer 7 HttpContext_ctor = Some (Inr (True, c', b')) \<and>
    HttpContext_gotAll c' \<and> req_method (ctx_request c') = kGet \<and> req_path (ctx_request c') = ''/a'' \<and>
    req_query (ctx_request c') = ''?b'' \<and> req_version (ctx_request c') = kHttp11 \<and>
    req_receiveTime (ctx_request c') = 7 \<and>
    req_headers (ctx_request c') = upd_headers Map.empty [(''Host'', ''h'')] \<and> Buffer_abs b' = ''x''"
  by (rule parseRequest_roundtrip [OF sample_request_buffer_ok(1,3,2)])
    (simp_all add: wf_target_def wf_header_def trimmed_def isspace_def CR_def)

text \<open>
  C28. Header lines may be split over any number of reads: when the parser has run out of bytes in
  the headers, a later call with more bytes in the buffer reaches the same state, request and rest
  as one call on all the bytes. But this later call returns false even when it completes the
  request, because the flag is only ever set by the request line.
\<close>

theorem parseRequest_resumed:
  assumes "Buffer_inv b" "int (length (Buffer_abs b)) \<le> INT_MAX" "ctx_state c = kExpectHeaders"
    and "parse_headers r0 xs = (kExpectHeaders, ctx_request c, rest)" "Buffer_abs b = rest @ ys"
  shows "\<exists>b'. (case parse_headers r0 (xs @ ys) of (st, r, rest') \<Rightarrow>
    HttpContext_parseRequest b t c = Some (Inr (False, c\<lparr>ctx_state := st, ctx_request := r\<rparr>, b')) \<and>
    Buffer_abs b' = rest')"
proof -
  have "parse_headers r0 (xs @ ys) = parse_headers (ctx_request c) (Buffer_abs b)"
    using parse_headers_resume [OF assms(4)] assms(5) by simp
  moreover obtain st r rest' where "parse_headers (ctx_request c) (Buffer_abs b) = (st, r, rest')"
    by (metis prod.exhaust)
  ultimately show ?thesis
    using parse_loop_headers [OF assms(1-3), of st r rest' t False]
    by (auto simp: HttpContext_parseRequest_def)
qed

definition split_request_buffer :: buffer where
  "split_request_buffer = \<lparr>buffer_data = replicate 8 NUL @ ''Ho'' @ ''st: h'' @ CRLF @ CRLF,
     readIndex = 8, writeIndex = 19\<rparr>"

theorem parseRequest_resumed_witness:
  "\<exists>b'. (case parse_headers HttpRequest_ctor (''Ho'' @ ''st: h'' @ CRLF @ CRLF) of (st, r, rest') \<Rightarrow>
    HttpContext_parseRequest split_request_buffer 7 \<lparr>ctx_state = kExpectHeaders, ctx_request = HttpRequest_ctor\<rparr>
      = Some (Inr (False, \<lparr>ctx_state = kExpectHeaders, ctx_request = HttpRequest_ctor\<rparr>
          \<lparr>ctx_state := st, ctx_request := r\<rparr>, b')) \<and>
    Buffer_abs b' = rest')"
proof (rule parseRequest_resumed)
  show "parse_headers HttpRequest_ctor ''Ho''
      = (kExpectHeaders, ctx_request \<lparr>ctx_state = kExpectHeaders, ctx_request = HttpRequest_ctor\<rparr>, ''Ho'')"
    by (simp add: parse_headers.simps split_line_def CRLF_def CR_def)
qed (simp_all add: split_request_buffer_def Buffer_inv_def Buffer_size_def Buffer_abs_def segment_def
    CRLF_def limit_defs InitialPrependSize_def)

text \<open>
  C29. \<open>parseRequest\<close> never returns when it is called on a context that is already complete
  (\<open>kGotAll\<close>) or expects a body: the loop body then neither changes the state nor clears
  \<open>hasMore\<close>. A caller has to reset the context first.
\<close>

theorem parseRequest_diverges:
  assumes "ctx_state c = kGotAll \<or> ctx_state c = kExpectBody"
  shows "HttpContext_parseRequest b t c = None \<and>
    (\<exists>out. HttpContext_parseRequest fresh_buffer t (HttpContext_reset c) = Some out)"
proof
  show "HttpContext_parseRequest b t c = None"
    using parse_loop_spins [of c t False b] assms by (auto simp add: HttpContext_parseRequest_def)
  have "Buffer_findCRLF fresh_buffer = None"
    by (simp add: Buffer_findCRLF_None)
  then show "\<exists>out. HttpContext_parseRequest fresh_buffer t (HttpContext_reset c) = Some out"
    by (simp add: HttpContext_parseRequest_def HttpContext_parse_loop.simps HttpContext_reset_def)
qed

theorem parseRequest_diverges_witness:
  "HttpContext_parseRequest fresh_buffer 7 \<lparr>ctx_state = kGotAll, ctx_request = HttpRequest_ctor\<rparr> = None"
  using parseRequest_diverges [of "\<lparr>ctx_state = kGotAll, ctx_request = HttpRequest_ctor\<rparr>"] by simp

end
