(* ===== verification/Http_Server.thy ===== *)
theory Http_Server
  imports Net_ConnState Http_Context
begin

text \<open>
  The HTTP server (\<open>src/http/HttpServer.h\<close>, \<open>src/http/HttpServer.cc\<close>) and the demonstration
  program (\<open>src/http/main.cc\<close>). The HTTP callback is a function from the request and the
  response object to the changed response; it may use the world, for instance the clock.
  \<open>iter\<close> is the iteration order of the header table of a response, \<open>tmp\<close> the address at which the
  text of a \<open>send\<close> is constructed. \<open>onMessage\<close> may fail to return only where \<open>parseRequest\<close> does.
\<close>

section \<open>HttpServer\<close>

type_synonym 'w http_callback = "http_request \<Rightarrow> http_response \<Rightarrow> 'w \<Rightarrow> http_response \<times> 'w"

definition defaultHttpCallback :: "'w http_callback" where
  "defaultHttpCallback req resp w =
     (HttpResponse_setCloseConnection True (HttpResponse_setStatusMessage ''Not Found''
        (HttpResponse_setStatusCode k404NotFound resp)), w)"

definition HttpServer_ctor ::
    "'k kernel \<Rightarrow> loop option \<Rightarrow> sockaddr_in \<Rightarrow> bytes \<Rightarrow> Option \<Rightarrow> chan
      \<Rightarrow> ('k, 'a) server_scheme \<Rightarrow> (('k, 'a) server_scheme http_callback \<times> ('k, 'a) server_scheme) res" where
  "HttpServer_ctor K lp listenAddr name opt ch s =
     rbind (TcpServer_ctor K lp listenAddr name opt ch s) (\<lambda>s1.
       Inr (defaultHttpCallback,
            TcpServer_setThreadNum 4 (TcpServer_setMessageCallback True (TcpServer_setConnectionCallback True s1))))"

definition HttpServer_setHttpCallback ::
    "('k, 'a) server_scheme http_callback \<Rightarrow> ('k, 'a) server_scheme http_callback \<Rightarrow> ('k, 'a) server_scheme http_callback" where
  "HttpServer_setHttpCallback cb httpCallback = cb"

definition HttpServer_start ::
    "'k kernel \<Rightarrow> int \<Rightarrow> (bytes \<Rightarrow> ('k, 'a) server_scheme \<Rightarrow> (loop \<times> ('k, 'a) server_scheme) res)
      \<Rightarrow> ('k, 'a) server_scheme \<Rightarrow> ('k, 'a) server_scheme res" where
  "HttpServer_start K tid startLoop s = TcpServer_start K tid startLoop None s"

text \<open>\<open>onConnection\<close> only logs.\<close>

definition HttpServer_onConnection :: "conn \<Rightarrow> ('k, 'a) world_scheme \<Rightarrow> ('k, 'a) world_scheme res" where
  "HttpServer_onConnection c w = Inr w"

text \<open>\<open>onRequest\<close>: the computed value of \<open>close\<close> is overwritten.\<close>

definition HttpServer_onRequest ::
    "'k kernel \<Rightarrow> int \<Rightarrow> ((bytes \<rightharpoonup> bytes) \<Rightarrow> (bytes \<times> bytes) list) \<Rightarrow> ('k, 'a) world_scheme http_callback
      \<Rightarrow> conn \<Rightarrow> http_request \<Rightarrow> ('k, 'a) world_scheme \<Rightarrow> ('k, 'a) world_scheme res" where
  "HttpServer_onRequest K tid iter cb c req w =
     (let connection = HttpRequest_getHeader ''Connection'' req;
          close0 = (connection = ''close'' \<or> req_version req = kHttp10 \<and> connection \<noteq> ''Keep-Alive'');
          close1 = True
      in case cb req (HttpResponse_ctor close1) w of (response, w1) \<Rightarrow>
         rbind (Buffer_ctor InitialSize) (\<lambda>buf.
         rbind (HttpResponse_appendToBuffer iter response buf) (\<lambda>buf1.
         rbind (TcpConnection_sendBuffer K tid c buf1 w1) (\<lambda>(buf2, w2).
           if resp_closeConnection response then TcpConnection_shutdown K tid c w2 else Inr w2))))"

definition bad_request :: bytes where
  "bad_request = ''HTTP/1.1 400 Bad Request'' @ CRLF @ CRLF"

text \<open>\<open>onMessage\<close>: every message gets a new parser; \<open>buf\<close> is the connection's input buffer.\<close>

definition HttpServer_onMessage ::
    "'k kernel \<Rightarrow> int \<Rightarrow> ((bytes \<rightharpoonup> bytes) \<Rightarrow> (bytes \<times> bytes) list) \<Rightarrow> ('k, 'a) world_scheme http_callback
      \<Rightarrow> nat \<Rightarrow> conn \<Rightarrow> int \<Rightarrow> ('k, 'a) world_scheme \<Rightarrow> ('k, 'a) world_scheme res option" where
  "HttpServer_onMessage K tid iter cb tmp c receiveTime w =
     (case HttpContext_parseRequest (conn_inputBuffer (conns w c)) receiveTime HttpContext_ctor of
        None \<Rightarrow> None
      | Some (Inl e) \<Rightarrow> Some (Inl e)
      | Some (Inr (ok, context, buf')) \<Rightarrow> Some (
          rbind (let w0 = upd_conn c (\<lambda>cn. cn\<lparr>conn_inputBuffer := buf'\<rparr>) w
                 in if \<not> ok then rbind (send_temporary K tid c tmp bad_request w0) (TcpConnection_shutdown K tid c)
                    else Inr w0)
            (\<lambda>w1. if HttpContext_gotAll context
                  then HttpServer_onRequest K tid iter cb c (ctx_request context) w1 else Inr w1)))"

text \<open>The callbacks that the constructor registers with the server.\<close>

definition http_callbacks ::
    "'k kernel \<Rightarrow> int \<Rightarrow> ((bytes \<rightharpoonup> bytes) \<Rightarrow> (bytes \<times> bytes) list) \<Rightarrow> ('k, 'a) server_scheme http_callback
      \<Rightarrow> nat \<Rightarrow> ('k, 'a) server_scheme callbacks" where
  "http_callbacks K tid iter cb tmp =
     \<lparr>connectionCallback = HttpServer_onConnection,
      messageCallback = (\<lambda>c t s. case HttpServer_onMessage K tid iter cb tmp c t s of None \<Rightarrow> Inl Diverges | Some r \<Rightarrow> r),
      closeCallback = TcpServer_removeConnection K tid\<rparr>"

text \<open>The server's contract with its user holds for the HTTP server.\<close>

interpretation http_user: server_user K "http_callbacks K tid iter cb tmp" for K tid iter cb tmp
  by unfold_locales (simp add: http_callbacks_def HttpServer_onConnection_def)

text \<open>The server moves no connection back, if the user's HTTP callback does not.\<close>

lemma onRequest_forward:
  assumes "\<And>req resp w. forward w (snd (cb req resp w))"
  shows "forward_res w (HttpServer_onRequest K tid iter cb c req w)"
proof -
  obtain response w1 where cb: "cb req (HttpResponse_ctor True) w = (response, w1)" by fastforce
  have w1: "forward w w1" using assms [of w req "HttpResponse_ctor True"] cb by simp
  have "forward_res w1 (rbind (rbind (TcpConnection_sendBuffer K tid c buf w1) (\<lambda>(b, w'). Inr w'))
      (\<lambda>w2. if resp_closeConnection response then TcpConnection_shutdown K tid c w2 else Inr w2))" for buf
    by (rule forward_rbind [OF sendBuffer_forward]) (simp add: shutdown_forward)
  then have "forward_res w1 (rbind (TcpConnection_sendBuffer K tid c buf w1)
      (\<lambda>(b, w2). if resp_closeConnection response then TcpConnection_shutdown K tid c w2 else Inr w2))" for buf
    by (simp add: rbind_assoc case_prod_unfold)
  note send = forward_from [OF w1 this]
  show ?thesis
    unfolding HttpServer_onRequest_def Let_def cb prod.case
    by (rule forward_rbind_value, rule forward_rbind_value, rule send)
qed

lemma onMessage_forward:
  assumes "\<And>req resp w. forward w (snd (cb req resp w))"
  shows "HttpServer_onMessage K tid iter cb tmp c t w = Some r \<Longrightarrow> forward_res w r"
proof -
  have bad: "forward_res v (rbind (send_temporary K tid c tmp bad_request v) (TcpConnection_shutdown K tid c))" for v :: "('a, 'b) world_scheme"
    by (rule forward_rbind [OF send_temporary_forward shutdown_forward])
  have upd: "forward w (upd_conn c (\<lambda>cn. cn\<lparr>conn_inputBuffer := b\<rparr>) w)" for b by simp
  show "HttpServer_onMessage K tid iter cb tmp c t w = Some r \<Longrightarrow> forward_res w r"
    by (auto simp: HttpServer_onMessage_def Let_def onRequest_forward [OF assms]
        intro!: forward_rbind forward_from [OF upd bad] onRequest_forward [OF assms] split: option.splits sum.splits)
qed

lemma http_forward_callbacks:
  assumes "\<And>req resp w. forward w (snd (cb req resp w))"
  shows "forward_callbacks (http_callbacks K tid iter cb tmp)"
  by unfold_locales (auto simp: http_callbacks_def HttpServer_onConnection_def removeConnection_forward
      onMessage_forward [OF assms] split: option.split)


section \<open>The demonstration program\<close>

definition favicon :: bytes where
  "favicon = map char_of [
     137, 80, 78, 71, 13, 10, 26, 10, 0, 0, 0, 13, 73, 72, 68, 82, 0, 0, 0, 16, 0, 0, 0, 16,
     8, 6, 0, 0, 0, 31, 243, 255, 97, 0, 0, 0, 25, 116, 69, 88, 116, 83, 111, 102, 116, 119, 97, 114,
     101, 0, 65, 100, 111, 98, 101, 32, 73, 109, 97, 103, 101, 82, 101, 97, 100, 121, 113, 201, 101, 60, 0, 0,
     1, 205, 73, 68, 65, 84, 120, 218, 148, 147, 57, 72, 3, 65, 20, 134, 255, 93, 98, 167, 4, 82, 196, 109,
     34, 30, 160, 70, 36, 8, 22, 22, 118, 10, 54, 186, 74, 154, 128, 8, 65, 180, 113, 133, 88, 137, 71, 176,
     73, 169, 81, 36, 205, 166, 8, 164, 72, 99, 145, 66, 11, 175, 86, 193, 70, 180, 21, 207, 34, 88, 152, 11,
     84, 72, 138, 100, 147, 141, 251, 70, 103, 201, 26, 20, 125, 240, 102, 118, 102, 223, 124, 239, 231, 103, 70, 168,
     213, 106, 72, 36, 18, 42, 0, 5, 191, 71, 212, 239, 247, 47, 54, 236, 18, 32, 30, 143, 215, 170, 213, 234,
     175, 73, 53, 70, 170, 84, 95, 159, 34, 65, 42, 149, 10, 131, 229, 114, 57, 100, 179, 89, 150, 153, 76, 6,
     233, 116, 154, 37, 133, 44, 203, 84, 167, 196, 98, 49, 181, 94, 0, 3, 104, 154, 198, 22, 130, 32, 88, 82,
     20, 69, 54, 83, 148, 203, 101, 120, 189, 94, 170, 85, 84, 35, 76, 192, 224, 226, 193, 143, 0, 158, 188, 9,
     65, 124, 62, 31, 131, 68, 34, 17, 213, 84, 64, 63, 56, 128, 119, 229, 51, 7, 184, 92, 46, 72, 146, 4,
     135, 195, 129, 64, 32, 64, 103, 152, 233, 54, 26, 166, 103, 21, 4, 227, 215, 200, 189, 21, 225, 105, 183, 67,
     171, 234, 120, 47, 106, 88, 146, 187, 24, 32, 159, 207, 51, 195, 184, 233, 78, 167, 211, 108, 74, 0, 105, 54,
     124, 142, 225, 254, 86, 132, 231, 60, 159, 114, 43, 58, 66, 123, 55, 102, 119, 174, 142, 14, 243, 189, 82, 169,
     100, 2, 66, 175, 133, 50, 102, 70, 186, 12, 217, 159, 29, 154, 108, 34, 230, 199, 58, 44, 128, 239, 193, 21,
     144, 7, 147, 162, 40, 160, 83, 106, 177, 184, 223, 41, 53, 67, 14, 63, 88, 252, 152, 218, 121, 106, 80, 64,
     0, 135, 174, 27, 23, 66, 180, 58, 63, 190, 121, 199, 10, 38, 182, 238, 217, 154, 96, 20, 147, 219, 143, 13,
     10, 46, 233, 35, 149, 41, 88, 0, 39, 235, 110, 86, 112, 188, 214, 203, 214, 71, 171, 61, 108, 125, 184, 210,
     221, 160, 96, 131, 186, 239, 95, 164, 234, 204, 2, 78, 174, 94, 112, 26, 236, 179, 64, 57, 172, 254, 242, 145,
     137, 103, 145, 133, 33, 168, 135, 183, 88, 126, 126, 133, 187, 205, 78, 78, 98, 116, 64, 250, 147, 137, 236, 30,
     236, 134, 2, 72, 38, 147, 208, 117, 29, 127, 9, 50, 149, 191, 31, 219, 215, 99, 138, 26, 247, 92, 193, 255,
     34, 74, 195, 135, 0, 3, 0, 75, 187, 248, 214, 42, 118, 152, 73, 0, 0, 0, 0, 73, 69, 78, 68, 174,
     66, 96, 130 :: nat]"

text \<open>The callback of \<open>main.cc\<close>; what it prints is not modelled.\<close>

definition main_onRequest :: "'k kernel \<Rightarrow> (int \<Rightarrow> tm) \<Rightarrow> ('k, 'a) world_scheme http_callback" where
  "main_onRequest K localtime req resp w =
     (if req_path req = ''/''
      then (let resp1 = HttpResponse_addHeader ''Server'' ''Muduo'' (HttpResponse_setContentType ''text/html''
                          (HttpResponse_setStatusMessage ''OK'' (HttpResponse_setStatusCode k200Ok resp)))
            in case Timestamp_now K w of (t, w1) \<Rightarrow>
                 (HttpResponse_setBody (''<html><head><title>This is title</title></head>''
                    @ ''<body><h1>Hello</h1>Now is '' @ Timestamp_toFormattedString localtime False t @ ''</body></html>'') resp1,
                  w1))
      else if req_path req = ''/favicon.ico''
      then (HttpResponse_setBody favicon (HttpResponse_setContentType ''image/png''
              (HttpResponse_setStatusMessage ''OK'' (HttpResponse_setStatusCode k200Ok resp))), w)
      else if req_path req = ''/hello''
      then (HttpResponse_setBody (''hello, world!'' @ [LF]) (HttpResponse_addHeader ''Server'' ''Muduo''
              (HttpResponse_setContentType ''text/plain''
              (HttpResponse_setStatusMessage ''OK'' (HttpResponse_setStatusCode k200Ok resp)))), w)
      else (HttpResponse_setCloseConnection True (HttpResponse_setStatusMessage ''Not Found''
              (HttpResponse_setStatusCode k404NotFound resp)), w))"

interpretation main_forward: forward_callbacks "http_callbacks K tid iter (main_onRequest K localtime) tmp" for K tid iter localtime tmp
  by (rule http_forward_callbacks) (simp add: main_onRequest_def Timestamp_now_def Let_def forward_def split: prod.split)

text \<open>
  \<open>main\<close>: the loop at address 0 with its wake-up channel 0, the acceptor's channel 1. The
  environment is \<open>use_poll\<close>, the creation of loop threads \<open>startLoop\<close>, the allocator \<open>alloc\<close>, the
  liveness of tied connections \<open>alive\<close>, and the callbacks that nobody sets. \<open>main_setup\<close> is what comes before the
  loop; it yields the HTTP callback of the server as well.
\<close>

definition main_setup ::
    "'k kernel \<Rightarrow> bool \<Rightarrow> int \<Rightarrow> (bytes \<Rightarrow> ('k, 'a) server_scheme \<Rightarrow> (loop \<times> ('k, 'a) server_scheme) res) \<Rightarrow> (int \<Rightarrow> tm)
      \<Rightarrow> ('k, 'a) server_scheme \<Rightarrow> (('k, 'a) server_scheme http_callback \<times> ('k, 'a) server_scheme) res" where
  "main_setup K use_poll tid startLoop localtime s =
     rbind (EventLoop_ctor K use_poll tid 0 0 s) (\<lambda>s1.
     rbind (HttpServer_ctor K (Some 0) (InetAddress_ctor 8080 ''127.0.0.1'') ''http-server'' kNoReusePort 1 s1) (\<lambda>(cb, s2).
     rbind (HttpServer_start K tid startLoop s2) (\<lambda>s3.
       Inr (HttpServer_setHttpCallback (main_onRequest K localtime) cb, s3))))"

definition main_program ::
    "'k kernel \<Rightarrow> bool \<Rightarrow> int \<Rightarrow> (bytes \<Rightarrow> ('k, 'a) server_scheme \<Rightarrow> (loop \<times> ('k, 'a) server_scheme) res)
      \<Rightarrow> (('k, 'a) server_scheme \<Rightarrow> conn \<times> chan) \<Rightarrow> (conn \<Rightarrow> ('k, 'a) server_scheme \<Rightarrow> bool)
      \<Rightarrow> ((bytes \<rightharpoonup> bytes) \<Rightarrow> (bytes \<times> bytes) list) \<Rightarrow> (int \<Rightarrow> tm) \<Rightarrow> nat
      \<Rightarrow> ('k, 'a) server_scheme \<Rightarrow> ('k, 'a) server_scheme res option" where
  "main_program K use_poll tid startLoop alloc alive iter localtime tmp s =
     (case main_setup K use_poll tid startLoop localtime s of
        Inl e \<Rightarrow> Some (Inl e)
      | Inr (cb, s3) \<Rightarrow>
          (let U = http_callbacks K tid iter cb tmp
           in EventLoop_loop K (Server_call K U alloc tid) alive
                (Server_exec K U (\<lambda>c s. Inl BadFunctionCall) (\<lambda>c n s. Inl BadFunctionCall) tid) 0 s3))"

section \<open>What a message does to the connection\<close>

text \<open>
  What is relied on of an HTTP callback: asked for \<open>req\<close> it answers \<open>resp\<close>, and of the world it
  changes at most the kernel state (reading the clock), without writing to any descriptor.
\<close>

definition callback_answers ::
    "('k \<Rightarrow> fd \<Rightarrow> bytes) \<Rightarrow> ('k, 'a) world_scheme http_callback \<Rightarrow> http_request \<Rightarrow> http_response \<Rightarrow> ('k, 'a) world_scheme \<Rightarrow> bool" where
  "callback_answers sent cb req resp w \<longleftrightarrow>
     (\<exists>k'. cb req (HttpResponse_ctor True) w = (resp, w\<lparr>kern := k'\<rparr>) \<and> sent k' = sent (kern w))"

lemma length_le_concat: "xs \<in> set xss \<Longrightarrow> length xs \<le> length (concat xss)"
  by (induction xss) auto

lemma response_buffer:
  assumes "length (render_response (iter (resp_headers r)) r) \<le> Buffer_chunk"
  shows "\<exists>b b1. Buffer_ctor InitialSize = Inr b \<and> HttpResponse_appendToBuffer iter r b = Inr b1 \<and> Buffer_inv b1 \<and>
    Buffer_abs b1 = render_response (iter (resp_headers r)) r"
proof -
  obtain b where b: "Buffer_ctor InitialSize = Inr b" "Buffer_inv b" "Buffer_abs b = []"
    "Buffer_size b = InitialSize + InitialPrependSize"
    using Buffer_ctor_ok [of InitialSize] by (auto simp: InitialSize_def InitialPrependSize_def limit_defs)
  have "length (resp_body r) \<le> length (render_response (iter (resp_headers r)) r)" by (simp add: render_response_def)
  then have "length (resp_body r) < 10 ^ 13" using assms by (simp add: Buffer_chunk_def limit_defs InitialPrependSize_def)
  note args = appendToBuffer_args_concat [OF this, of iter]
  have "\<forall>xs \<in> set (appendToBuffer_args iter r). length xs \<le> Buffer_chunk"
    using length_le_concat args assms by (metis order_trans)
  moreover have "Buffer_size b + length (concat (appendToBuffer_args iter r)) \<le> vector_max_size"
    using assms b(4) args by (simp add: Buffer_chunk_def limit_defs InitialSize_def InitialPrependSize_def)
  ultimately obtain b1 where "res_iter Buffer_append (appendToBuffer_args iter r) b = Inr b1" "Buffer_inv b1"
    "Buffer_abs b1 = Buffer_abs b @ concat (appendToBuffer_args iter r)"
    using bq.put_all_law [OF b(2)] by blast
  then show ?thesis using b args by (auto simp: HttpResponse_appendToBuffer_def)
qed

context net_kernel
begin

lemma onRequest_effect:
  assumes "conn_ready K tid (length (render_response (iter (resp_headers resp)) resp)) c w"
    and "callback_answers sent cb req resp w"
  shows "aborts_or (\<lambda>w'. conn_rest c w w' \<and> conn_ok c w' \<and> conn_room 0 c w' \<and>
      conn_stream sent c w' = conn_stream sent c w @ render_response (iter (resp_headers resp)) resp \<and>
      conn_state (conns w' c) = (if resp_closeConnection resp then kDisconnecting else kConnected))
    (HttpServer_onRequest K tid iter cb c req w)"
proof -
  let ?R = "render_response (iter (resp_headers resp)) resp"
  obtain k' where k': "cb req (HttpResponse_ctor True) w = (resp, w\<lparr>kern := k'\<rparr>)" "sent k' = sent (kern w)"
    using assms(2) by (auto simp: callback_answers_def)
  let ?w = "w\<lparr>kern := k'\<rparr>"
  have "length ?R \<le> Buffer_chunk" using assms(1) by (simp add: conn_ready_def conn_room_def)
  from response_buffer [where iter = iter, OF this] obtain b b1 where b: "Buffer_ctor InitialSize = Inr b"
    "HttpResponse_appendToBuffer iter resp b = Inr b1" "Buffer_inv b1" "Buffer_abs b1 = ?R" by blast
  have ready: "conn_ready K tid (length (Buffer_abs b1)) c ?w"
    using assms(1) b(4) by (simp add: conn_ready_def conn_ok_def conn_room_def)
  have str: "conn_stream sent c ?w = conn_stream sent c w" using k'(2) by (simp add: conn_stream_def)
  have rest: "conn_rest c w ?w" by (simp add: conn_rest_def)
  note run = HttpServer_onRequest_def [of K tid iter cb c req w]
  show ?thesis
  proof (cases "TcpConnection_sendBuffer K tid c b1 ?w")
    case (Inl e)
    then show ?thesis using sendBuffer_ready [OF b(3) ready] k' b by (simp add: run Let_def)
  next
    case (Inr p)
    then obtain b2 w2 where w2: "TcpConnection_sendBuffer K tid c b1 ?w = Inr (b2, w2)" by (cases p) auto
    then have eff: "conn_effect sent c (length ?R) ?R ?w w2" "conn_rest c ?w w2"
      using sendBuffer_ready [OF b(3) ready] b(4) by simp_all
    then have st: "conn_ok c w2" "conn_state (conns w2 c) = kConnected" "threadId (loops w2 (conn_loop (conns w2 c))) = tid"
      using ready by (simp_all add: conn_effect_def conn_ready_def conn_rest_def)
    from shutdown_ready [OF st] obtain w3 where w3: "TcpConnection_shutdown K tid c w2 = Inr w3" "conn_ok c w3"
      "conn_stream sent c w3 = conn_stream sent c w2" "conn_rest c w2 w3" "conn_state (conns w3 c) = kDisconnecting"
      "conn_outputBuffer (conns w3 c) = conn_outputBuffer (conns w2 c)" by blast
    have room: "conn_room 0 c w2" "conn_room 0 c w3"
      using ready eff(1) b(4) w3(6) by (simp_all add: conn_ready_def conn_room_def conn_effect_def)
    have "conn_rest c w w2" using rest eff(2) by (rule conn_rest_trans)
    then show ?thesis
      using k' b w2 w3 eff(1) str st(1,2) room conn_rest_trans [OF _ w3(4)] by (auto simp: run Let_def conn_effect_def)
  qed
qed

end

lemma onMessage_parsed:
  assumes "Buffer_inv (conn_inputBuffer (conns w c))" "int (length (Buffer_abs (conn_inputBuffer (conns w c)))) \<le> INT_MAX"
    and "parse_bytes t HttpRequest_ctor (Buffer_abs (conn_inputBuffer (conns w c))) = (ok, st, r, rest)"
  obtains b' where "Buffer_inv b'" "Buffer_abs b' = rest" "Buffer_size b' = Buffer_size (conn_inputBuffer (conns w c))"
    "HttpServer_onMessage K tid iter cb tmp c t w = Some (
       rbind (if \<not> ok then rbind (send_temporary K tid c tmp bad_request (with_input c b' w)) (TcpConnection_shutdown K tid c)
              else Inr (with_input c b' w))
         (\<lambda>w1. if st = kGotAll then HttpServer_onRequest K tid iter cb c r w1 else Inr w1))"
proof -
  have "ctx_state HttpContext_ctor = kExpectRequestLine" "ctx_request HttpContext_ctor = HttpRequest_ctor"
    by (simp_all add: HttpContext_ctor_def)
  then obtain b' where b': "HttpContext_parseRequest (conn_inputBuffer (conns w c)) t HttpContext_ctor
      = Some (Inr (ok, HttpContext_ctor\<lparr>ctx_state := st, ctx_request := r\<rparr>, b'))" "Buffer_inv b'" "Buffer_abs b' = rest"
    using parse_loop_request_line [OF assms(1,2), of HttpContext_ctor t ok st r rest] assms(3) by auto
  moreover have "Buffer_size b' = Buffer_size (conn_inputBuffer (conns w c))"
    using parse_loop_size [OF b'(1) [unfolded HttpContext_parseRequest_def]] by blast
  ultimately show ?thesis using that by (simp add: HttpServer_onMessage_def HttpContext_gotAll_def Let_def)
qed

lemma onMessage_waits:
  assumes "Buffer_inv (conn_inputBuffer (conns w c))" "int (length (Buffer_abs (conn_inputBuffer (conns w c)))) \<le> INT_MAX"
    and "parse_bytes t HttpRequest_ctor (Buffer_abs (conn_inputBuffer (conns w c))) = (True, st, r, rest)" "st \<noteq> kGotAll"
  shows "\<exists>b'. HttpServer_onMessage K tid iter cb tmp c t w = Some (Inr (with_input c b' w)) \<and> Buffer_abs b' = rest"
  using onMessage_parsed [OF assms(1-3), of K tid iter cb tmp] assms(4) by auto

lemma length_bad_request: "length bad_request = 28"
  by (simp add: bad_request_def CRLF_def)

context net_kernel
begin

lemma onMessage_rejects:
  assumes "conn_ready K tid (length bad_request) c w" "Buffer_inv (conn_inputBuffer (conns w c))"
    and "int (length (Buffer_abs (conn_inputBuffer (conns w c)))) \<le> INT_MAX"
    and "parse_bytes t HttpRequest_ctor (Buffer_abs (conn_inputBuffer (conns w c))) = (False, st, r, rest)" "st \<noteq> kGotAll"
  shows "\<exists>res. HttpServer_onMessage K tid iter cb tmp c t w = Some res \<and> (case res of Inl e \<Rightarrow> e = Aborted
    | Inr w' \<Rightarrow> conn_stream sent c w' = conn_stream sent c w @ bad_request \<and> conn_state (conns w' c) = kDisconnecting)"
proof -
  obtain b' where b': "Buffer_abs b' = rest"
    "HttpServer_onMessage K tid iter cb tmp c t w =
       Some (rbind (send_temporary K tid c tmp bad_request (with_input c b' w)) (TcpConnection_shutdown K tid c))"
    using onMessage_parsed [OF assms(2-4), of K tid iter cb tmp] assms(5) by auto
  let ?w = "with_input c b' w"
  have ready: "conn_ready K tid (length bad_request) c ?w" using assms(1) by simp
  show ?thesis
  proof (cases "send_temporary K tid c tmp bad_request ?w")
    case (Inl e)
    then show ?thesis using b' send_temporary_ready [OF ready, of tmp] by simp
  next
    case (Inr w1)
    then have eff: "conn_effect sent c (length bad_request) bad_request ?w w1" "conn_rest c ?w w1"
      using send_temporary_ready [OF ready, of tmp] by simp_all
    then have "conn_ok c w1" "conn_state (conns w1 c) = kConnected" "threadId (loops w1 (conn_loop (conns w1 c))) = tid"
      using assms(1) by (simp_all add: conn_effect_def conn_ready_def conn_rest_def)
    from shutdown_ready [OF this] show ?thesis
      using b' Inr eff by (auto simp: conn_effect_def)
  qed
qed

lemma onMessage_complete:
  assumes "conn_ready K tid (length (render_response (iter (resp_headers resp)) resp)) c w"
    and "Buffer_inv (conn_inputBuffer (conns w c))" "int (length (Buffer_abs (conn_inputBuffer (conns w c)))) \<le> INT_MAX"
    and "parse_bytes t HttpRequest_ctor (Buffer_abs (conn_inputBuffer (conns w c))) = (True, kGotAll, req, rest)"
    and "\<And>b. callback_answers sent cb req resp (with_input c b w)"
  shows "\<exists>res b. HttpServer_onMessage K tid iter cb tmp c t w = Some res \<and>
    Buffer_inv b \<and> Buffer_size b = Buffer_size (conn_inputBuffer (conns w c)) \<and>
    aborts_or (\<lambda>w'. conn_rest c (with_input c b w) w' \<and> conn_ok c w' \<and> conn_room 0 c w' \<and> Buffer_abs (conn_inputBuffer (conns w' c)) = rest \<and>
      conn_stream sent c w' = conn_stream sent c w @ render_response (iter (resp_headers resp)) resp \<and>
      conn_state (conns w' c) = (if resp_closeConnection resp then kDisconnecting else kConnected)) res"
proof -
  obtain b' where b': "Buffer_abs b' = rest"
    "HttpServer_onMessage K tid iter cb tmp c t w = Some (HttpServer_onRequest K tid iter cb c req (with_input c b' w))"
    "Buffer_inv b'" "Buffer_size b' = Buffer_size (conn_inputBuffer (conns w c))"
    using onMessage_parsed [OF assms(2-4), of K tid iter cb tmp] by auto
  let ?w = "with_input c b' w"
  have "conn_ready K tid (length (render_response (iter (resp_headers resp)) resp)) c ?w"
    using assms(1) by simp
  from onRequest_effect [where iter = iter, OF this assms(5)] have "aborts_or (\<lambda>w'. conn_rest c ?w w' \<and> conn_ok c w' \<and> conn_room 0 c w' \<and>
      Buffer_abs (conn_inputBuffer (conns w' c)) = rest \<and>
      conn_stream sent c w' = conn_stream sent c w @ render_response (iter (resp_headers resp)) resp \<and>
      conn_state (conns w' c) = (if resp_closeConnection resp then kDisconnecting else kConnected))
    (HttpServer_onRequest K tid iter cb c req ?w)"
    by (rule aborts_or_mono) (simp add: b'(1) conn_rest_def)
  with b'(2-4) show ?thesis by blast
qed

end

text \<open>
  A connection that is closing already. Whatever the message is, it is parsed and, if it is a request, answered by the
  callback, but nothing is sent. The callback is relied on as before, for every request, with responses that a buffer can hold.
\<close>

definition callback_quiet ::
    "('k \<Rightarrow> fd \<Rightarrow> bytes) \<Rightarrow> ((bytes \<rightharpoonup> bytes) \<Rightarrow> (bytes \<times> bytes) list) \<Rightarrow> ('k, 'a) world_scheme http_callback \<Rightarrow> bool" where
  "callback_quiet sent iter cb \<longleftrightarrow> (\<forall>req w. \<exists>resp. callback_answers sent cb req resp w \<and>
     length (render_response (iter (resp_headers resp)) resp) \<le> Buffer_chunk)"

lemma onRequest_ignored:
  assumes "conn_state (conns w c) \<noteq> kConnected" "callback_quiet sent iter cb"
  shows "\<exists>k. HttpServer_onRequest K tid iter cb c req w = Inr (w\<lparr>kern := k\<rparr>) \<and> sent k = sent (kern w)"
proof -
  obtain resp where resp: "callback_answers sent cb req resp w" "length (render_response (iter (resp_headers resp)) resp) \<le> Buffer_chunk"
    using assms(2) unfolding callback_quiet_def by blast
  obtain k where k: "cb req (HttpResponse_ctor True) w = (resp, w\<lparr>kern := k\<rparr>)" "sent k = sent (kern w)"
    using resp(1) by (auto simp: callback_answers_def)
  obtain b b1 where "Buffer_ctor InitialSize = Inr b" "HttpResponse_appendToBuffer iter resp b = Inr b1"
    using response_buffer [where iter = iter, OF resp(2)] by blast
  then have "HttpServer_onRequest K tid iter cb c req w = Inr (w\<lparr>kern := k\<rparr>)"
    using k(1) assms(1) by (simp add: HttpServer_onRequest_def Let_def send_not_connected)
  with k(2) show ?thesis by blast
qed

lemma onMessage_ignored:
  assumes "Buffer_inv (conn_inputBuffer (conns w c))" "int (length (Buffer_abs (conn_inputBuffer (conns w c)))) \<le> INT_MAX"
    and "conn_state (conns w c) \<noteq> kConnected" "callback_quiet sent iter cb"
  shows "\<exists>b k strs. HttpServer_onMessage K tid iter cb tmp c t w = Some (Inr ((with_input c b w)\<lparr>kern := k, strings := strs\<rparr>)) \<and>
    Buffer_inv b \<and> Buffer_size b = Buffer_size (conn_inputBuffer (conns w c)) \<and> sent k = sent (kern w)"
proof -
  obtain ok st req rest where "parse_bytes t HttpRequest_ctor (Buffer_abs (conn_inputBuffer (conns w c))) = (ok, st, req, rest)"
    using prod_cases4 by blast
  from onMessage_parsed [OF assms(1,2) this, of K tid iter cb tmp] obtain b where
    b: "Buffer_inv b" "Buffer_size b = Buffer_size (conn_inputBuffer (conns w c))"
      "HttpServer_onMessage K tid iter cb tmp c t w = Some (
       rbind (if \<not> ok then rbind (send_temporary K tid c tmp bad_request (with_input c b w)) (TcpConnection_shutdown K tid c)
              else Inr (with_input c b w))
         (\<lambda>w1. if st = kGotAll then HttpServer_onRequest K tid iter cb c req w1 else Inr w1))" by blast
  define strs where "strs = (if ok then strings w else (strings w)(tmp := None))"
  let ?w1 = "(with_input c b w)\<lparr>strings := strs\<rparr>"
  have "(with_input c b w)\<lparr>strings := strings w\<rparr> = with_input c b w" by (rule world.equality) simp_all
  then have w1: "(if \<not> ok then rbind (send_temporary K tid c tmp bad_request (with_input c b w)) (TcpConnection_shutdown K tid c)
              else Inr (with_input c b w)) = Inr ?w1"
    using assms(3) by (simp add: send_not_connected strs_def)
  have same: "?w1\<lparr>kern := j\<rparr> = (with_input c b w)\<lparr>kern := j, strings := strs\<rparr>" for j by simp
  have "\<exists>k. HttpServer_onMessage K tid iter cb tmp c t w = Some (Inr (?w1\<lparr>kern := k\<rparr>)) \<and> sent k = sent (kern w)"
  proof (cases "st = kGotAll")
    case True
    have "conn_state (conns ?w1 c) \<noteq> kConnected" using assms(3) by simp
    from onRequest_ignored [OF this assms(4), of K tid req] b(3) True show ?thesis unfolding w1 by auto
  next
    case False
    have "?w1\<lparr>kern := kern w\<rparr> = ?w1" by (rule world.equality) simp_all
    then show ?thesis using b(3) False unfolding w1 by (intro exI [of _ "kern w"]) simp
  qed
  then have "\<exists>k strs. HttpServer_onMessage K tid iter cb tmp c t w = Some (Inr ((with_input c b w)\<lparr>kern := k, strings := strs\<rparr>)) \<and> sent k = sent (kern w)"
    unfolding same by blast
  with b(1,2) show ?thesis by blast
qed

section \<open>Properties\<close>

definition parsed_request :: "Method \<Rightarrow> bytes \<Rightarrow> bytes \<Rightarrow> Version \<Rightarrow> int \<Rightarrow> (bytes \<times> bytes) list \<Rightarrow> http_request" where
  "parsed_request m p q v t hs = HttpRequest_ctor\<lparr>req_method := m, req_path := p, req_query := q, req_version := v,
     req_receiveTime := t, req_headers := upd_headers (req_headers HttpRequest_ctor) hs\<rparr>"

text \<open>
  The server answers a request. When a message event finds a complete well-formed request in the
  input buffer of an established connection (and the callback answers that request with a
  response), \<open>onMessage\<close> returns, exactly the rendered response is added to what the peer is sent,
  exactly the request is consumed from the input buffer, and the connection is shut down if the
  response says so. The only failure is the abort of a refused \<open>epoll_ctl\<close>. Note that the
  response object is created with \<open>close = true\<close>, whatever the request says.
\<close>

theorem HttpServer_answers_request:
  assumes "net_kernel K interest sent"
    and "conn_ready K tid (length (render_response (iter (resp_headers resp)) resp)) c w"
    and "Buffer_inv (conn_inputBuffer (conns w c))" "int (length (Buffer_abs (conn_inputBuffer (conns w c)))) \<le> INT_MAX"
    and "Buffer_abs (conn_inputBuffer (conns w c)) = render_request m p q v hs @ rest"
    and "m \<noteq> kInvalid" "v \<noteq> kUnknownVersion" "wf_target p q" "list_all wf_header hs"
    and "\<And>b. callback_answers sent cb (parsed_request m p q v t hs) resp (with_input c b w)"
  shows "\<exists>res. HttpServer_onMessage K tid iter cb tmp c t w = Some res \<and>
    aborts_or (\<lambda>w'. Buffer_abs (conn_inputBuffer (conns w' c)) = rest \<and>
      conn_stream sent c w' = conn_stream sent c w @ render_response (iter (resp_headers resp)) resp \<and>
      conn_state (conns w' c) = (if resp_closeConnection resp then kDisconnecting else kConnected)) res"
proof -
  have "req_query HttpRequest_ctor = []" by (simp add: HttpRequest_ctor_def)
  then have "parse_bytes t HttpRequest_ctor (Buffer_abs (conn_inputBuffer (conns w c))) =
      (True, kGotAll, parsed_request m p q v t hs, rest)"
    using parse_bytes_render [OF assms(6-8)] assms(5,9) by (simp add: parsed_request_def list_all_iff)
  from net_kernel.onMessage_complete [where iter = iter, OF assms(1-4) this assms(10)] show ?thesis
    by (blast intro: aborts_or_mono)
qed

definition sample_http :: "ref_state world" where
  "sample_http = upd_conn 1 (\<lambda>cn. cn\<lparr>conn_inputBuffer := sample_request_buffer\<rparr>) sample_world"

definition epoch_tm :: tm where
  "epoch_tm = \<lparr>tm_year = 70, tm_mon = 0, tm_mday = 1, tm_hour = 0, tm_min = 0, tm_sec = 0\<rparr>"

definition not_found :: http_response where
  "not_found = \<lparr>resp_headers = Map.empty, resp_statusCode = k404NotFound, resp_statusMessage = ''Not Found'',
     resp_closeConnection = True, resp_body = []\<rparr>"

lemma sample_http_ready: "n \<le> 1000 \<Longrightarrow> conn_ready ref_kernel 100 n 1 sample_http"
  by (auto simp: conn_ready_def sample_http_def conn_ok_def conn_room_def sample_defs link_up_def ref_defs
      Buffer_chunk_def limit_defs InitialPrependSize_def EWOULDBLOCK_def EPIPE_def ECONNRESET_def split: list.splits)

lemma sample_http_input: "conn_inputBuffer (conns sample_http 1) = sample_request_buffer"
  by (simp add: sample_http_def)

lemma not_found_rendered: "render_response [] not_found = ''HTTP/1.1 404 Not Found'' @ CRLF @ ''Connection: close'' @ CRLF @ CRLF"
  by (simp add: render_response_def not_found_def show_int_def show_nat.simps render_headers_def)

theorem HttpServer_answers_request_witness:
  "\<exists>res. HttpServer_onMessage ref_kernel 100 (\<lambda>_. []) (main_onRequest ref_kernel (\<lambda>_. epoch_tm)) 3 1 7 sample_http = Some res \<and>
    aborts_or (\<lambda>w'. Buffer_abs (conn_inputBuffer (conns w' 1)) = ''x'' \<and>
      conn_stream rk_sent 1 w' = conn_stream rk_sent 1 sample_http @ render_response [] not_found \<and>
      conn_state (conns w' 1) = (if resp_closeConnection not_found then kDisconnecting else kConnected)) res"
proof -
  let ?cb = "main_onRequest ref_kernel (\<lambda>_. epoch_tm)" and ?req = "parsed_request kGet ''/a'' ''?b'' kHttp11 7 [(''Host'', ''h'')]"
  have cb: "callback_answers rk_sent ?cb ?req not_found (w :: ref_state world)" for w
    by (auto simp: callback_answers_def main_onRequest_def parsed_request_def not_found_def HttpResponse_ctor_def
        HttpResponse_setCloseConnection_def HttpResponse_setStatusMessage_def HttpResponse_setStatusCode_def
        intro: exI [of _ "kern w"])
  have ready: "conn_ready ref_kernel 100 (length (render_response [] not_found)) 1 sample_http"
    by (rule sample_http_ready) (simp add: not_found_rendered CRLF_def)
  show ?thesis
    using HttpServer_answers_request [where iter = "\<lambda>_. []" and K = ref_kernel and c = 1 and w = sample_http and resp = not_found
        and t = 7 and tmp = 3 and hs = "[(''Host'', ''h'')]" and m = kGet and p = "''/a''" and q = "''?b''" and v = kHttp11
        and rest = "''x''" and cb = ?cb, OF rk.net_kernel_axioms ready] sample_request_buffer_ok cb
    by (simp add: sample_http_input wf_target_def wf_header_def trimmed_def isspace_def CR_def del: One_nat_def)
qed

text \<open>A header line is never a request line: the text in front of its first blank names no method.\<close>

lemma header_line_no_request:
  assumes "CHR '' '' \<notin> set k"
  shows "\<exists>r. HttpContext_processRequestLine (k @ '': '' @ v) HttpRequest_ctor = (False, r)"
proof -
  have "std_find (CHR '' '') (k @ '': '' @ v) = Suc (length k)"
    using std_find_append_hit [of "CHR '' ''" "k @ '':''" v] assms by simp
  moreover have "fst (HttpRequest_setMethod (k @ '':'') HttpRequest_ctor) = False"
  proof -
    have "k @ '':'' \<noteq> HttpRequest_methodString m" for m
    proof
      assume "k @ '':'' = HttpRequest_methodString m"
      then have "CHR '':'' \<in> set (HttpRequest_methodString m)" by (metis in_set_conv_decomp)
      then show False by (cases m) auto
    qed
    from this [of kGet] this [of kPost] this [of kHead] this [of kPut] this [of kDelete] show ?thesis
      by (simp add: HttpRequest_setMethod_def Let_def HttpRequest_ctor_def)
  qed
  ultimately show ?thesis
    by (auto simp: HttpContext_processRequestLine_def Let_def split: prod.splits)
qed

lemma parse_bytes_header_line:
  assumes "wf_header (k, v)" "CHR '' '' \<notin> set k"
  shows "\<exists>r. parse_bytes t HttpRequest_ctor (k @ '': '' @ v @ CRLF @ rest) =
    (False, kExpectRequestLine, r, k @ '': '' @ v @ CRLF @ rest)"
proof -
  have "CR \<notin> set (k @ '': '' @ v)" using assms(1) by (auto simp: wf_header_def CR_def)
  from split_line_append [OF this, of rest] show ?thesis
    using header_line_no_request [OF assms(2), of v] by (auto simp: parse_bytes_def)
qed

lemma parse_bytes_request_line:
  assumes "m \<noteq> kInvalid" "v \<noteq> kUnknownVersion" "wf_target p q"
  shows "\<exists>r. parse_bytes t HttpRequest_ctor (render_request_line m p q v @ CRLF) = (True, kExpectHeaders, r, [])"
proof -
  have "CR \<notin> set (render_request_line m p q v)"
    using method_chars(2) [of m] version_chars [of v] assms(1,3)
    by (auto simp: render_request_line_def wf_target_def CR_def)
  from split_line_append [OF this, of "[]"] show ?thesis
    using processRequestLine_render [OF assms, of HttpRequest_ctor]
    by (auto simp: parse_bytes_def HttpRequest_ctor_def parse_headers.simps split_line_def Let_def CRLF_def)
qed

text \<open>
  C25. A request that arrives in two pieces is rejected. Suppose the request line arrives first, in
  a message of its own. Then \<open>onMessage\<close> answers nothing, but it consumes the line, and the parser
  that has seen it is discarded when the call returns. When the rest of the request arrives, beginning with a
  header line, it is parsed as a request line by a new parser: the peer is sent a 400 response and the
  connection is shut down, although the request is well formed.
\<close>

theorem HttpServer_rejects_split_request:
  assumes "net_kernel K interest sent" "conn_ready K tid (length bad_request) c w"
    and "Buffer_inv (conn_inputBuffer (conns w c))" "int (length (Buffer_abs (conn_inputBuffer (conns w c)))) \<le> INT_MAX"
    and "Buffer_abs (conn_inputBuffer (conns w c)) = render_request_line m p q v @ CRLF"
    and "m \<noteq> kInvalid" "v \<noteq> kUnknownVersion" "wf_target p q"
    and "Buffer_inv b2" "int (length (Buffer_abs b2)) \<le> INT_MAX"
    and "Buffer_abs b2 = hk @ '': '' @ hv @ CRLF @ rest" "wf_header (hk, hv)" "CHR '' '' \<notin> set hk"
  shows "\<exists>w1. HttpServer_onMessage K tid iter cb tmp c t w = Some (Inr w1) \<and>
    Buffer_abs (conn_inputBuffer (conns w1 c)) = [] \<and> conn_stream sent c w1 = conn_stream sent c w \<and>
    conn_state (conns w1 c) = kConnected \<and>
    (\<exists>res. HttpServer_onMessage K tid iter cb tmp c t2 (with_input c b2 w1) = Some res \<and> (case res of Inl e \<Rightarrow> e = Aborted
       | Inr w2 \<Rightarrow> conn_stream sent c w2 = conn_stream sent c w @ bad_request \<and> conn_state (conns w2 c) = kDisconnecting))"
proof -
  obtain r where "parse_bytes t HttpRequest_ctor (Buffer_abs (conn_inputBuffer (conns w c))) = (True, kExpectHeaders, r, [])"
    using parse_bytes_request_line [OF assms(6-8)] assms(5) by metis
  from onMessage_waits [OF assms(3,4) this] obtain b1 where
    b1: "HttpServer_onMessage K tid iter cb tmp c t w = Some (Inr (with_input c b1 w))" "Buffer_abs b1 = []" by blast
  let ?w = "with_input c b2 (with_input c b1 w)"
  obtain r2 where r2: "parse_bytes t2 HttpRequest_ctor (Buffer_abs (conn_inputBuffer (conns ?w c))) =
      (False, kExpectRequestLine, r2, Buffer_abs b2)"
    using parse_bytes_header_line [OF assms(12,13)] assms(11) by (auto simp del: append_assoc)
  have "conn_ready K tid (length bad_request) c ?w" using assms(2) by (simp only: with_input_simps)
  from net_kernel.onMessage_rejects [OF assms(1) this _ _ r2] assms(9,10) have
    "\<exists>res. HttpServer_onMessage K tid iter cb tmp c t2 ?w = Some res \<and> (case res of Inl e \<Rightarrow> e = Aborted
       | Inr w2 \<Rightarrow> conn_stream sent c w2 = conn_stream sent c w @ bad_request \<and> conn_state (conns w2 c) = kDisconnecting)"
    by (simp only: with_input_simps) simp
  moreover have "conn_state (conns w c) = kConnected" using assms(2) by (simp add: conn_ready_def)
  ultimately show ?thesis using b1 by (intro exI [of _ "with_input c b1 w"]) simp
qed

definition sample_line_buffer :: buffer where
  "sample_line_buffer = \<lparr>buffer_data = replicate 8 NUL @ render_request_line kGet ''/a'' [] kHttp11 @ CRLF,
     readIndex = 8, writeIndex = 8 + length (render_request_line kGet ''/a'' [] kHttp11) + 2\<rparr>"

definition sample_header_buffer :: buffer where
  "sample_header_buffer = \<lparr>buffer_data = replicate 8 NUL @ ''Host: h'' @ CRLF @ CRLF, readIndex = 8, writeIndex = 19\<rparr>"

lemmas sample_buffer_defs = Buffer_inv_def Buffer_size_def Buffer_abs_def segment_def render_request_line_def CRLF_def
  limit_defs InitialPrependSize_def

theorem HttpServer_rejects_split_request_witness:
  "\<exists>w1. HttpServer_onMessage ref_kernel 100 (\<lambda>_. []) defaultHttpCallback 3 1 7 (with_input 1 sample_line_buffer sample_http) = Some (Inr w1) \<and>
    Buffer_abs (conn_inputBuffer (conns w1 1)) = [] \<and>
    conn_stream rk_sent 1 w1 = conn_stream rk_sent 1 (with_input 1 sample_line_buffer sample_http) \<and>
    conn_state (conns w1 1) = kConnected \<and>
    (\<exists>res. HttpServer_onMessage ref_kernel 100 (\<lambda>_. []) defaultHttpCallback 3 1 8 (with_input 1 sample_header_buffer w1) = Some res \<and>
      (case res of Inl e \<Rightarrow> e = Aborted
       | Inr w2 \<Rightarrow> conn_stream rk_sent 1 w2 = conn_stream rk_sent 1 (with_input 1 sample_line_buffer sample_http) @ bad_request \<and>
           conn_state (conns w2 1) = kDisconnecting))"
proof (rule HttpServer_rejects_split_request [where m = kGet and p = "''/a''" and q = "[]" and v = kHttp11
    and hk = "''Host''" and hv = "''h''" and rest = CRLF, OF rk.net_kernel_axioms])
  show "conn_ready ref_kernel 100 (length bad_request) 1 (with_input 1 sample_line_buffer sample_http)"
    using sample_http_ready [of "length bad_request"] length_bad_request by simp
qed (simp_all add: sample_line_buffer_def sample_header_buffer_def sample_buffer_defs wf_target_def wf_header_def trimmed_def
      isspace_def CR_def)

end
