(* ===== verification/Net_Turn.thy ===== *)
theory Net_Turn
  imports Net_InLoop
begin

unbundle bit_operations_syntax

text \<open>
  One turn of an event loop of the server, with any list of reported events and, as the special case most proofs need, with one
  event for one channel: what polling leaves behind, which handlers run, and the functors afterwards. The last section
  says what the kernel reports over many turns. The lifetime of a
  connection object is modelled here as well: \<open>conn_held\<close> says whether a shared pointer to it exists.
\<close>

section \<open>Lifetimes\<close>

text \<open>
  Which functors own the connection they are bound to. \<open>sendInLoop\<close> and \<open>shutdownInLoop\<close> are bound to
  the raw \<open>this\<close>; all others are bound to a \<open>TcpConnectionPtr\<close>.
\<close>

fun functor_holds :: "conn \<Rightarrow> Functor \<Rightarrow> bool" where
  "functor_holds c (F_connectEstablished d) \<longleftrightarrow> d = c"
| "functor_holds c (F_connectDestroyed d) \<longleftrightarrow> d = c"
| "functor_holds c (F_writeComplete d) \<longleftrightarrow> d = c"
| "functor_holds c (F_highWaterMark d n) \<longleftrightarrow> d = c"
| "functor_holds c (F_removeConnectionInLoop d) \<longleftrightarrow> d = c"
| "functor_holds c (F_sendInLoop_ptr d p n) \<longleftrightarrow> False"
| "functor_holds c (F_sendInLoop_str d xs) \<longleftrightarrow> False"
| "functor_holds c (F_shutdownInLoop d) \<longleftrightarrow> False"
| "functor_holds c F_Acceptor_listen \<longleftrightarrow> False"

text \<open>
  A connection is held by the server's table and by the functors pending in the server's loops.
  This is what \<open>tie_.lock()\<close> finds when an event is dispatched.
\<close>

definition conn_held :: "conn \<Rightarrow> ('k, 'a) server_scheme \<Rightarrow> bool" where
  "conn_held c s \<longleftrightarrow> c \<in> ran (srv_connections s) \<or>
     list_ex (\<lambda>l. list_ex (functor_holds c) (pendingFunctors (loops s l)))
       (pool_baseLoop (srv_pool s) # pool_loops (srv_pool s))"


section \<open>Polling\<close>

text \<open>The world after a poll that reported \<open>ev\<close> for the channel \<open>ch\<close> to the loop \<open>l\<close>.\<close>

definition polled ::
    "loop \<Rightarrow> chan \<Rightarrow> 32 word \<Rightarrow> 'k \<Rightarrow> ('k, 'a) world_scheme \<Rightarrow> ('k, 'a) world_scheme \<Rightarrow> bool" where
  "polled l ch ev k w wp \<longleftrightarrow> kern wp = k \<and> conns wp = conns w \<and> strings wp = strings w \<and> world.more wp = world.more w \<and> error_log wp = error_log w \<and>
     chans wp = (chans w)(ch := (chans w ch)\<lparr>ch_revents := ev\<rparr>) \<and>
     (\<exists>n act t. loops wp = (loops w)(l := (loops w l)\<lparr>poller_events_size := n, activeChannels := act, pollReturnTime := t\<rparr>))"

lemma polled_loops:
  assumes "polled l ch ev k w wp"
  shows "threadId (loops wp l') = threadId (loops w l')" "wakeupFd (loops wp l') = wakeupFd (loops w l')"
    "pendingFunctors (loops wp l') = pendingFunctors (loops w l')" "epollfd (loops wp l') = epollfd (loops w l')"
    "poller_channels (loops wp l') = poller_channels (loops w l')"
    "callingPendingFunctors (loops wp l') = callingPendingFunctors (loops w l')"
  using assms by (auto simp: polled_def split: if_splits)

lemma polled_chans:
  assumes "polled l ch ev k w wp"
  shows "ch_fd (chans wp d) = ch_fd (chans w d)" "ch_events (chans wp d) = ch_events (chans w d)"
    "ch_loop (chans wp d) = ch_loop (chans w d)" "ch_index (chans wp d) = ch_index (chans w d)"
    "ch_tied (chans wp d) = ch_tied (chans w d)" "ch_tie (chans wp d) = ch_tie (chans w d)"
    "ch_readCallback (chans wp d) = ch_readCallback (chans w d)"
    "ch_writeCallback (chans wp d) = ch_writeCallback (chans w d)" "ch_revents (chans wp ch) = ev"
  using assms by (auto simp: polled_def)

lemma polled_world:
  assumes "polled l ch ev k w wp"
  shows "kern wp = k" "conns wp = conns w" "strings wp = strings w" "world.more wp = world.more w"
    "error_log wp = error_log w"
  using assms by (auto simp: polled_def)

lemmas polled_frame = polled_world polled_chans polled_loops

lemma rbind_res_iter_Nil [simp]: "rbind m (res_iter f []) = m"
  by (cases m) simp_all

text \<open>A poll that reported the events \<open>evs\<close>, each with its channel; \<open>polled\<close> is the case of one event.\<close>

definition polled_events ::
    "loop \<Rightarrow> epoll_event list \<Rightarrow> 'k \<Rightarrow> ('k, 'a) world_scheme \<Rightarrow> ('k, 'a) world_scheme \<Rightarrow> bool" where
  "polled_events l evs k w wp \<longleftrightarrow> kern wp = k \<and> conns wp = conns w \<and> strings wp = strings w \<and> world.more wp = world.more w \<and>
     error_log wp = error_log w \<and> chans wp = chans (fill_from evs w) \<and>
     (\<exists>n act t. loops wp = (loops w)(l := (loops w l)\<lparr>poller_events_size := n, activeChannels := act, pollReturnTime := t\<rparr>))"

lemma polled_events_single: "polled_events l [(ev, ch)] k w wp = polled l ch ev k w wp"
  by (simp add: polled_events_def polled_def)

lemma polled_events_loops:
  assumes "polled_events l evs k w wp"
  shows "threadId (loops wp l') = threadId (loops w l')" "wakeupFd (loops wp l') = wakeupFd (loops w l')"
    "pendingFunctors (loops wp l') = pendingFunctors (loops w l')" "epollfd (loops wp l') = epollfd (loops w l')"
  using assms by (auto simp: polled_events_def split: if_splits)

lemma polled_events_chans:
  assumes "polled_events l evs k w wp"
  shows "ch_fd (chans wp d) = ch_fd (chans w d)" "ch_events (chans wp d) = ch_events (chans w d)"
    "ch_loop (chans wp d) = ch_loop (chans w d)" "ch_index (chans wp d) = ch_index (chans w d)"
    "ch_tied (chans wp d) = ch_tied (chans w d)" "ch_tie (chans wp d) = ch_tie (chans w d)"
    "ch_readCallback (chans wp d) = ch_readCallback (chans w d)"
    "ch_writeCallback (chans wp d) = ch_writeCallback (chans w d)"
  using assms fill_from_revents [of evs w d] by (auto simp: polled_events_def)

lemma polled_events_world:
  assumes "polled_events l evs k w wp"
  shows "kern wp = k" "conns wp = conns w" "strings wp = strings w" "world.more wp = world.more w"
    "error_log wp = error_log w"
  using assms by (auto simp: polled_events_def)

lemmas polled_events_frame = polled_events_world polled_events_chans polled_events_loops

lemma polled_events_revents:
  "polled_events l evs k w wp \<Longrightarrow> distinct (map snd evs) \<Longrightarrow> (ev, ch) \<in> set evs \<Longrightarrow> ch_revents (chans wp ch) = ev"
  by (simp add: polled_events_def fill_from_reported)

lemma EventLoop_turn_events:
  assumes "epoll_wait K (epollfd (loops w l)) (poller_events_size (loops w l)) (kern w) = (Inr evs, k1)"
    and "sys_gettimeofday K k1 = ((ts, us), k2)" and "length evs \<le> nat INT_MAX"
  obtains wp where "polled_events l evs k2 w wp" "EventLoop_turn K call alive exec l w =
      rbind (res_iter (Channel_handleEvent (call (ts * kMicroSecondsPerSecond + us)) alive) (map snd evs) wp)
        (EventLoop_doPendingFunctors exec l)"
proof -
  have n: "size_t (int (length evs)) = length evs" "int32 (int (length evs)) = int (length evs)"
    using assms(3) by (simp_all add: conv_simps limit_defs)
  let ?full = "evs \<noteq> [] \<and> length evs = poller_events_size (loops w l)"
  let ?v = "(upd_loop l (\<lambda>p. p\<lparr>activeChannels := []\<rparr>) w)\<lparr>kern := k2\<rparr>"
  define wp where "wp = (fill_from evs ?v)\<lparr>loops := (loops w)(l := (loops w l)\<lparr>
      poller_events_size := (if ?full then poller_events_size (loops w l) * 2 else poller_events_size (loops w l)),
      activeChannels := map snd evs, pollReturnTime := ts * kMicroSecondsPerSecond + us\<rparr>)\<rparr>"
  have "EventLoop_turn K call alive exec l w =
      rbind (res_iter (Channel_handleEvent (call (ts * kMicroSecondsPerSecond + us)) alive) (map snd evs) wp)
        (EventLoop_doPendingFunctors exec l)"
    using assms(1,2) n by (auto simp: EventLoop_turn_def EpollPoller_poll_def Timestamp_now_def EpollPoller_fillActiveChannels_def
        Let_def wp_def)
  moreover have "chans wp = chans (fill_from evs w)" unfolding wp_def by (simp add: fill_from_chans [of ?v w])
  then have "polled_events l evs k2 w wp" unfolding polled_events_def by (intro conjI exI) (simp_all add: wp_def)
  ultimately show thesis by (rule that [rotated])
qed

lemma EventLoop_turn_single:
  assumes "epoll_wait K (epollfd (loops w l)) (poller_events_size (loops w l)) (kern w) = (Inr [(ev, ch)], k1)"
    and "sys_gettimeofday K k1 = ((ts, us), k2)"
  obtains wp where "polled l ch ev k2 w wp" "EventLoop_turn K call alive exec l w =
      rbind (Channel_handleEvent (call (ts * kMicroSecondsPerSecond + us)) alive ch wp) (EventLoop_doPendingFunctors exec l)"
proof (rule EventLoop_turn_events [where call = call and alive = alive and exec = exec, OF assms])
  show "length [(ev, ch)] \<le> nat INT_MAX" by (simp add: limit_defs)
qed (use that in \<open>simp add: polled_events_single\<close>)

lemma conn_held_polled:
  assumes "polled l ch ev k s sp"
  shows "conn_held c sp = conn_held c s"
  using more_server_fields(1,3) [OF polled_world(4) [OF assms]] polled_loops(3) [OF assms] by (simp add: conn_held_def)

lemma chan_ok_polled:
  assumes "polled l ch ev k w wp" "interest k = interest (kern w)"
  shows "chan_ok interest d wp = chan_ok interest d w"
  using assms by (simp add: chan_ok_def Let_def polled_frame [OF assms(1)])


context polling_kernel
begin

lemma poll_kernel:
  assumes "epoll_wait K ep n k = (r, k1)" "sys_gettimeofday K k1 = (tv, k2)"
  shows "sent k2 = sent k" "interest k2 = interest k"
  using assms by (metis wait_sent clock_sent) (metis assms wait_interest clock_interest)

end

section \<open>Dispatch\<close>

lemma event_bits: "EPOLLIN AND EPOLLHUP = 0" "EPOLLIN AND EPOLLERR = 0" "EPOLLIN AND (EPOLLIN OR EPOLLPRI) \<noteq> 0"
  "EPOLLIN AND EPOLLOUT = 0" "EPOLLOUT AND EPOLLHUP = 0" "EPOLLOUT AND EPOLLERR = 0"
  "EPOLLOUT AND (EPOLLIN OR EPOLLPRI) = 0" "EPOLLOUT AND EPOLLOUT \<noteq> 0"
  by (simp_all add: event_defs)

lemma handleEventWithGuard_input:
  assumes "ch_revents (chans w ch) = EPOLLIN" "ch_readCallback (chans w ch) = Some h"
    and "\<And>w'. call h w = Inr w' \<Longrightarrow> ch_revents (chans w' ch) = EPOLLIN"
  shows "Channel_handleEventWithGuard call ch w = call h w"
  using assms event_bits by (cases "call h w") (auto simp: Channel_handleEventWithGuard_def call_if_def)

lemma handleEventWithGuard_output:
  assumes "ch_revents (chans w ch) = EPOLLOUT" "ch_writeCallback (chans w ch) = Some h"
  shows "Channel_handleEventWithGuard call ch w = call h w"
  using assms event_bits by (simp add: Channel_handleEventWithGuard_def call_if_def)

text \<open>The guard of a channel is open: it is not tied, or tied to an object that is alive.\<close>

definition chan_open :: "(conn \<Rightarrow> ('k, 'a) world_scheme \<Rightarrow> bool) \<Rightarrow> chan \<Rightarrow> ('k, 'a) world_scheme \<Rightarrow> bool" where
  "chan_open alive ch w \<longleftrightarrow> (ch_tied (chans w ch) \<longrightarrow> (\<exists>c. ch_tie (chans w ch) = Some c \<and> alive c w))"

lemma handleEvent_open: "chan_open alive ch w \<Longrightarrow> Channel_handleEvent call alive ch w = Channel_handleEventWithGuard call ch w"
  by (auto simp: Channel_handleEvent_def chan_open_def)


section \<open>Functors\<close>

lemma doPendingFunctors_empty:
  "pendingFunctors (loops w l) = [] \<Longrightarrow> \<exists>w'. EventLoop_doPendingFunctors exec l w = Inr w' \<and>
     kern w' = kern w \<and> conns w' = conns w \<and> chans w' = chans w \<and> world.more w' = world.more w \<and> error_log w' = error_log w \<and>
     loops w' = (loops w)(l := (loops w l)\<lparr>callingPendingFunctors := False\<rparr>)"
  by (auto simp: EventLoop_doPendingFunctors_def doPendingFunctors_swap_def doPendingFunctors_done_def)

section \<open>A served connection\<close>

text \<open>
  A connection as \<open>newConnection\<close> and \<open>connectEstablished\<close> leave it, seen by its loop \<open>l\<close>: it is in the
  server's table, its channel is tied to it and calls its handlers, and no functor is pending.
\<close>

definition conn_served :: "loop \<Rightarrow> conn \<Rightarrow> ('k, 'a) server_scheme \<Rightarrow> bool" where
  "conn_served l c s \<longleftrightarrow> c \<in> ran (srv_connections s) \<and> ch_tied (chan_of c s) \<and> ch_tie (chan_of c s) = Some c \<and>
     ch_readCallback (chan_of c s) = Some (H_TcpConnection_handleRead c) \<and>
     ch_writeCallback (chan_of c s) = Some (H_TcpConnection_handleWrite c) \<and>
     conn_hasMessageCallback (conns s c) \<and> \<not> conn_hasWriteCompleteCallback (conns s c) \<and>
     \<not> conn_hasHighWaterMarkCallback (conns s c) \<and> pendingFunctors (loops s l) = []"

lemma conn_served_polled: "polled l' ch ev k s sp \<Longrightarrow> conn_served l c sp = conn_served l c s"
  by (simp add: conn_served_def polled_frame more_server_fields(1) [OF polled_world(4)])

lemma conn_ready_polled: "polled l ch ev k w wp \<Longrightarrow> conn_ready K tid n c wp = conn_ready K tid n c w"
  by (simp add: conn_ready_def conn_ok_def conn_room_def Channel_isWriting_def polled_frame)

lemma conn_stream_polled: "polled l ch ev k w wp \<Longrightarrow> sent k = sent (kern w) \<Longrightarrow> conn_stream sent c wp = conn_stream sent c w"
  by (simp add: conn_stream_def polled_frame)

lemma conn_served_open: "conn_served l c s \<Longrightarrow> chan_open conn_held (conn_channel (conns s c)) s"
  by (simp add: conn_served_def chan_open_def conn_held_def)

text \<open>A turn that finds input on a served connection runs \<open>handleRead\<close> and then the functors.\<close>

lemma EventLoop_turn_input:
  assumes "conn_served l c s"
    and "epoll_wait K (epollfd (loops s l)) (poller_events_size (loops s l)) (kern s) =
      (Inr [(EPOLLIN, conn_channel (conns s c))], k1)"
    and "sys_gettimeofday K k1 = ((ts, us), k2)"
    and "\<And>sp s'. polled l (conn_channel (conns s c)) EPOLLIN k2 s sp \<Longrightarrow>
      TcpConnection_handleRead K (server_callbacks K tid U) c (ts * kMicroSecondsPerSecond + us) sp = Inr s' \<Longrightarrow>
      ch_revents (chans s' (conn_channel (conns s c))) = EPOLLIN"
  obtains sp where "polled l (conn_channel (conns s c)) EPOLLIN k2 s sp"
    "EventLoop_turn K (Server_call K U alloc tid) conn_held (Server_exec K U wc hw tid) l s =
      rbind (TcpConnection_handleRead K (server_callbacks K tid U) c (ts * kMicroSecondsPerSecond + us) sp)
        (EventLoop_doPendingFunctors (Server_exec K U wc hw tid) l)"
proof -
  let ?ch = "conn_channel (conns s c)" and ?t = "ts * kMicroSecondsPerSecond + us"
  obtain sp where sp: "polled l ?ch EPOLLIN k2 s sp"
    "EventLoop_turn K (Server_call K U alloc tid) conn_held (Server_exec K U wc hw tid) l s =
      rbind (Channel_handleEvent (Server_call K U alloc tid ?t) conn_held ?ch sp) (EventLoop_doPendingFunctors (Server_exec K U wc hw tid) l)"
    using EventLoop_turn_single [OF assms(2,3), of "Server_call K U alloc tid" conn_held "Server_exec K U wc hw tid"] by blast
  note served = assms(1) [folded conn_served_polled [OF sp(1)]]
  have ch: "conn_channel (conns sp c) = ?ch" by (simp add: polled_world [OF sp(1)])
  have "Channel_handleEvent (Server_call K U alloc tid ?t) conn_held ?ch sp =
      TcpConnection_handleRead K (server_callbacks K tid U) c ?t sp"
    using handleEvent_open [OF conn_served_open [OF served], of "Server_call K U alloc tid ?t"]
      handleEventWithGuard_input [where call = "Server_call K U alloc tid ?t" and ch = ?ch and w = sp
        and h = "H_TcpConnection_handleRead c"]
      served assms(4) [OF sp(1)] polled_chans(9) [OF sp(1)]
    by (simp add: conn_served_def ch)
  with sp show thesis by (intro that) simp_all
qed

text \<open>What keeps a connection served and ready: the calls of a handler, and a round of no functors.\<close>

lemma conn_served_rest: "conn_rest c w w' \<Longrightarrow> conn_served l c w \<Longrightarrow> conn_served l c w'"
  for w w' :: "('k, 'a) server_scheme"
proof -
  assume rest: "conn_rest c w w'" and "conn_served l c w"
  from rest have "world.more w' = world.more w" by (simp add: conn_rest_def)
  from more_server_fields(1) [OF this] rest \<open>conn_served l c w\<close> show "conn_served l c w'"
    by (simp add: conn_served_def conn_rest_def)
qed

lemma conn_ready_rest:
  assumes "conn_ready K tid (n + m) c w" "conn_effect sent c n xs w w'" "conn_rest c w w'"
  shows "conn_ready K tid m c w'"
  using assms by (simp add: conn_ready_def conn_effect_def conn_rest_def conn_room_def)

lemma doPendingFunctors_served:
  assumes "conn_served l c s"
  shows "\<exists>s'. EventLoop_doPendingFunctors exec l s = Inr s' \<and> conn_served l c s' \<and> conns s' = conns s \<and>
    conn_stream sent c s' = conn_stream sent c s \<and> (\<forall>K tid n. conn_ready K tid n c s' = conn_ready K tid n c s)"
proof -
  have "pendingFunctors (loops s l) = []" using assms by (simp add: conn_served_def)
  from doPendingFunctors_empty [OF this, of exec] obtain s' where
    s': "EventLoop_doPendingFunctors exec l s = Inr s'" "kern s' = kern s" "conns s' = conns s" "chans s' = chans s"
      "world.more s' = world.more s" "loops s' = (loops s)(l := (loops s l)\<lparr>callingPendingFunctors := False\<rparr>)"
    by blast
  then have "conn_served l c s'"
    using assms more_server_fields(1) [OF s'(5)] by (auto simp: conn_served_def)
  with s' show ?thesis by (auto simp: conn_stream_def conn_ready_def conn_ok_def conn_room_def)
qed


lemma doPendingFunctors_closing:
  assumes "conn_served l c s"
  shows "\<exists>s'. EventLoop_doPendingFunctors exec l s = Inr s' \<and> conn_served l c s' \<and> conns s' = conns s \<and> conn_ok c s' = conn_ok c s \<and>
    conn_stream sent c s' = conn_stream sent c s"
proof -
  have "pendingFunctors (loops s l) = []" using assms by (simp add: conn_served_def)
  from doPendingFunctors_empty [OF this, of exec] obtain s' where
    s': "EventLoop_doPendingFunctors exec l s = Inr s'" "kern s' = kern s" "conns s' = conns s" "chans s' = chans s"
      "world.more s' = world.more s" "loops s' = (loops s)(l := (loops s l)\<lparr>callingPendingFunctors := False\<rparr>)"
    by blast
  then have "conn_served l c s'"
    using assms more_server_fields(1) [OF s'(5)] by (auto simp: conn_served_def)
  with s' show ?thesis by (auto simp: conn_stream_def conn_ok_def)
qed


section \<open>Sessions\<close>

text \<open>
  The kernel's side of a session: in each turn it reports one event of the connection, input of the given bytes (\<open>Some\<close>) or
  room for output (\<open>None\<close>).
\<close>

fun reports ::
    "'k kernel \<Rightarrow> (('k, 'a) server_scheme \<Rightarrow> ('k, 'a) server_scheme res) \<Rightarrow> loop \<Rightarrow> conn \<Rightarrow> bytes option list
      \<Rightarrow> ('k, 'a) server_scheme \<Rightarrow> bool" where
  "reports K turn l c [] s \<longleftrightarrow> True"
| "reports K turn l c (ev # evs) s \<longleftrightarrow>
     (\<exists>k1 ts us k2. epoll_wait K (epollfd (loops s l)) (poller_events_size (loops s l)) (kern s) =
        (Inr [(case ev of None \<Rightarrow> EPOLLOUT | Some xs \<Rightarrow> EPOLLIN, conn_channel (conns s c))], k1) \<and>
      sys_gettimeofday K k1 = ((ts, us), k2) \<and>
      (case ev of None \<Rightarrow> True
       | Some xs \<Rightarrow> xs \<noteq> [] \<and> (\<exists>k3. sys_read K (ch_fd (chan_of c s)) (readv_capacity (conn_inputBuffer (conns s c))) k2 = (Inr xs, k3)))) \<and>
     (\<forall>s'. turn s = Inr s' \<longrightarrow> reports K turn l c evs s')"

fun event_input :: "bytes option \<Rightarrow> bytes" where
  "event_input None = []"
| "event_input (Some xs) = xs"

end
