(* ===== verification/Net_Lifecycle.thy ===== *)
theory Net_Lifecycle
  imports Net_Turn
begin

unbundle bit_operations_syntax

text \<open>
  The life of a connection of a server without extra threads, one turn of its loop at a time: the turn that
  accepts it and the turn in which the peer's end of file removes it. The connection callback of the
  servers of this repository only logs; \<open>quiet_server\<close> is the contract that says so.
\<close>

section \<open>Establishing and destroying\<close>

text \<open>The first registration of a channel.\<close>

context epoll_kernel
begin

lemma enableReading_new:
  assumes "ch_index (chans w c) = kNew"
  shows "aborts_or (\<lambda>w'. set_events_post interest c (ch_events (chans w c) OR kReadEvent) w w' \<and> ch_index (chans w' c) \<noteq> kNew)
    (Channel_enableReading K c w)"
proof -
  let ?ev = "ch_events (chans w c) OR kReadEvent"
  have run: "Channel_enableReading K c w = Channel_update K c (upd_chan c (\<lambda>ch. ch\<lparr>ch_events := ?ev\<rparr>) w)"
    by (simp add: Channel_enableReading_def)
  show ?thesis
  proof (cases "Channel_enableReading K c w")
    case (Inl e)
    then show ?thesis using Channel_update_fails run by simp
  next
    case (Inr w')
    then have up: "Channel_update K c (upd_chan c (\<lambda>ch. ch\<lparr>ch_events := ?ev\<rparr>) w) = Inr w'" by (simp add: Channel_enableReading_def)
    then have "set_events_post interest c ?ev w w'" using assms by (intro set_events_add) simp_all
    moreover have "ch_index (chans w' c) \<noteq> kNew" using Channel_update_index [OF up] assms by simp
    ultimately show ?thesis using Inr by simp
  qed
qed

end

locale quiet_server = polling_kernel K interest sent
  for K :: "'k kernel" and interest :: "'k \<Rightarrow> fd \<Rightarrow> fd \<rightharpoonup> epoll_event" and sent :: "'k \<Rightarrow> fd \<Rightarrow> bytes" +
  fixes U :: "('k, 'a) server_scheme callbacks"
  assumes silent: "connectionCallback U c s = Inr s"
begin

lemma silent_server [simp]: "connectionCallback (server_callbacks K tid U) c s = Inr s"
  by (simp add: server_callbacks_def silent)

lemma closeCallback_server [simp]: "closeCallback (server_callbacks K tid U) = TcpServer_removeConnection K tid"
  by (simp add: server_callbacks_def)

lemma connectEstablished_effect:
  assumes "conn_hasConnectionCallback (conns s c)" "ch_index (chan_of c s) = kNew"
  shows "aborts_or (\<lambda>s'. set_events_post interest (conn_channel (conns s c)) (ch_events (chan_of c s) OR kReadEvent)
      (upd_chan (conn_channel (conns s c)) (Channel_tie c) (TcpConnection_setState kConnected c s)) s' \<and>
      ch_index (chans s' (conn_channel (conns s c))) \<noteq> kNew)
    (TcpConnection_connectEstablished K (server_callbacks K tid U) c s)"
proof -
  let ?ch = "conn_channel (conns s c)"
  let ?s2 = "upd_chan ?ch (Channel_tie c) (TcpConnection_setState kConnected c s)"
  have run: "TcpConnection_connectEstablished K (server_callbacks K tid U) c s =
      rbind (Channel_enableReading K ?ch ?s2) (call_connection (server_callbacks K tid U) c)"
    by (simp add: TcpConnection_connectEstablished_def TcpConnection_setState_def)
  have new: "ch_index (chans ?s2 ?ch) = kNew" using assms(2) by (simp add: Channel_tie_def TcpConnection_setState_def)
  show ?thesis
    unfolding run
  proof (rule aborts_or_rbind [OF enableReading_new [OF new]])
    fix s3 assume post: "set_events_post interest ?ch (ch_events (chans ?s2 ?ch) OR kReadEvent) ?s2 s3 \<and> ch_index (chans s3 ?ch) \<noteq> kNew"
    then have "conns s3 = conns ?s2" by (simp add: set_events_post_def same_but_chan_def)
    then show "aborts_or (\<lambda>s'. set_events_post interest ?ch (ch_events (chan_of c s) OR kReadEvent) ?s2 s' \<and> ch_index (chans s' ?ch) \<noteq> kNew)
        (call_connection (server_callbacks K tid U) c s3)"
      using post assms(1) by (simp add: call_connection_def Channel_tie_def TcpConnection_setState_def)
  qed
qed

end

section \<open>Accepting\<close>

text \<open>A connection object between its construction and its first event.\<close>

definition young_conn :: "StateE \<Rightarrow> loop \<Rightarrow> bytes \<Rightarrow> fd \<Rightarrow> chan \<Rightarrow> sockaddr_in \<Rightarrow> sockaddr_in \<Rightarrow> bool \<Rightarrow> bool \<Rightarrow> tcp_connection" where
  "young_conn st l name f ch loc peer msg wc = \<lparr>conn_loop = l, conn_name = name, conn_state = st, conn_reading = True,
     conn_sockfd = f, conn_channel = ch, conn_localAddr = loc, conn_peerAddr = peer, conn_hasConnectionCallback = True,
     conn_hasMessageCallback = msg, conn_hasWriteCompleteCallback = wc, conn_hasCloseCallback = True,
     conn_hasHighWaterMarkCallback = False, conn_highWaterMark = default_highWaterMark,
     conn_inputBuffer = fresh_buffer, conn_outputBuffer = fresh_buffer\<rparr>"

definition young_chan :: "loop \<Rightarrow> fd \<Rightarrow> conn \<Rightarrow> channel" where
  "young_chan l f c = (Channel_ctor l f)\<lparr>ch_readCallback := Some (H_TcpConnection_handleRead c),
     ch_writeCallback := Some (H_TcpConnection_handleWrite c), ch_closeCallback := Some (H_TcpConnection_handleClose c),
     ch_errorCallback := Some (H_TcpConnection_handleError c)\<rparr>"

text \<open>
  What \<open>newConnection\<close> leaves when it runs in the thread of the loop it has chosen: the connection
  is in the table under the next name and established, its channel is registered for reading, and nothing else
  has changed.
\<close>

definition established ::
    "('k \<Rightarrow> fd \<Rightarrow> fd \<rightharpoonup> epoll_event) \<Rightarrow> loop \<Rightarrow> conn \<Rightarrow> chan \<Rightarrow> fd \<Rightarrow> ('k, 'a) server_scheme \<Rightarrow> ('k, 'a) server_scheme \<Rightarrow> bool" where
  "established interest l c ch f s s' \<longleftrightarrow>
     srv_connections s' = (srv_connections s)(server_connName (srv_name s) (srv_ipPort s) (srv_nextConnId s) \<mapsto> c) \<and>
     (\<exists>loc peer. conns s' = (conns s)(c := young_conn kConnected l
        (server_connName (srv_name s) (srv_ipPort s) (srv_nextConnId s)) f ch loc peer
        (srv_hasMessageCallback s) (srv_hasWriteCompleteCallback s))) \<and>
     chans s' = (chans s)(ch := (young_chan l f c)\<lparr>ch_events := kReadEvent, ch_index := kAdded, ch_tie := Some c, ch_tied := True\<rparr>) \<and>
     poller_channels (loops s' l) f = Some ch \<and> interest (kern s') (epollfd (loops s' l)) f = Some (kReadEvent, ch) \<and>
     (\<forall>l'. threadId (loops s' l') = threadId (loops s l') \<and> wakeupFd (loops s' l') = wakeupFd (loops s l') \<and>
        epollfd (loops s' l') = epollfd (loops s l') \<and> pendingFunctors (loops s' l') = pendingFunctors (loops s l'))"

lemma set_events_post_new:
  assumes "set_events_post interest ch kReadEvent w w'" "ch_index (chans w' ch) \<noteq> kNew"
    and "chans w ch = (young_chan l f c)\<lparr>ch_tie := Some c, ch_tied := True\<rparr>"
  shows "chans w' = (chans w)(ch := (young_chan l f c)\<lparr>ch_events := kReadEvent, ch_index := kAdded, ch_tie := Some c, ch_tied := True\<rparr>)"
    "poller_channels (loops w' l) f = Some ch" "interest (kern w') (epollfd (loops w' l)) f = Some (kReadEvent, ch)"
proof -
  have post: "chan_ok interest ch w'" "ch_events (chans w' ch) = kReadEvent" "same_but_chan ch w w'"
    using assms(1) by (simp_all add: set_events_post_def)
  have "kReadEvent \<noteq> kNoneEvent" by (simp add: mask_defs)
  then have ok: "ch_index (chans w' ch) = kAdded"
      "poller_channels (loops w' (ch_loop (chans w' ch))) (ch_fd (chans w' ch)) = Some ch"
      "interest (kern w') (epollfd (loops w' (ch_loop (chans w' ch)))) (ch_fd (chans w' ch)) = Some (kReadEvent, ch)"
    using post(1,2) assms(2) by (auto simp: chan_ok_def Let_def)
  have lf: "ch_loop (chans w' ch) = l" "ch_fd (chans w' ch) = f"
    using same_but_chan_fields(1,2) [OF post(3), of ch] assms(3) by (simp_all add: young_chan_def Channel_ctor_def)
  then show "poller_channels (loops w' l) f = Some ch" "interest (kern w') (epollfd (loops w' l)) f = Some (kReadEvent, ch)"
    using ok(2,3) by simp_all
  obtain ev ix where "chans w' ch = (chans w ch)\<lparr>ch_events := ev, ch_index := ix\<rparr>" "\<forall>d. d \<noteq> ch \<longrightarrow> chans w' d = chans w d"
    using post(3) unfolding same_but_chan_def by blast
  then show "chans w' = (chans w)(ch := (young_chan l f c)\<lparr>ch_events := kReadEvent, ch_index := kAdded, ch_tie := Some c, ch_tied := True\<rparr>)"
    using ok(1) post(2) assms(3) by (auto simp: young_chan_def Channel_ctor_def)
qed

lemma newConnection_localAddr_chans: "newConnection_localAddr K f s = (a, s') \<Longrightarrow> chans s' = chans s"
  by (auto simp: newConnection_localAddr_def split: prod.splits sum.splits)

text \<open>What \<open>newConnection\<close> has made when it hands the connection to its loop.\<close>

lemma newConnection_prepares:
  assumes pool: "EventLoopThreadPool_getNextLoop (srv_pool s) = Inr (l, p)" and i: "srv_nextConnId s < INT_MAX"
    and cb: "srv_hasConnectionCallback s"
  obtains s5 a where "TcpServer_newConnection K V tid c ch f peer s =
      EventLoop_runInLoop K tid l (F_connectEstablished c) (TcpConnection_connectEstablished K V c) s5"
    "srv_connections s5 = (srv_connections s)(server_connName (srv_name s) (srv_ipPort s) (srv_nextConnId s) \<mapsto> c)"
    "loops s5 = loops s" "chans s5 = (chans s)(ch := young_chan l f c)"
    "conns s5 = (conns s)(c := young_conn kConnecting l (server_connName (srv_name s) (srv_ipPort s) (srv_nextConnId s)) f ch a peer
      (srv_hasMessageCallback s) (srv_hasWriteCompleteCallback s))" "srv_pool s5 = p" "srv_loop s5 = srv_loop s"
proof -
  let ?s1 = "s\<lparr>srv_pool := p, srv_nextConnId := srv_nextConnId s + 1\<rparr>"
    and ?name = "server_connName (srv_name s) (srv_ipPort s) (srv_nextConnId s)"
  obtain a s2 where s2: "newConnection_localAddr K f ?s1 = (a, s2)" by fastforce
  note frame = newConnection_localAddr_frame(1,2) [OF s2] newConnection_localAddr_chans [OF s2]
    more_server_fields [OF newConnection_localAddr_frame(3) [OF s2]] more_server_flags [OF newConnection_localAddr_frame(3) [OF s2]]
  obtain s3 where s3: "TcpConnection_ctor K (Some l) ?name f a peer c ch s2 = Inr s3"
    by (simp add: TcpConnection_ctor_def CheckLoopNotNull_def fresh_buffer_ctor)
  define s5 where "s5 = upd_conn c (\<lambda>cn. cn\<lparr>conn_hasConnectionCallback := srv_hasConnectionCallback s3,
      conn_hasMessageCallback := srv_hasMessageCallback s3, conn_hasWriteCompleteCallback := srv_hasWriteCompleteCallback s3,
      conn_hasCloseCallback := True\<rparr>) (s3\<lparr>srv_connections := (srv_connections s3)(?name \<mapsto> c)\<rparr>)"
  have "srv_connections s5 = (srv_connections s)(?name \<mapsto> c)" "loops s5 = loops s" "srv_pool s5 = p" "srv_loop s5 = srv_loop s"
    "chans s5 = (chans s)(ch := young_chan l f c)"
    "conns s5 = (conns s)(c := young_conn kConnecting l ?name f ch a peer (srv_hasMessageCallback s) (srv_hasWriteCompleteCallback s))"
    using s3 frame cb by (auto simp: s5_def TcpConnection_ctor_def CheckLoopNotNull_def fresh_buffer_ctor Socket_setKeepAlive_def
        young_conn_def young_chan_def)
  moreover have "TcpServer_newConnection K V tid c ch f peer s =
      EventLoop_runInLoop K tid l (F_connectEstablished c) (TcpConnection_connectEstablished K V c) s5"
    using pool i s2 s3 unfolding s5_def by (simp add: TcpServer_newConnection_def Let_def)
  ultimately show thesis by (intro that)
qed

context quiet_server
begin

lemma newConnection_establishes:
  assumes pool: "EventLoopThreadPool_getNextLoop (srv_pool s) = Inr (l, p)" and i: "srv_nextConnId s < INT_MAX"
    and tid: "threadId (loops s l) = tid" and cb: "srv_hasConnectionCallback s"
  shows "aborts_or (established interest l c ch f s) (TcpServer_newConnection K (server_callbacks K tid U) tid c ch f peer s)"
proof -
  let ?name = "server_connName (srv_name s) (srv_ipPort s) (srv_nextConnId s)"
  obtain s5 a where queue: "TcpServer_newConnection K (server_callbacks K tid U) tid c ch f peer s =
      EventLoop_runInLoop K tid l (F_connectEstablished c) (TcpConnection_connectEstablished K (server_callbacks K tid U) c) s5"
    and s5: "srv_connections s5 = (srv_connections s)(?name \<mapsto> c)" "loops s5 = loops s" "chans s5 = (chans s)(ch := young_chan l f c)"
    "conns s5 = (conns s)(c := young_conn kConnecting l ?name f ch a peer (srv_hasMessageCallback s) (srv_hasWriteCompleteCallback s))"
    by (rule newConnection_prepares [OF pool i cb])
  then have run: "TcpServer_newConnection K (server_callbacks K tid U) tid c ch f peer s =
      TcpConnection_connectEstablished K (server_callbacks K tid U) c s5"
    using tid by (simp add: EventLoop_runInLoop_def EventLoop_isInLoopThread_def)
  let ?s6 = "upd_chan ch (Channel_tie c) (TcpConnection_setState kConnected c s5)"
  have c5: "conn_channel (conns s5 c) = ch" "conn_hasConnectionCallback (conns s5 c)" "ch_index (chans s5 ch) = kNew"
    "ch_events (chans s5 ch) OR kReadEvent = kReadEvent"
    using s5(3,4) by (simp_all add: young_conn_def young_chan_def Channel_ctor_def kNew_def)
  have "aborts_or (\<lambda>s'. set_events_post interest ch kReadEvent ?s6 s' \<and> ch_index (chans s' ch) \<noteq> kNew)
      (TcpConnection_connectEstablished K (server_callbacks K tid U) c s5)"
    using connectEstablished_effect [of s5 c tid] c5 by simp
  then show ?thesis
    unfolding run
  proof (rule aborts_or_mono)
    fix s' assume post: "set_events_post interest ch kReadEvent ?s6 s' \<and> ch_index (chans s' ch) \<noteq> kNew"
    have "chans ?s6 ch = (young_chan l f c)\<lparr>ch_tie := Some c, ch_tied := True\<rparr>"
      using s5(3) by (simp add: Channel_tie_def TcpConnection_setState_def)
    note new = set_events_post_new [OF conjunct1 [OF post] conjunct2 [OF post] this]
    have same: "same_but_chan ch ?s6 s'" using post by (simp add: set_events_post_def)
    note fields = same_but_chan_fields [OF same] more_server_fields(1) [OF same_but_chan_fields(10) [OF same]]
    show "established interest l c ch f s s'"
      using new fields s5 by (simp add: established_def TcpConnection_setState_def young_conn_def) blast
  qed
qed

end

text \<open>The server listens: its acceptor's channel is ready to call \<open>newConnection\<close>.\<close>

definition server_listens :: "loop \<Rightarrow> int \<Rightarrow> ('k, 'a) server_scheme \<Rightarrow> bool" where
  "server_listens l tid s \<longleftrightarrow> ch_readCallback (chans s (acc_chan s)) = Some H_Acceptor_handleRead \<and>
     \<not> ch_tied (chans s (acc_chan s)) \<and> acc_hasNewConnectionCallback s \<and> srv_hasConnectionCallback s \<and>
     srv_hasMessageCallback s \<and> \<not> srv_hasWriteCompleteCallback s \<and> srv_nextConnId s < INT_MAX \<and>
     pool_loops (srv_pool s) = [] \<and> pool_baseLoop (srv_pool s) = l \<and> threadId (loops s l) = tid \<and> pendingFunctors (loops s l) = []"

lemma established_serves:
  assumes "established interest l c ch f s s'" "srv_hasMessageCallback s" "\<not> srv_hasWriteCompleteCallback s"
    and "pendingFunctors (loops s l) = []"
  shows "conn_served l c s'"
proof -
  obtain loc peer where "conns s' c = young_conn kConnected l (server_connName (srv_name s) (srv_ipPort s) (srv_nextConnId s)) f ch
      loc peer (srv_hasMessageCallback s) (srv_hasWriteCompleteCallback s)"
    using assms(1) by (auto simp: established_def)
  then show ?thesis using assms by (simp add: established_def conn_served_def young_conn_def young_chan_def ran_def) blast
qed

lemma established_ready:
  assumes "established interest l c ch f s s'" "threadId (loops s l) = tid" "f \<noteq> wakeupFd (loops s l)" "link_up K f"
    and "Buffer_size fresh_buffer + n \<le> Buffer_chunk"
  shows "conn_ready K tid n c s'" "Buffer_abs (conn_inputBuffer (conns s' c)) = []"
proof -
  obtain loc peer where "conns s' c = young_conn kConnected l (server_connName (srv_name s) (srv_ipPort s) (srv_nextConnId s)) f ch
      loc peer (srv_hasMessageCallback s) (srv_hasWriteCompleteCallback s)"
    using assms(1) by (auto simp: established_def)
  then show "conn_ready K tid n c s'" "Buffer_abs (conn_inputBuffer (conns s' c)) = []"
    using assms by (simp_all add: established_def conn_ready_def conn_ok_def conn_room_def young_conn_def young_chan_def
        Channel_ctor_def Buffer_chunk_def limit_defs InitialPrependSize_def)
qed

text \<open>A turn that finds input on the listening socket, and a connection to accept, runs \<open>newConnection\<close>.\<close>

lemma EventLoop_turn_accept:
  assumes acceptor: "ch_readCallback (chans s (acc_chan s)) = Some H_Acceptor_handleRead" "\<not> ch_tied (chans s (acc_chan s))"
      "acc_hasNewConnectionCallback s"
    and wait: "epoll_wait K (epollfd (loops s l)) (poller_events_size (loops s l)) (kern s) = (Inr [(EPOLLIN, acc_chan s)], k1)"
    and clock: "sys_gettimeofday K k1 = ((ts, us), k2)"
    and acc: "sys_accept4 K (acc_fd s) k2 = (Inr (f, peer), k3)" "0 \<le> f"
    and alloc: "\<And>s'. alloc s' = (c, ch)"
    and kept: "\<And>sp s'. polled l (acc_chan s) EPOLLIN k2 s sp \<Longrightarrow>
      TcpServer_newConnection K (server_callbacks K tid U) tid c ch f peer (sp\<lparr>kern := k3\<rparr>) = Inr s' \<Longrightarrow>
      ch_revents (chans s' (acc_chan s)) = EPOLLIN"
  obtains sp where "polled l (acc_chan s) EPOLLIN k2 s sp"
    "EventLoop_turn K (Server_call K U alloc tid) conn_held (Server_exec K U wc hw tid) l s =
      rbind (TcpServer_newConnection K (server_callbacks K tid U) tid c ch f peer (sp\<lparr>kern := k3\<rparr>))
        (EventLoop_doPendingFunctors (Server_exec K U wc hw tid) l)"
proof -
  let ?call = "Server_call K U alloc tid (ts * kMicroSecondsPerSecond + us)"
  obtain sp where sp: "polled l (acc_chan s) EPOLLIN k2 s sp" and run:
    "EventLoop_turn K (Server_call K U alloc tid) conn_held (Server_exec K U wc hw tid) l s =
      rbind (Channel_handleEvent ?call conn_held (acc_chan s) sp) (EventLoop_doPendingFunctors (Server_exec K U wc hw tid) l)"
    using EventLoop_turn_single [OF wait clock, of "Server_call K U alloc tid" conn_held "Server_exec K U wc hw tid"] by blast
  note frame = polled_frame [OF sp] more_server_flags [OF polled_world(4) [OF sp]]
  have call: "?call H_Acceptor_handleRead sp = TcpServer_newConnection K (server_callbacks K tid U) tid c ch f peer (sp\<lparr>kern := k3\<rparr>)"
    using acc alloc(1) acceptor frame by (simp add: Acceptor_handleRead_def Socket_accept_def Let_def)
  have "chan_open conn_held (acc_chan s) sp" using acceptor frame by (simp add: chan_open_def)
  then have "Channel_handleEvent ?call conn_held (acc_chan s) sp = ?call H_Acceptor_handleRead sp"
    using handleEventWithGuard_input [where call = ?call and ch = "acc_chan s" and w = sp, OF _ _ kept [OF sp]] acceptor frame call
    by (simp add: handleEvent_open)
  with run call show thesis by (intro that [OF sp]) simp
qed

context quiet_server
begin

lemma accept_turn:
  assumes listens: "server_listens l tid s"
    and wait: "epoll_wait K (epollfd (loops s l)) (poller_events_size (loops s l)) (kern s) = (Inr [(EPOLLIN, acc_chan s)], k1)"
    and clock: "sys_gettimeofday K k1 = ((ts, us), k2)"
    and acc: "sys_accept4 K (acc_fd s) k2 = (Inr (f, peer), k3)" "0 \<le> f"
    and alloc: "\<And>s'. alloc s' = (c, ch)" "ch \<noteq> acc_chan s"
  shows "aborts_or (\<lambda>s'. \<exists>sp. established interest l c ch f sp s' \<and> server_listens l tid sp \<and>
      srv_connections sp = srv_connections s \<and> srv_name sp = srv_name s \<and> srv_ipPort sp = srv_ipPort s \<and>
      srv_nextConnId sp = srv_nextConnId s \<and> wakeupFd (loops sp l) = wakeupFd (loops s l))
    (EventLoop_turn K (Server_call K U alloc tid) conn_held (Server_exec K U wc hw tid) l s)"
proof -
  let ?new = "\<lambda>sp. TcpServer_newConnection K (server_callbacks K tid U) tid c ch f peer (sp\<lparr>kern := k3\<rparr>)"
  have acceptor: "ch_readCallback (chans s (acc_chan s)) = Some H_Acceptor_handleRead" "\<not> ch_tied (chans s (acc_chan s))"
      "acc_hasNewConnectionCallback s"
    using listens by (simp_all add: server_listens_def)
  have lis: "server_listens l tid (sp\<lparr>kern := k3\<rparr>)" if "polled l (acc_chan s) EPOLLIN k2 s sp" for sp
    using listens polled_frame [OF that] more_server_fields [OF polled_world(4) [OF that]] more_server_flags [OF polled_world(4) [OF that]]
    by (simp add: server_listens_def)
  have new: "aborts_or (established interest l c ch f (sp\<lparr>kern := k3\<rparr>)) (?new sp)" if "polled l (acc_chan s) EPOLLIN k2 s sp" for sp
  proof (rule newConnection_establishes)
    show "EventLoopThreadPool_getNextLoop (srv_pool (sp\<lparr>kern := k3\<rparr>)) = Inr (l, srv_pool (sp\<lparr>kern := k3\<rparr>))"
      using lis [OF that] by (simp add: server_listens_def EventLoopThreadPool_getNextLoop_def)
  qed (use lis [OF that] in \<open>simp_all add: server_listens_def\<close>)
  have kept: "ch_revents (chans s' (acc_chan s)) = EPOLLIN" if "polled l (acc_chan s) EPOLLIN k2 s sp" "?new sp = Inr s'" for sp s'
    using new [OF that(1)] that alloc(2) polled_frame [OF that(1)] by (simp add: established_def)
  obtain sp where sp: "polled l (acc_chan s) EPOLLIN k2 s sp" and run:
    "EventLoop_turn K (Server_call K U alloc tid) conn_held (Server_exec K U wc hw tid) l s =
      rbind (?new sp) (EventLoop_doPendingFunctors (Server_exec K U wc hw tid) l)"
    by (rule EventLoop_turn_accept [where U = U and tid = tid, OF acceptor wait clock acc alloc(1)]) (rule kept)
  note frame = polled_frame [OF sp] more_server_fields [OF polled_world(4) [OF sp]]
  let ?sp = "sp\<lparr>kern := k3\<rparr>"
  note listens2 = lis [OF sp]
  show ?thesis
    unfolding run
  proof (rule aborts_or_rbind [OF new [OF sp]])
    fix s' assume s': "established interest l c ch f ?sp s'"
    then have "pendingFunctors (loops s' l) = []" using listens2 by (simp add: established_def server_listens_def)
    from doPendingFunctors_empty [OF this, of "Server_exec K U wc hw tid"] obtain s2 where
      s2: "EventLoop_doPendingFunctors (Server_exec K U wc hw tid) l s' = Inr s2" "kern s2 = kern s'" "conns s2 = conns s'"
        "chans s2 = chans s'" "world.more s2 = world.more s'" "loops s2 = (loops s')(l := (loops s' l)\<lparr>callingPendingFunctors := False\<rparr>)"
      by blast
    have "established interest l c ch f ?sp s2"
      using s' s2(2-4,6) more_server_fields(1) [OF s2(5)] by (auto simp: established_def)
    then show "aborts_or (\<lambda>s'. \<exists>sp. established interest l c ch f sp s' \<and> server_listens l tid sp \<and>
      srv_connections sp = srv_connections s \<and> srv_name sp = srv_name s \<and> srv_ipPort sp = srv_ipPort s \<and>
      srv_nextConnId sp = srv_nextConnId s \<and> wakeupFd (loops sp l) = wakeupFd (loops s l))
        (EventLoop_doPendingFunctors (Server_exec K U wc hw tid) l s')"
      using s2(1) listens2 frame by (auto intro!: exI [of _ ?sp])
  qed
qed

end

section \<open>Closing\<close>

lemma disableAll_succeeds: "ch_index (chans w ch) = kAdded \<Longrightarrow> \<exists>w'. Channel_disableAll K ch w = Inr w'"
  by (auto simp: Channel_disableAll_def Channel_update_def EventLoop_updateChannel_def EpollPoller_updateChannel_def
      EpollPoller_update_def Let_def Channel_isNoneEvent_def kNoneEvent_def split: prod.split)

lemma disableAll_index:
  "Channel_disableAll K ch w = Inr w' \<Longrightarrow> ch_index (chans w ch) = kAdded \<Longrightarrow> ch_index (chans w' ch) = kDeleted"
  by (auto simp: Channel_disableAll_def Channel_update_def EventLoop_updateChannel_def EpollPoller_updateChannel_def
      Let_def Channel_isNoneEvent_def kNoneEvent_def rbind_eq_Inr_iff)

lemma same_but_chan_revents: "same_but_chan c w w' \<Longrightarrow> ch_revents (chans w' d) = ch_revents (chans w d)"
  by (cases "d = c") (auto simp: same_but_chan_def)

lemma queueInLoop_pending_at:
  "pendingFunctors (loops (EventLoop_queueInLoop K tid l F w) l') = pendingFunctors (loops w l') @ (if l' = l then [F] else [])"
  by (simp add: queue_defs EventLoop_wakeup_def split: prod.split)

text \<open>What closing a connection leaves: it is out of the table, its channel is deaf, its destruction is queued.\<close>

definition closed ::
    "('k \<Rightarrow> fd \<Rightarrow> fd \<rightharpoonup> epoll_event) \<Rightarrow> conn \<Rightarrow> ('k, 'a) server_scheme \<Rightarrow> ('k, 'a) server_scheme \<Rightarrow> bool" where
  "closed interest c s s' \<longleftrightarrow> srv_connections s' = (srv_connections s)(conn_name (conns s c) := None) \<and>
     srv_pool s' = srv_pool s \<and> conns s' = conns (TcpConnection_setState kDisconnected c s) \<and>
     chan_ok interest (conn_channel (conns s c)) s' \<and>
     (\<forall>d. ch_revents (chans s' d) = ch_revents (chans s d)) \<and>
     (\<forall>l. pendingFunctors (loops s' l) = pendingFunctors (loops s l) @ (if l = conn_loop (conns s c) then [F_connectDestroyed c] else []))"

context net_kernel
begin

lemma queueInLoop_interest: "interest (kern (EventLoop_queueInLoop K tid l F w)) = interest (kern w)"
  by (auto simp: queue_defs EventLoop_wakeup_def split: prod.split dest: write_interest)

lemma chan_ok_queueInLoop [simp]: "chan_ok interest d (EventLoop_queueInLoop K tid l F w) = chan_ok interest d w"
  by (simp add: chan_ok_def Let_def queueInLoop_interest)

text \<open>Disabling a channel that is registered, after a change of the state of its connection.\<close>

lemma close_disables:
  assumes "chan_ok interest (conn_channel (conns s c)) s" "ch_index (chan_of c s) = kAdded"
  obtains s1 where "Channel_disableAll K (conn_channel (conns s c)) (TcpConnection_setState kDisconnected c s) = Inr s1"
    "chan_ok interest (conn_channel (conns s c)) s1" "ch_index (chans s1 (conn_channel (conns s c))) = kDeleted" "ch_events (chans s1 (conn_channel (conns s c))) = kNoneEvent"
    "same_but_chan (conn_channel (conns s c)) (TcpConnection_setState kDisconnected c s) s1"
proof -
  let ?s0 = "TcpConnection_setState kDisconnected c s"
  obtain s1 where s1: "Channel_disableAll K (conn_channel (conns s c)) ?s0 = Inr s1"
    using disableAll_succeeds [of ?s0] assms(2) by (auto simp: TcpConnection_setState_def)
  have "chan_ok interest (conn_channel (conns s c)) ?s0" using assms(1) by (simp add: chan_ok_def TcpConnection_setState_def)
  note ev = set_events_ok [OF this s1 [unfolded Channel_disableAll_def]]
  moreover have "ch_index (chans s1 (conn_channel (conns s c))) = kDeleted"
    using disableAll_index [OF s1] assms(2) by (simp add: TcpConnection_setState_def)
  ultimately show thesis using ev by (intro that [OF s1]) (simp_all add: kNoneEvent_def)
qed

end

context quiet_server
begin

lemma handleClose_runs:
  assumes ok: "chan_ok interest (conn_channel (conns s c)) s" "ch_index (chan_of c s) = kAdded"
    and cb: "conn_hasConnectionCallback (conns s c)" "conn_hasCloseCallback (conns s c)"
  obtains s1 where "TcpConnection_handleClose K (server_callbacks K tid U) c s = TcpServer_removeConnection K tid c s1"
    "same_but_chan (conn_channel (conns s c)) (TcpConnection_setState kDisconnected c s) s1" "chan_ok interest (conn_channel (conns s c)) s1"
    "interest (kern s1) (epollfd (loops s (ch_loop (chan_of c s)))) (ch_fd (chan_of c s)) = None"
proof -
  let ?ch = "conn_channel (conns s c)" and ?s0 = "TcpConnection_setState kDisconnected c s"
  have s0: "chans ?s0 = chans s" "loops ?s0 = loops s" "kern ?s0 = kern s" "conn_channel (conns ?s0 c) = ?ch"
    "conn_hasConnectionCallback (conns ?s0 c)" "conn_hasCloseCallback (conns ?s0 c)"
    using cb by (simp_all add: TcpConnection_setState_def)
  obtain s1 where s1: "Channel_disableAll K ?ch ?s0 = Inr s1" "chan_ok interest ?ch s1" "ch_index (chans s1 ?ch) = kDeleted"
    "same_but_chan ?ch ?s0 s1" by (rule close_disables [OF ok])
  note fr = same_but_chan_fields [OF s1(4)]
  have gone: "interest (kern s1) (epollfd (loops s (ch_loop (chan_of c s)))) (ch_fd (chan_of c s)) = None"
    using s1(2,3) fr s0 by (simp add: chan_ok_def Let_def)
  show thesis
  proof (rule that [OF _ s1(4,2) gone])
    show "TcpConnection_handleClose K (server_callbacks K tid U) c s = TcpServer_removeConnection K tid c s1"
      using s1(1) s0 fr(8) by (simp add: TcpConnection_handleClose_def call_connection_def call_close_def)
  qed
qed

lemma handleClose_closes:
  assumes ok: "chan_ok interest (conn_channel (conns s c)) s" "ch_index (chan_of c s) = kAdded"
    and cb: "conn_hasConnectionCallback (conns s c)" "conn_hasCloseCallback (conns s c)"
    and tid: "threadId (loops s (srv_loop s)) = tid"
  shows "\<exists>s'. TcpConnection_handleClose K (server_callbacks K tid U) c s = Inr s' \<and> closed interest c s s'"
proof -
  let ?ch = "conn_channel (conns s c)"
  obtain s1 where run: "TcpConnection_handleClose K (server_callbacks K tid U) c s = TcpServer_removeConnection K tid c s1"
    and same: "same_but_chan ?ch (TcpConnection_setState kDisconnected c s) s1" and ok1: "chan_ok interest ?ch s1"
    by (rule handleClose_runs [OF ok cb])
  note fr = same_but_chan_fields [OF same] same_but_chan_revents [OF same]
  have more: "world.more s1 = world.more s" using fr(10) by (simp add: TcpConnection_setState_def)
  note fs = more_server_fields [OF more]
  have cn: "conn_name (conns s1 c) = conn_name (conns s c)" "conn_loop (conns s1 c) = conn_loop (conns s c)"
      "threadId (loops s1 (srv_loop s1)) = tid"
    using fr fs tid by (simp_all add: TcpConnection_setState_def)
  let ?t = "s1\<lparr>srv_connections := (srv_connections s1)(conn_name (conns s c) := None)\<rparr>"
  let ?s2 = "EventLoop_queueInLoop K tid (conn_loop (conns s c)) (F_connectDestroyed c) ?t"
  have "TcpConnection_handleClose K (server_callbacks K tid U) c s = Inr ?s2"
    using cn unfolding run by (simp add: TcpServer_removeConnection_def EventLoop_runInLoop_def EventLoop_isInLoopThread_def
        TcpServer_removeConnectionInLoop_def)
  moreover have "world.more ?s2 = world.more ?t" using queueInLoop_keeps [of ?t] unfolding keeps_server_def by blast
  note more_server_fields(1,3) [OF this]
  moreover have "chan_ok interest ?ch ?t" using ok1 by (simp add: chan_ok_def)
  ultimately show ?thesis
    using fr fs by (simp add: closed_def queueInLoop_pending_at TcpConnection_setState_def)
qed

end

text \<open>A read that returns nothing closes the connection.\<close>

lemma handleRead_eof:
  assumes "Buffer_inv (conn_inputBuffer (conns s c))" "Buffer_size (conn_inputBuffer (conns s c)) \<le> vector_max_size"
    and "sys_read K (ch_fd (chan_of c s)) (readv_capacity (conn_inputBuffer (conns s c))) (kern s) = (Inr [], k')"
  obtains b where "TcpConnection_handleRead K V c t s = TcpConnection_handleClose K V c (with_input c b (s\<lparr>kern := k'\<rparr>))"
proof -
  have zero: "length ([] :: bytes) \<le> readv_capacity (conn_inputBuffer (conns s c))" by simp
  obtain b where b: "Buffer_readFd (Inr []) (conn_inputBuffer (conns s c)) = Inr (0, None, b)"
    using Buffer_readFd_ok [OF assms(1) zero] assms(2) by auto
  show thesis using assms(3) b by (intro that [of b]) (simp add: TcpConnection_handleRead_def Let_def)
qed

lemma chan_ok_upd_loop:
  assumes "poller_channels (f (loops w l)) = poller_channels (loops w l)" "epollfd (f (loops w l)) = epollfd (loops w l)"
  shows "chan_ok interest d (upd_loop l f w) = chan_ok interest d w"
  using assms by (cases "ch_loop (chans w d) = l") (simp_all add: chan_ok_def Let_def)

text \<open>Running the queued destruction.\<close>

lemma doPendingFunctors_single:
  "pendingFunctors (loops w l) = [F] \<Longrightarrow> EventLoop_doPendingFunctors exec l w =
     rbind (exec F (upd_loop l (\<lambda>p. p\<lparr>callingPendingFunctors := True, pendingFunctors := []\<rparr>) w)) (\<lambda>w'. Inr (doPendingFunctors_done l w'))"
  by (cases "exec F (upd_loop l (\<lambda>p. p\<lparr>callingPendingFunctors := True, pendingFunctors := []\<rparr>) w)")
    (simp_all add: EventLoop_doPendingFunctors_def doPendingFunctors_swap_def)

text \<open>A removed connection: unknown to the poller and the kernel, and owned by nobody.\<close>

definition removed ::
    "('k \<Rightarrow> fd \<Rightarrow> fd \<rightharpoonup> epoll_event) \<Rightarrow> loop \<Rightarrow> conn \<Rightarrow> ('k, 'a) server_scheme \<Rightarrow> bool" where
  "removed interest l c s \<longleftrightarrow> conn_state (conns s c) = kDisconnected \<and> ch_index (chan_of c s) = kNew \<and>
     interest (kern s) (epollfd (loops s (ch_loop (chan_of c s)))) (ch_fd (chan_of c s)) = None \<and>
     poller_channels (loops s (ch_loop (chan_of c s))) (ch_fd (chan_of c s)) = None \<and>
     pendingFunctors (loops s l) = [] \<and> \<not> conn_held c s"

context quiet_server
begin

lemma destroy_pending:
  assumes pend: "pendingFunctors (loops s m) = [F_connectDestroyed c]" and st: "conn_state (conns s c) = kDisconnected"
    and ok: "chan_ok interest (conn_channel (conns s c)) s" and tab: "c \<notin> ran (srv_connections s)"
    and free: "\<And>n. n \<in> set (pool_baseLoop (srv_pool s) # pool_loops (srv_pool s)) \<Longrightarrow> n \<noteq> m \<Longrightarrow>
      \<not> list_ex (functor_holds c) (pendingFunctors (loops s n))"
  shows "\<exists>s'. EventLoop_doPendingFunctors (Server_exec K U wc hw tid) m s = Inr s' \<and> removed interest m c s' \<and>
    srv_connections s' = srv_connections s"
proof -
  let ?ch = "conn_channel (conns s c)"
  let ?s2 = "upd_loop m (\<lambda>p. p\<lparr>callingPendingFunctors := True, pendingFunctors := []\<rparr>) s"
  obtain s3 where s3: "Channel_remove K ?ch ?s2 = Inr s3" using Channel_remove_succeeds by blast
  have "chan_ok interest ?ch ?s2" using ok by (subst chan_ok_upd_loop) simp_all
  note rem = remove_ok [OF this s3]
  note fr = same_but_chan_fields [OF rem(3)]
  let ?s' = "doPendingFunctors_done m s3"
  have run: "EventLoop_doPendingFunctors (Server_exec K U wc hw tid) m s = Inr ?s'"
    using s3 st by (simp add: doPendingFunctors_single [OF pend] TcpConnection_connectDestroyed_def)
  have "world.more ?s' = world.more s" using fr(10) by (simp add: doPendingFunctors_done_def)
  note srv = more_server_fields(1,3) [OF this]
  have "pendingFunctors (loops ?s' n) = (if n = m then [] else pendingFunctors (loops s n))" for n
    using fr(4) by (simp add: doPendingFunctors_done_def)
  then have "\<not> conn_held c ?s'" using tab free srv by (auto simp: conn_held_def list_ex_iff)
  moreover have "chan_ok interest ?ch ?s'" "ch_index (chans ?s' ?ch) = kNew"
    using rem(1,2) chan_ok_upd_loop [of "\<lambda>p. p\<lparr>callingPendingFunctors := False\<rparr>" s3 m interest ?ch]
    by (simp_all add: doPendingFunctors_done_def)
  ultimately have "removed interest m c ?s'"
    using st fr(4,8) unfolding removed_def chan_ok_def Let_def by (auto simp: doPendingFunctors_done_def)
  then show ?thesis using run srv(1) by simp
qed

lemma destroy_functor:
  assumes cl: "closed interest c s s1" and inv: "server_inv s" and c: "c \<in> ran (srv_connections s)"
    and loop: "conn_loop (conns s c) = l" "pool_loops (srv_pool s) = []" "pool_baseLoop (srv_pool s) = l" "pendingFunctors (loops s l) = []"
  shows "\<exists>s'. EventLoop_doPendingFunctors (Server_exec K U wc hw tid) l s1 = Inr s' \<and> removed interest l c s' \<and>
    srv_connections s' = (srv_connections s)(conn_name (conns s c) := None)"
proof -
  have "c \<notin> ran ((srv_connections s)(conn_name (conns s c) := None))"
    using inv by (auto simp: server_inv_def ran_def)
  then show ?thesis
    using destroy_pending [of s1 l c wc hw tid] cl loop by (simp add: closed_def TcpConnection_setState_def)
qed

lemma close_turn:
  assumes served: "conn_served l c s" and inv: "server_inv s" "Buffer_inv (conn_inputBuffer (conns s c))"
      "Buffer_size (conn_inputBuffer (conns s c)) \<le> vector_max_size"
    and ok: "chan_ok interest (conn_channel (conns s c)) s" "ch_index (chan_of c s) = kAdded"
    and cb: "conn_hasConnectionCallback (conns s c)" "conn_hasCloseCallback (conns s c)"
    and loop: "srv_loop s = l" "threadId (loops s l) = tid" "conn_loop (conns s c) = l"
      "pool_loops (srv_pool s) = []" "pool_baseLoop (srv_pool s) = l"
    and wait: "epoll_wait K (epollfd (loops s l)) (poller_events_size (loops s l)) (kern s) =
      (Inr [(EPOLLIN, conn_channel (conns s c))], k1)"
    and clock: "sys_gettimeofday K k1 = ((ts, us), k2)"
    and eof: "sys_read K (ch_fd (chan_of c s)) (readv_capacity (conn_inputBuffer (conns s c))) k2 = (Inr [], k3)"
  shows "\<exists>s'. EventLoop_turn K (Server_call K U alloc tid) conn_held (Server_exec K U wc hw tid) l s = Inr s' \<and>
    removed interest l c s' \<and> srv_connections s' = (srv_connections s)(conn_name (conns s c) := None)"
proof -
  let ?ch = "conn_channel (conns s c)" and ?b = "conn_inputBuffer (conns s c)" and ?t = "ts * kMicroSecondsPerSecond + us"
  have k3: "interest k3 = interest (kern s)"
    using wait_interest [OF wait] clock_interest [OF clock] read_interest [OF eof] by simp
  let ?w = "\<lambda>b sp. with_input c b (sp\<lparr>kern := k3\<rparr>)"
  have close: "\<exists>b s'. TcpConnection_handleRead K (server_callbacks K tid U) c ?t sp = Inr s' \<and> closed interest c (?w b sp) s'"
    if sp: "polled l ?ch EPOLLIN k2 s sp" for sp
  proof -
    note fr = polled_frame [OF sp] more_server_fields [OF polled_world(4) [OF sp]]
    have "Buffer_inv (conn_inputBuffer (conns sp c))" "Buffer_size (conn_inputBuffer (conns sp c)) \<le> vector_max_size"
      "sys_read K (ch_fd (chan_of c sp)) (readv_capacity (conn_inputBuffer (conns sp c))) (kern sp) = (Inr [], k3)"
      using inv(2,3) eof fr by simp_all
    then obtain b where "TcpConnection_handleRead K (server_callbacks K tid U) c ?t sp =
        TcpConnection_handleClose K (server_callbacks K tid U) c (?w b sp)"
      by (rule handleRead_eof)
    moreover have "chan_ok interest (conn_channel (conns (?w b sp) c)) (?w b sp)"
      using ok(1) k3 fr by (simp add: chan_ok_def Let_def)
    ultimately show ?thesis
      using handleClose_closes [of "?w b sp" c tid] ok(2) cb loop fr by auto
  qed
  then have kept: "ch_revents (chans s' ?ch) = EPOLLIN" if "polled l ?ch EPOLLIN k2 s sp"
    "TcpConnection_handleRead K (server_callbacks K tid U) c ?t sp = Inr s'" for sp s'
    using that polled_chans(9) [OF that(1)] by (fastforce simp: closed_def)
  obtain sp where sp: "polled l ?ch EPOLLIN k2 s sp" and run:
    "EventLoop_turn K (Server_call K U alloc tid) conn_held (Server_exec K U wc hw tid) l s =
      rbind (TcpConnection_handleRead K (server_callbacks K tid U) c ?t sp) (EventLoop_doPendingFunctors (Server_exec K U wc hw tid) l)"
    by (rule EventLoop_turn_input [where U = U and tid = tid, OF served wait clock]) (rule kept)
  obtain b s1 where s1: "TcpConnection_handleRead K (server_callbacks K tid U) c ?t sp = Inr s1" "closed interest c (?w b sp) s1"
    using close [OF sp] by blast
  note fr = polled_frame [OF sp] more_server_fields [OF polled_world(4) [OF sp]]
  have "server_inv (?w b sp)" using inv(1) fr by (simp add: server_inv_def)
  moreover have "c \<in> ran (srv_connections (?w b sp))" "pendingFunctors (loops (?w b sp) l) = []"
    using served fr by (simp_all add: conn_served_def)
  ultimately show ?thesis
    using destroy_functor [OF s1(2), of l wc hw tid] loop fr s1(1) unfolding run by simp
qed

end

end
