(* ===== verification/Net_Drain.thy ===== *)
theory Net_Drain
  imports Net_Turn
begin

unbundle bit_operations_syntax

text \<open>
  The turn of a loop in which a connection becomes writable: the output buffer is drained, and then
  \<open>disableWriting\<close> takes away the interest in reading instead of the interest in writing. What follows from
  this for the connection and its loop is shown here.
\<close>

section \<open>The handler of a write event\<close>

lemma EventLoop_turn_output:
  assumes "conn_served l c s"
    and "epoll_wait K (epollfd (loops s l)) (poller_events_size (loops s l)) (kern s) =
      (Inr [(EPOLLOUT, conn_channel (conns s c))], k1)"
    and "sys_gettimeofday K k1 = ((ts, us), k2)"
  obtains sp where "polled l (conn_channel (conns s c)) EPOLLOUT k2 s sp"
    "EventLoop_turn K (Server_call K U alloc tid) conn_held (Server_exec K U wc hw tid) l s =
      rbind (TcpConnection_handleWrite K tid c sp) (EventLoop_doPendingFunctors (Server_exec K U wc hw tid) l)"
proof -
  let ?ch = "conn_channel (conns s c)" and ?t = "ts * kMicroSecondsPerSecond + us"
  obtain sp where sp: "polled l ?ch EPOLLOUT k2 s sp"
    "EventLoop_turn K (Server_call K U alloc tid) conn_held (Server_exec K U wc hw tid) l s =
      rbind (Channel_handleEvent (Server_call K U alloc tid ?t) conn_held ?ch sp) (EventLoop_doPendingFunctors (Server_exec K U wc hw tid) l)"
    using EventLoop_turn_single [OF assms(2,3), of "Server_call K U alloc tid" conn_held "Server_exec K U wc hw tid"] by blast
  note served = assms(1) [folded conn_served_polled [OF sp(1)]]
  have ch: "conn_channel (conns sp c) = ?ch" by (simp add: polled_world [OF sp(1)])
  have "Channel_handleEvent (Server_call K U alloc tid ?t) conn_held ?ch sp = TcpConnection_handleWrite K tid c sp"
    using handleEvent_open [OF conn_served_open [OF served], of "Server_call K U alloc tid ?t"]
      handleEventWithGuard_output [where call = "Server_call K U alloc tid ?t" and ch = ?ch and w = sp
        and h = "H_TcpConnection_handleWrite c"]
      served polled_chans(9) [OF sp(1)]
    by (simp add: conn_served_def ch)
  with sp show thesis by (intro that) simp_all
qed

text \<open>
  A connection that has nothing left to send and is registered for writing only: the kernel reports neither
  input nor the end of the peer's stream for it.
\<close>

definition conn_deaf ::
    "('k \<Rightarrow> fd \<Rightarrow> fd \<rightharpoonup> epoll_event) \<Rightarrow> loop \<Rightarrow> conn \<Rightarrow> ('k, 'a) server_scheme \<Rightarrow> bool" where
  "conn_deaf interest l c s \<longleftrightarrow> conn_served l c s \<and> Buffer_inv (conn_outputBuffer (conns s c)) \<and>
     Buffer_abs (conn_outputBuffer (conns s c)) = [] \<and> ch_events (chan_of c s) = EPOLLOUT \<and>
     interest (kern s) (epollfd (loops s (ch_loop (chan_of c s)))) (ch_fd (chan_of c s)) = Some (EPOLLOUT, conn_channel (conns s c))"

lemma doPendingFunctors_deaf:
  assumes "conn_deaf interest l c s"
  shows "\<exists>s'. EventLoop_doPendingFunctors exec l s = Inr s' \<and> conn_deaf interest l c s' \<and> kern s' = kern s \<and> conns s' = conns s \<and>
    chans s' = chans s \<and> error_log s' = error_log s \<and> loops s' = (loops s)(l := (loops s l)\<lparr>callingPendingFunctors := False\<rparr>)"
proof -
  have "pendingFunctors (loops s l) = []" using assms by (simp add: conn_deaf_def conn_served_def)
  from doPendingFunctors_empty [OF this, of exec] obtain s' where
    s': "EventLoop_doPendingFunctors exec l s = Inr s'" "kern s' = kern s" "conns s' = conns s" "chans s' = chans s"
      "world.more s' = world.more s" "error_log s' = error_log s" "loops s' = (loops s)(l := (loops s l)\<lparr>callingPendingFunctors := False\<rparr>)"
    by blast
  then have "conn_deaf interest l c s'"
    using assms more_server_fields(1) [OF s'(5)] by (auto simp: conn_deaf_def conn_served_def)
  with s' show ?thesis by blast
qed

context polling_kernel
begin

lemma handleWrite_drains:
  assumes "conn_served l c s" "conn_ok c s" "chan_ok interest (conn_channel (conns s c)) s" "ch_index (chan_of c s) = kAdded"
    and "Channel_isWriting (chan_of c s)" "length (Buffer_abs (conn_outputBuffer (conns s c))) \<le> nat INT_MAX"
    and "Buffer_abs (conn_outputBuffer (conns s c)) \<noteq> []"
    and "sys_write K (ch_fd (chan_of c s)) (Buffer_abs (conn_outputBuffer (conns s c))) (kern s) =
      (Inr (length (Buffer_abs (conn_outputBuffer (conns s c)))), k')"
  shows "aborts_or (\<lambda>s'. conn_deaf interest l c s' \<and> ch_fd (chan_of c s') = ch_fd (chan_of c s) \<and>
      sent (kern s') (ch_fd (chan_of c s)) = conn_stream sent c s)
    (TcpConnection_handleWrite K tid c s)"
proof -
  let ?ch = "conn_channel (conns s c)" and ?b = "conn_outputBuffer (conns s c)"
  let ?n = "length (Buffer_abs ?b)"
  define b' where "b' = Buffer_retrieve (int ?n) ?b"
  have inv: "Buffer_inv ?b" using assms(2) by (simp add: conn_ok_def)
  have n: "int32 (int ?n) = int ?n" using assms(6) by (simp add: int32_id limit_defs)
  have b': "Buffer_abs b' = []" "Buffer_inv b'"
    using Buffer_retrieve_abs [OF inv, of "int ?n"] Buffer_retrieve_inv [OF inv] assms(6)
    by (simp_all add: b'_def limit_defs)
  then have drained: "Buffer_readableBytes b' = 0"
    using Buffer_readableBytes_inv [OF b'(2)] Buffer_abs_length [OF b'(2)] by simp
  define w1 where "w1 = upd_conn c (\<lambda>cn. cn\<lparr>conn_outputBuffer := b'\<rparr>) (s\<lparr>kern := k'\<rparr>)"
  have writing: "Channel_isWriting (chan_of c w1)" using assms(5) by (simp add: w1_def)
  have "TcpConnection_handleWrite K tid c s = handleWrite_done K tid c w1"
    using handleWrite_drain [OF assms(5) inv assms(8)] assms(7) drained by (simp add: w1_def b'_def n Let_def)
  also have "\<dots> = rbind (Channel_disableWriting K ?ch w1) (\<lambda>w2. Inr (if conn_hasWriteCompleteCallback (conns w2 c)
      then EventLoop_queueInLoop K tid (conn_loop (conns w2 c)) (F_writeComplete c) w2 else w2))"
    using handleWrite_done_writing [OF writing] by (simp add: w1_def)
  finally have run: "TcpConnection_handleWrite K tid c s = \<dots>" .
  show ?thesis
  proof (cases "Channel_disableWriting K ?ch w1")
    case (Inl e)
    then show ?thesis using run Channel_update_fails by (simp add: Channel_disableWriting_def)
  next
    case (Inr w2)
    then have up: "Channel_update K ?ch (upd_chan ?ch (\<lambda>ch. ch\<lparr>ch_events := ch_events (chans w1 ?ch) AND kWriteEvent\<rparr>) w1) = Inr w2"
      by (simp add: Channel_disableWriting_def)
    have "interest k' = interest (kern s)" using assms(8) by (rule write_interest)
    then have "chan_ok interest ?ch w1" using assms(3) by (simp add: chan_ok_def w1_def Let_def)
    note ok = set_events_ok [OF this up]
    note fr = same_but_chan_fields [OF ok(3)]
    have ev: "ch_events (chans w2 ?ch) = EPOLLOUT"
      using ok(2) writing write_mask_cases [of "ch_events (chans w1 ?ch)"]
      by (auto simp: w1_def Channel_isWriting_def kWriteEvent_def kNoneEvent_def)
    have idx: "ch_index (chans w2 ?ch) \<noteq> kNew" using Channel_update_index [OF up] assms(4) by (simp add: w1_def)
    obtain e i where ch2: "chans w2 ?ch = (chans w1 ?ch)\<lparr>ch_events := e, ch_index := i\<rparr>"
      using ok(3) by (auto simp: same_but_chan_def)
    have ker: "interest (kern w2) (epollfd (loops w2 (ch_loop (chans w2 ?ch)))) (ch_fd (chans w2 ?ch)) = Some (EPOLLOUT, ?ch)"
      using ok(1) idx ev by (auto simp: chan_ok_def Let_def event_defs kNoneEvent_def)
    have "world.more w2 = world.more s" using fr(10) by (simp add: w1_def)
    then have "srv_connections w2 = srv_connections s" by (rule more_server_fields(1))
    then have deaf: "conn_deaf interest l c w2"
      using assms(1) ev ker b' fr(4,8) ch2 by (simp add: conn_deaf_def conn_served_def w1_def)
    have "sent (kern w2) = sent k'" using Channel_update_sent [OF up] by (simp add: w1_def)
    then have "sent (kern w2) (ch_fd (chan_of c s)) = conn_stream sent c s"
      using write_ok [OF assms(8)] by (simp add: conn_stream_def)
    then show ?thesis
      using deaf fr(2,8) run Inr assms(1) by (simp add: conn_served_def w1_def)
  qed
qed

end

section \<open>Turns\<close>

context polling_kernel
begin

lemma drain_turn:
  assumes "conn_served l c s" "conn_ok c s" "chan_ok interest (conn_channel (conns s c)) s" "ch_index (chan_of c s) = kAdded"
    and "Channel_isWriting (chan_of c s)" "length (Buffer_abs (conn_outputBuffer (conns s c))) \<le> nat INT_MAX"
    and "Buffer_abs (conn_outputBuffer (conns s c)) \<noteq> []"
    and "epoll_wait K (epollfd (loops s l)) (poller_events_size (loops s l)) (kern s) =
      (Inr [(EPOLLOUT, conn_channel (conns s c))], k1)"
    and "sys_gettimeofday K k1 = ((ts, us), k2)"
    and "sys_write K (ch_fd (chan_of c s)) (Buffer_abs (conn_outputBuffer (conns s c))) k2 =
      (Inr (length (Buffer_abs (conn_outputBuffer (conns s c)))), k3)"
  shows "aborts_or (\<lambda>s'. conn_deaf interest l c s' \<and> sent (kern s') (ch_fd (chan_of c s)) = conn_stream sent c s)
    (EventLoop_turn K (Server_call K U alloc tid) conn_held (Server_exec K U wc hw tid) l s)"
proof -
  obtain sp where sp: "polled l (conn_channel (conns s c)) EPOLLOUT k2 s sp"
    "EventLoop_turn K (Server_call K U alloc tid) conn_held (Server_exec K U wc hw tid) l s =
      rbind (TcpConnection_handleWrite K tid c sp) (EventLoop_doPendingFunctors (Server_exec K U wc hw tid) l)"
    using EventLoop_turn_output [OF assms(1,8,9)] by blast
  note k2 = poll_kernel [OF assms(8,9)]
  have "conn_stream sent c sp = conn_stream sent c s" using k2(1) by (rule conn_stream_polled [OF sp(1)])
  moreover have "aborts_or (\<lambda>s'. conn_deaf interest l c s' \<and> ch_fd (chan_of c s') = ch_fd (chan_of c sp) \<and>
      sent (kern s') (ch_fd (chan_of c sp)) = conn_stream sent c sp) (TcpConnection_handleWrite K tid c sp)"
    using assms(1-7,10) k2(2)
    by (intro handleWrite_drains [where k' = k3])
      (simp_all add: conn_served_polled [OF sp(1)] chan_ok_polled [OF sp(1)] conn_ok_def Channel_isWriting_def polled_frame [OF sp(1)])
  moreover have "aborts_or (\<lambda>s'. conn_deaf interest l c s' \<and> sent (kern s') (ch_fd (chan_of c sp)) = x)
      (EventLoop_doPendingFunctors (Server_exec K U wc hw tid) l s')"
    if "conn_deaf interest l c s'" "sent (kern s') (ch_fd (chan_of c sp)) = x" for s' x
    using doPendingFunctors_deaf [OF that(1), of "Server_exec K U wc hw tid"] that(2) by auto
  ultimately have "aborts_or (\<lambda>s'. conn_deaf interest l c s' \<and> sent (kern s') (ch_fd (chan_of c sp)) = conn_stream sent c s)
      (rbind (TcpConnection_handleWrite K tid c sp) (EventLoop_doPendingFunctors (Server_exec K U wc hw tid) l))"
    by (elim aborts_or_rbind) simp
  then show ?thesis unfolding sp(2) by (simp add: polled_frame [OF sp(1)])
qed

lemma spin_turn:
  assumes "conn_deaf interest l c s"
    and "epoll_wait K (epollfd (loops s l)) (poller_events_size (loops s l)) (kern s) =
      (Inr [(EPOLLOUT, conn_channel (conns s c))], k1)"
    and "sys_gettimeofday K k1 = ((ts, us), k2)"
  shows "\<exists>s'. EventLoop_turn K (Server_call K U alloc tid) conn_held (Server_exec K U wc hw tid) l s = Inr s' \<and>
    conn_deaf interest l c s' \<and> sent (kern s') = sent (kern s) \<and> conns s' = conns s \<and>
    error_log s' = error_log s @ [''TcpConnection::handleWrite() failed'']"
proof -
  have served: "conn_served l c s" using assms(1) by (simp add: conn_deaf_def)
  obtain sp where sp: "polled l (conn_channel (conns s c)) EPOLLOUT k2 s sp"
    "EventLoop_turn K (Server_call K U alloc tid) conn_held (Server_exec K U wc hw tid) l s =
      rbind (TcpConnection_handleWrite K tid c sp) (EventLoop_doPendingFunctors (Server_exec K U wc hw tid) l)"
    using EventLoop_turn_output [OF served assms(2,3)] by blast
  note k2 = poll_kernel [OF assms(2,3)]
  have deaf: "conn_deaf interest l c sp"
    using assms(1) k2(2) by (simp add: conn_deaf_def conn_served_polled [OF sp(1)] polled_frame [OF sp(1)])
  then have b: "Buffer_inv (conn_outputBuffer (conns sp c))" "Buffer_abs (conn_outputBuffer (conns sp c)) = []"
    "Channel_isWriting (chan_of c sp)"
    by (simp_all add: conn_deaf_def Channel_isWriting_def kWriteEvent_def kNoneEvent_def EPOLLOUT_def)
  obtain out k3 where wr: "sys_write K (ch_fd (chan_of c sp)) [] (kern sp) = (out, k3)" by fastforce
  have none: "\<nexists>n. out = Inr n \<and> 0 < n" and k3: "sent k3 = sent (kern sp)"
    using wr write_ok [of _ "[]"] write_fail by (cases out; fastforce)+
  define s1 where "s1 = log_error ''TcpConnection::handleWrite() failed'' (sp\<lparr>kern := k3\<rparr>)"
  have run: "TcpConnection_handleWrite K tid c sp = Inr s1"
    using handleWrite_no_progress [OF b(3,1) _ none] wr b(2) by (simp add: s1_def)
  have "interest k3 = interest (kern sp)" using wr by (rule write_interest)
  then have "conn_deaf interest l c s1"
    using deaf by (simp add: conn_deaf_def conn_served_def s1_def log_error_def)
  from doPendingFunctors_deaf [OF this] show ?thesis
    unfolding sp(2) run using k2(1) k3 by (fastforce simp: s1_def log_error_def polled_frame [OF sp(1)])
qed

end

end
