(* ===== verification/Http_EndToEnd.thy ===== *)
theory Http_EndToEnd
  imports Http_Server Net_Lifecycle Net_Drain
begin

text \<open>
  The components put together: one turn of an event loop that finds a request on a connection of
  the HTTP server, from \<open>epoll_wait\<close> over the channel's dispatch, \<open>handleRead\<close>, the parser and
  the HTTP callback to the bytes that go back to the peer; and the turns after a response that closes the connection.
\<close>

section \<open>One read event\<close>

lemma server_callbacks_http [simp]:
  "server_callbacks K tid (http_callbacks K tid iter cb tmp) = http_callbacks K tid iter cb tmp"
  by (simp add: server_callbacks_def http_callbacks_def)

text \<open>The connection callback of the HTTP server only logs.\<close>

lemma http_quiet_server: "polling_kernel K interest sent \<Longrightarrow> quiet_server K interest sent (http_callbacks K tid iter cb tmp)"
  by (intro quiet_server.intro quiet_server_axioms.intro) (simp_all add: http_callbacks_def HttpServer_onConnection_def)

interpretation http_quiet: quiet_server ref_kernel rk_interest rk_sent "http_callbacks ref_kernel tid iter cb tmp" for tid iter cb tmp
  by (rule http_quiet_server [OF rk.polling_kernel_axioms])

context net_kernel
begin

lemma handleRead_answers:
  assumes "conn_ready K tid (length (render_response (iter (resp_headers resp)) resp)) c w"
    and "Buffer_inv (conn_inputBuffer (conns w c))" "conn_hasMessageCallback (conns w c)"
    and "sys_read K (ch_fd (chan_of c w)) (readv_capacity (conn_inputBuffer (conns w c))) (kern w) = (Inr xs, k')"
    and "Buffer_size (conn_inputBuffer (conns w c)) + length xs \<le> nat INT_MAX" "xs \<noteq> []"
    and "parse_bytes t HttpRequest_ctor (Buffer_abs (conn_inputBuffer (conns w c)) @ xs) = (True, kGotAll, req, rest)"
    and "\<And>w. kern w = k' \<Longrightarrow> callback_answers sent cb req resp w"
  shows "\<exists>b. Buffer_inv b \<and> Buffer_size b \<le> Buffer_size (conn_inputBuffer (conns w c)) + length xs \<and>
    aborts_or (\<lambda>w'. conn_rest c (with_input c b w) w' \<and> conn_ok c w' \<and> conn_room 0 c w' \<and>
      Buffer_abs (conn_inputBuffer (conns w' c)) = rest \<and>
      conn_stream sent c w' = conn_stream sent c w @ render_response (iter (resp_headers resp)) resp \<and>
      conn_state (conns w' c) = (if resp_closeConnection resp then kDisconnecting else kConnected))
    (TcpConnection_handleRead K (http_callbacks K tid iter cb tmp) c t w)"
proof -
  let ?b = "conn_inputBuffer (conns w c)"
  have "length xs \<le> readv_capacity ?b" by (rule read_ok [OF assms(4)])
  moreover have "Buffer_size ?b + length xs \<le> vector_max_size" using assms(5) by (simp add: limit_defs)
  ultimately obtain b' where b': "Buffer_readFd (Inr xs) ?b = Inr (int (length xs), None, b')" "Buffer_inv b'"
    "Buffer_abs b' = Buffer_abs ?b @ xs" "Buffer_size b' \<le> Buffer_size ?b + length xs"
    using Buffer_readFd_ok [OF assms(2)] by metis
  let ?w = "with_input c b' (w\<lparr>kern := k'\<rparr>)"
  have run: "TcpConnection_handleRead K (http_callbacks K tid iter cb tmp) c t w =
      (case HttpServer_onMessage K tid iter cb tmp c t ?w of None \<Rightarrow> Inl Diverges | Some r \<Rightarrow> r)"
    using assms(3,4,6) b' by (simp add: TcpConnection_handleRead_def Let_def call_message_def http_callbacks_def)
  have ready: "conn_ready K tid (length (render_response (iter (resp_headers resp)) resp)) c ?w"
    using assms(1) by (simp add: conn_ready_def conn_ok_def conn_room_def)
  have "length (Buffer_abs ?b) \<le> Buffer_size ?b"
    using Buffer_abs_length [OF assms(2)] assms(2) by (auto simp: Buffer_inv_def)
  then have len: "int (length (Buffer_abs (conn_inputBuffer (conns ?w c)))) \<le> INT_MAX"
    using assms(5) b'(3) by (simp add: limit_defs)
  have "sent k' = sent (kern w)" by (rule read_frame [OF assms(4)])
  then have str: "conn_stream sent c ?w = conn_stream sent c w" by (simp add: conn_stream_def)
  obtain res b where res: "HttpServer_onMessage K tid iter cb tmp c t ?w = Some res"
    "aborts_or (\<lambda>w'. conn_rest c (with_input c b ?w) w' \<and> conn_ok c w' \<and> conn_room 0 c w' \<and> Buffer_abs (conn_inputBuffer (conns w' c)) = rest \<and>
      conn_stream sent c w' = conn_stream sent c ?w @ render_response (iter (resp_headers resp)) resp \<and>
      conn_state (conns w' c) = (if resp_closeConnection resp then kDisconnecting else kConnected)) res"
    "Buffer_inv b" "Buffer_size b = Buffer_size b'"
    using onMessage_complete [where iter = iter and tmp = tmp, OF ready _ len, of t req rest cb] assms(7,8) b' by auto
  have "aborts_or (\<lambda>w'. conn_rest c (with_input c b w) w' \<and> conn_ok c w' \<and> conn_room 0 c w' \<and>
      Buffer_abs (conn_inputBuffer (conns w' c)) = rest \<and>
      conn_stream sent c w' = conn_stream sent c w @ render_response (iter (resp_headers resp)) resp \<and>
      conn_state (conns w' c) = (if resp_closeConnection resp then kDisconnecting else kConnected)) res"
    by (rule aborts_or_mono [OF res(2)]) (use str in \<open>auto simp: conn_rest_def\<close>)
  then show ?thesis
    unfolding run res(1) option.case using res(3,4) b'(4) by (intro exI [of _ b]) simp
qed

end

section \<open>One turn of the loop\<close>

context polling_kernel
begin

lemma turn_answers:
  assumes "conn_served l c s" "conn_ready K tid (length (render_response (iter (resp_headers resp)) resp)) c s"
    and wait: "epoll_wait K (epollfd (loops s l)) (poller_events_size (loops s l)) (kern s) =
      (Inr [(EPOLLIN, conn_channel (conns s c))], k1)"
    and clock: "sys_gettimeofday K k1 = ((ts, us), k2)"
    and "sys_read K (ch_fd (chan_of c s)) (readv_capacity (conn_inputBuffer (conns s c))) k2 = (Inr xs, k3)" "xs \<noteq> []"
    and "Buffer_inv (conn_inputBuffer (conns s c))"
    and "Buffer_size (conn_inputBuffer (conns s c)) + length xs \<le> nat INT_MAX"
    and "parse_bytes (ts * kMicroSecondsPerSecond + us) HttpRequest_ctor (Buffer_abs (conn_inputBuffer (conns s c)) @ xs) =
      (True, kGotAll, req, rest)"
    and "\<And>w. kern w = k3 \<Longrightarrow> callback_answers sent cb req resp w"
  shows "aborts_or (\<lambda>s'. conn_served l c s' \<and> conn_ok c s' \<and> conn_room 0 c s' \<and> Buffer_inv (conn_inputBuffer (conns s' c)) \<and>
      Buffer_size (conn_inputBuffer (conns s' c)) \<le> Buffer_size (conn_inputBuffer (conns s c)) + length xs \<and>
      conn_channel (conns s' c) = conn_channel (conns s c) \<and> Buffer_abs (conn_inputBuffer (conns s' c)) = rest \<and>
      conn_stream sent c s' = conn_stream sent c s @ render_response (iter (resp_headers resp)) resp \<and>
      conn_state (conns s' c) = (if resp_closeConnection resp then kDisconnecting else kConnected) \<and>
      pendingFunctors (loops s' l) = [])
    (EventLoop_turn K (Server_call K (http_callbacks K tid iter cb tmp) alloc tid) conn_held
      (Server_exec K (http_callbacks K tid iter cb tmp) wc hw tid) l s)"
proof -
  let ?U = "http_callbacks K tid iter cb tmp" and ?t = "ts * kMicroSecondsPerSecond + us" and ?ch = "conn_channel (conns s c)"
  let ?post = "\<lambda>w'. conn_ok c w' \<and> conn_room 0 c w' \<and> Buffer_abs (conn_inputBuffer (conns w' c)) = rest \<and>
      conn_stream sent c w' = conn_stream sent c s @ render_response (iter (resp_headers resp)) resp \<and>
      conn_state (conns w' c) = (if resp_closeConnection resp then kDisconnecting else kConnected)"
  have "sent k2 = sent (kern s)" using wait_sent [OF wait] clock_sent [OF clock] by simp
  then have read: "\<exists>b. Buffer_inv b \<and> Buffer_size b \<le> Buffer_size (conn_inputBuffer (conns s c)) + length xs \<and>
      aborts_or (\<lambda>w'. conn_rest c (with_input c b wp) w' \<and> ?post w') (TcpConnection_handleRead K ?U c ?t wp)"
    if "polled l ?ch EPOLLIN k2 s wp" for wp
    using handleRead_answers [where iter = iter and tmp = tmp and cb = cb and xs = xs and k' = k3 and t = ?t and w = wp
        and c = c and req = req and resp = resp and rest = rest and tid = tid] assms(1,2,5-10)
    by (simp add: conn_served_def polled_frame [OF that] conn_ready_polled [OF that] conn_stream_polled [OF that])
  then have kept: "ch_revents (chans w' ?ch) = EPOLLIN"
    if "polled l ?ch EPOLLIN k2 s wp" "TcpConnection_handleRead K (server_callbacks K tid ?U) c ?t wp = Inr w'" for wp w'
    using that polled_frame [OF that(1)] by (fastforce simp: conn_rest_def)
  obtain wp where wp: "polled l ?ch EPOLLIN k2 s wp" and run: "EventLoop_turn K (Server_call K ?U alloc tid) conn_held
      (Server_exec K ?U wc hw tid) l s = rbind (TcpConnection_handleRead K (server_callbacks K tid ?U) c ?t wp)
        (EventLoop_doPendingFunctors (Server_exec K ?U wc hw tid) l)"
    by (rule EventLoop_turn_input [where U = ?U and tid = tid, OF assms(1) wait clock]) (rule kept)
  obtain b where b: "Buffer_inv b" "Buffer_size b \<le> Buffer_size (conn_inputBuffer (conns s c)) + length xs"
    "aborts_or (\<lambda>w'. conn_rest c (with_input c b wp) w' \<and> ?post w') (TcpConnection_handleRead K ?U c ?t wp)"
    using read [OF wp] by blast
  have "conn_served l c (with_input c b wp)" using assms(1) by (simp add: conn_served_def polled_frame [OF wp] more_server_fields(1) [OF polled_world(4) [OF wp]])
  note served = conn_served_rest [OF _ this]
  show ?thesis
    unfolding run server_callbacks_http
  proof (rule aborts_or_rbind [OF b(3)])
    fix w' assume w': "conn_rest c (with_input c b wp) w' \<and> ?post w'"
    then have inb: "conn_inputBuffer (conns w' c) = b" "conn_channel (conns w' c) = conn_channel (conns s c)"
      using polled_world(2) [OF wp] by (simp_all add: conn_rest_def)
    from doPendingFunctors_closing [OF served [OF conjunct1 [OF w']], of "Server_exec K ?U wc hw tid" sent] w' b(1,2) inb
    show "aborts_or (\<lambda>s'. conn_served l c s' \<and> conn_ok c s' \<and> conn_room 0 c s' \<and> Buffer_inv (conn_inputBuffer (conns s' c)) \<and>
        Buffer_size (conn_inputBuffer (conns s' c)) \<le> Buffer_size (conn_inputBuffer (conns s c)) + length xs \<and>
        conn_channel (conns s' c) = conn_channel (conns s c) \<and> Buffer_abs (conn_inputBuffer (conns s' c)) = rest \<and>
        conn_stream sent c s' = conn_stream sent c s @ render_response (iter (resp_headers resp)) resp \<and>
        conn_state (conns s' c) = (if resp_closeConnection resp then kDisconnecting else kConnected) \<and>
        pendingFunctors (loops s' l) = [])
      (EventLoop_doPendingFunctors (Server_exec K ?U wc hw tid) l w')"
      by (auto simp: conn_served_def conn_room_def)
  qed
qed

end

section \<open>The turns after the answer\<close>

text \<open>One turn of the loop of the HTTP server.\<close>

definition http_turn ::
    "'k kernel \<Rightarrow> ((bytes \<rightharpoonup> bytes) \<Rightarrow> (bytes \<times> bytes) list) \<Rightarrow> ('k, 'a) server_scheme http_callback \<Rightarrow> nat
      \<Rightarrow> (('k, 'a) server_scheme \<Rightarrow> conn \<times> chan) \<Rightarrow> int \<Rightarrow> loop \<Rightarrow> ('k, 'a) server_scheme \<Rightarrow> ('k, 'a) server_scheme res" where
  "http_turn K iter cb tmp alloc tid l = EventLoop_turn K (Server_call K (http_callbacks K tid iter cb tmp) alloc tid) conn_held
     (Server_exec K (http_callbacks K tid iter cb tmp) (\<lambda>c s. Inl BadFunctionCall) (\<lambda>c n s. Inl BadFunctionCall) tid) l"

text \<open>A connection that has been answered, and whose input buffer has room for \<open>n\<close> more bytes.\<close>

definition http_done :: "nat \<Rightarrow> loop \<Rightarrow> conn \<Rightarrow> ('k, 'a) server_scheme \<Rightarrow> bool" where
  "http_done n l c s \<longleftrightarrow> conn_served l c s \<and> conn_ok c s \<and> conn_room 0 c s \<and> conn_state (conns s c) = kDisconnecting \<and>
     Buffer_inv (conn_inputBuffer (conns s c)) \<and> Buffer_size (conn_inputBuffer (conns s c)) + n \<le> nat INT_MAX"

lemma http_done_polled: "polled l' ch ev k s sp \<Longrightarrow> http_done n l c sp = http_done n l c s"
  by (simp add: http_done_def conn_served_polled conn_ok_def conn_room_def Channel_isWriting_def polled_frame)

lemma doPendingFunctors_done:
  assumes "http_done n l c s"
  shows "\<exists>s'. EventLoop_doPendingFunctors exec l s = Inr s' \<and> http_done n l c s' \<and> conn_stream sent c s' = conn_stream sent c s \<and>
    conn_channel (conns s' c) = conn_channel (conns s c)"
  using assms doPendingFunctors_closing [of l c s exec sent] by (auto simp: http_done_def conn_room_def)

context polling_kernel
begin

lemma turn_finishes:
  assumes "conn_served l c s" "conn_ready K tid (length (render_response (iter (resp_headers resp)) resp)) c s"
    and "epoll_wait K (epollfd (loops s l)) (poller_events_size (loops s l)) (kern s) = (Inr [(EPOLLIN, conn_channel (conns s c))], k1)"
    and "sys_gettimeofday K k1 = ((ts, us), k2)"
    and "sys_read K (ch_fd (chan_of c s)) (readv_capacity (conn_inputBuffer (conns s c))) k2 = (Inr xs, k3)" "xs \<noteq> []"
    and "Buffer_inv (conn_inputBuffer (conns s c))"
    and "Buffer_size (conn_inputBuffer (conns s c)) + length xs + n \<le> nat INT_MAX"
    and "parse_bytes (ts * kMicroSecondsPerSecond + us) HttpRequest_ctor (Buffer_abs (conn_inputBuffer (conns s c)) @ xs) =
      (True, kGotAll, req, rest)"
    and "\<And>w. kern w = k3 \<Longrightarrow> callback_answers sent cb req resp w" "resp_closeConnection resp"
  shows "aborts_or (\<lambda>s'. http_done n l c s' \<and> conn_stream sent c s' = conn_stream sent c s @ render_response (iter (resp_headers resp)) resp \<and>
    conn_channel (conns s' c) = conn_channel (conns s c)) (http_turn K iter cb tmp alloc tid l s)"
proof -
  have size: "Buffer_size (conn_inputBuffer (conns s c)) + length xs \<le> nat INT_MAX" using assms(8) by simp
  show ?thesis
    unfolding http_turn_def
    by (rule aborts_or_mono [OF turn_answers [where iter = iter, OF assms(1-7) size assms(9,10)]])
      (use assms(8,11) in \<open>auto simp: http_done_def\<close>)
qed

lemma done_handleRead:
  assumes "http_done (length xs + n) l c s" "callback_quiet sent iter cb" "xs \<noteq> []"
    and "sys_read K (ch_fd (chan_of c s)) (readv_capacity (conn_inputBuffer (conns s c))) (kern s) = (Inr xs, k')"
  shows "\<exists>s'. TcpConnection_handleRead K (http_callbacks K tid iter cb tmp) c t s = Inr s' \<and> http_done n l c s' \<and>
    conn_stream sent c s' = conn_stream sent c s \<and> chans s' = chans s \<and> conn_channel (conns s' c) = conn_channel (conns s c)"
proof -
  let ?b = "conn_inputBuffer (conns s c)"
  have d: "Buffer_inv ?b" "Buffer_size ?b + length xs + n \<le> nat INT_MAX" "conn_hasMessageCallback (conns s c)"
    using assms(1) by (simp_all add: http_done_def conn_served_def)
  have "length xs \<le> readv_capacity ?b" by (rule read_ok [OF assms(4)])
  moreover have "Buffer_size ?b + length xs \<le> vector_max_size" using d(2) by (simp add: limit_defs)
  ultimately obtain b where b: "Buffer_readFd (Inr xs) ?b = Inr (int (length xs), None, b)" "Buffer_inv b"
    "Buffer_size b \<le> Buffer_size ?b + length xs"
    using Buffer_readFd_ok [OF d(1)] by metis
  let ?w = "with_input c b (s\<lparr>kern := k'\<rparr>)"
  have run: "TcpConnection_handleRead K (http_callbacks K tid iter cb tmp) c t s =
      (case HttpServer_onMessage K tid iter cb tmp c t ?w of None \<Rightarrow> Inl Diverges | Some r \<Rightarrow> r)"
    using d(3) assms(3,4) b by (simp add: TcpConnection_handleRead_def Let_def call_message_def http_callbacks_def)
  have "length (Buffer_abs b) \<le> Buffer_size b"
    using Buffer_abs_length [OF b(2)] b(2) by (auto simp: Buffer_inv_def)
  then have "int (length (Buffer_abs (conn_inputBuffer (conns ?w c)))) \<le> INT_MAX" "conn_state (conns ?w c) \<noteq> kConnected"
      "Buffer_inv (conn_inputBuffer (conns ?w c))"
    using b(2,3) d(2) assms(1) by (simp_all add: limit_defs http_done_def)
  from onMessage_ignored [OF this(3,1,2) assms(2), of K tid tmp t] obtain b' k strs where
    m: "HttpServer_onMessage K tid iter cb tmp c t ?w = Some (Inr ((with_input c b' ?w)\<lparr>kern := k, strings := strs\<rparr>))"
      "Buffer_inv b'" "Buffer_size b' = Buffer_size b" "sent k = sent k'" by auto
  have "sent k' = sent (kern s)" by (rule read_frame [OF assms(4)])
  then show ?thesis
    using run m(1-4) b(3) d(2) assms(1)
    by (simp add: http_done_def conn_served_def conn_ok_def conn_room_def conn_stream_def Channel_isWriting_def)
qed

lemma done_turn_input:
  assumes "http_done (length xs + n) l c s" "callback_quiet sent iter cb" "xs \<noteq> []"
    and wait: "epoll_wait K (epollfd (loops s l)) (poller_events_size (loops s l)) (kern s) =
      (Inr [(EPOLLIN, conn_channel (conns s c))], k1)"
    and clock: "sys_gettimeofday K k1 = ((ts, us), k2)"
    and "sys_read K (ch_fd (chan_of c s)) (readv_capacity (conn_inputBuffer (conns s c))) k2 = (Inr xs, k3)"
  shows "aborts_or (\<lambda>s'. http_done n l c s' \<and> conn_stream sent c s' = conn_stream sent c s \<and> conn_channel (conns s' c) = conn_channel (conns s c)) (http_turn K iter cb tmp alloc tid l s)"
proof -
  let ?U = "http_callbacks K tid iter cb tmp" and ?t = "ts * kMicroSecondsPerSecond + us" and ?ch = "conn_channel (conns s c)"
  have served: "conn_served l c s" using assms(1) by (simp add: http_done_def)
  have read: "\<exists>s'. TcpConnection_handleRead K ?U c ?t sp = Inr s' \<and> http_done n l c s' \<and> conn_stream sent c s' = conn_stream sent c s \<and>
      chans s' = chans sp \<and> conn_channel (conns s' c) = conn_channel (conns s c)" if sp: "polled l ?ch EPOLLIN k2 s sp" for sp
    using done_handleRead [where s = sp and xs = xs and n = n and l = l and c = c and cb = cb and iter = iter and k' = k3
        and tid = tid and tmp = tmp and t = ?t] assms(1-3,6)
      poll_kernel(1) [OF wait clock] conn_stream_polled [OF sp]
    by (simp add: http_done_polled [OF sp] polled_frame [OF sp])
  have kept: "ch_revents (chans s' ?ch) = EPOLLIN"
    if "polled l ?ch EPOLLIN k2 s sp" "TcpConnection_handleRead K (server_callbacks K tid ?U) c ?t sp = Inr s'" for sp s'
    using read [OF that(1)] that(2) polled_chans(9) [OF that(1)] by auto
  let ?exec = "Server_exec K ?U (\<lambda>c s. Inl BadFunctionCall) (\<lambda>c n s. Inl BadFunctionCall) tid"
  obtain sp where sp: "polled l ?ch EPOLLIN k2 s sp" and run: "EventLoop_turn K (Server_call K ?U alloc tid) conn_held ?exec l s =
      rbind (TcpConnection_handleRead K (server_callbacks K tid ?U) c ?t sp) (EventLoop_doPendingFunctors ?exec l)"
    by (rule EventLoop_turn_input [where U = ?U and tid = tid, OF served wait clock]) (rule kept)
  obtain s1 where s1: "TcpConnection_handleRead K ?U c ?t sp = Inr s1" "http_done n l c s1" "conn_stream sent c s1 = conn_stream sent c s"
      "conn_channel (conns s1 c) = conn_channel (conns s c)"
    using read [OF sp] by blast
  from doPendingFunctors_done [OF s1(2), of ?exec sent] s1 show ?thesis
    unfolding http_turn_def run server_callbacks_http by auto
qed

lemma done_turn_output:
  assumes "http_done n l c s"
    and wait: "epoll_wait K (epollfd (loops s l)) (poller_events_size (loops s l)) (kern s) =
      (Inr [(EPOLLOUT, conn_channel (conns s c))], k1)"
    and clock: "sys_gettimeofday K k1 = ((ts, us), k2)"
  shows "aborts_or (\<lambda>s'. http_done n l c s' \<and> conn_stream sent c s' = conn_stream sent c s \<and> conn_channel (conns s' c) = conn_channel (conns s c)) (http_turn K iter cb tmp alloc tid l s)"
proof -
  let ?exec = "Server_exec K (http_callbacks K tid iter cb tmp) (\<lambda>c s. Inl BadFunctionCall) (\<lambda>c n s. Inl BadFunctionCall) tid"
  have served: "conn_served l c s" using assms(1) by (simp add: http_done_def)
  obtain sp where sp: "polled l (conn_channel (conns s c)) EPOLLOUT k2 s sp" and run: "http_turn K iter cb tmp alloc tid l s =
      rbind (TcpConnection_handleWrite K tid c sp) (EventLoop_doPendingFunctors ?exec l)"
    using EventLoop_turn_output [OF served wait clock, of "http_callbacks K tid iter cb tmp" alloc tid] unfolding http_turn_def by blast
  have d: "http_done n l c sp" using assms(1) by (simp add: http_done_polled [OF sp])
  have str: "conn_stream sent c sp = conn_stream sent c s"
    using poll_kernel(1) [OF wait clock] by (rule conn_stream_polled [OF sp])
  have ok: "conn_ok c sp" "conn_room 0 c sp" using d by (simp_all add: http_done_def)
  show ?thesis
    unfolding run
  proof (cases "TcpConnection_handleWrite K tid c sp")
    case (Inl e)
    then show "aborts_or (\<lambda>s'. http_done n l c s' \<and> conn_stream sent c s' = conn_stream sent c s \<and> conn_channel (conns s' c) = conn_channel (conns s c))
        (rbind (TcpConnection_handleWrite K tid c sp) (EventLoop_doPendingFunctors ?exec l))"
      using handleWrite_effect [OF ok, of tid] by simp
  next
    case (Inr s1)
    note rest = handleWrite_rest [OF Inr]
    have "conn_effect sent c 0 [] sp s1" using handleWrite_effect [OF ok, of tid] Inr by simp
    then have "http_done n l c s1" "conn_stream sent c s1 = conn_stream sent c s" "conn_channel (conns s1 c) = conn_channel (conns s c)"
      using d conn_served_rest [OF rest] rest str polled_world(2) [OF sp] by (simp_all add: http_done_def conn_effect_def conn_rest_def conn_room_def)
    then show "aborts_or (\<lambda>s'. http_done n l c s' \<and> conn_stream sent c s' = conn_stream sent c s \<and> conn_channel (conns s' c) = conn_channel (conns s c))
        (rbind (TcpConnection_handleWrite K tid c sp) (EventLoop_doPendingFunctors ?exec l))"
      using doPendingFunctors_done [of n l c s1 ?exec sent] Inr by auto
  qed
qed

lemma done_session:
  assumes "http_done (length (concat (map event_input evs)) + n) l c s" "callback_quiet sent iter cb"
    and "reports K (http_turn K iter cb tmp alloc tid l) l c evs s"
  shows "aborts_or (\<lambda>s'. http_done n l c s' \<and> conn_stream sent c s' = conn_stream sent c s \<and> conn_channel (conns s' c) = conn_channel (conns s c))
    (res_iter (\<lambda>_. http_turn K iter cb tmp alloc tid l) evs s)"
  using assms(1,3)
proof (induction evs arbitrary: s)
  case Nil
  then show ?case by simp
next
  case (Cons ev evs)
  let ?m = "length (concat (map event_input evs)) + n" and ?turn = "http_turn K iter cb tmp alloc tid l"
  have step: "aborts_or (\<lambda>s'. http_done ?m l c s' \<and> conn_stream sent c s' = conn_stream sent c s \<and> conn_channel (conns s' c) = conn_channel (conns s c)) (?turn s)"
  proof (cases ev)
    case None
    then show ?thesis using Cons.prems done_turn_output [of ?m l c s] by auto
  next
    case (Some xs)
    then show ?thesis using Cons.prems done_turn_input [where xs = xs and n = ?m, OF _ assms(2)] by (auto simp: add.assoc)
  qed
  show ?case
  proof (cases "?turn s")
    case (Inr s1)
    then have "http_done ?m l c s1" "conn_stream sent c s1 = conn_stream sent c s \<and> conn_channel (conns s1 c) = conn_channel (conns s c)" "reports K ?turn l c evs s1"
      using step Cons.prems(2) by simp_all
    with Cons.IH [OF this(1,3)] Inr show ?thesis by simp
  qed (use step in simp)
qed

end

end
