(* ===== verification/Example_Echo.thy ===== *)
theory Example_Echo
  imports Net_Lifecycle Net_ConnState
begin

text \<open>
  The echo server of \<open>example/echoServer.cc\<close>, the smallest user of the library: its callbacks, its
  construction and its main program. \<open>tmp\<close> is the address of the local string \<open>msg\<close>.
\<close>

section \<open>The program\<close>

definition EchoServer_ctor ::
    "'k kernel \<Rightarrow> loop option \<Rightarrow> sockaddr_in \<Rightarrow> bytes \<Rightarrow> chan
      \<Rightarrow> ('k, 'a) server_scheme \<Rightarrow> ('k, 'a) server_scheme res" where
  "EchoServer_ctor K lp addr name ch s =
     rbind (TcpServer_ctor K lp addr name kNoReusePort ch s) (\<lambda>s1.
       Inr (TcpServer_setMessageCallback True (TcpServer_setConnectionCallback True s1)))"

definition EchoServer_start ::
    "'k kernel \<Rightarrow> int \<Rightarrow> (bytes \<Rightarrow> ('k, 'a) server_scheme \<Rightarrow> (loop \<times> ('k, 'a) server_scheme) res)
      \<Rightarrow> ('k, 'a) server_scheme \<Rightarrow> ('k, 'a) server_scheme res" where
  "EchoServer_start K tid startLoop s = TcpServer_start K tid startLoop None s"

text \<open>\<open>onConnection\<close> only logs the peer's address, whose text always fits its array.\<close>

definition EchoServer_onConnection :: "conn \<Rightarrow> ('k, 'a) world_scheme \<Rightarrow> ('k, 'a) world_scheme res" where
  "EchoServer_onConnection c w =
     rbind (InetAddress_toIpPort (conn_peerAddr (conns w c))) (\<lambda>ipPort. Inr w)"

definition EchoServer_onMessage ::
    "'k kernel \<Rightarrow> int \<Rightarrow> nat \<Rightarrow> conn \<Rightarrow> int \<Rightarrow> ('k, 'a) world_scheme \<Rightarrow> ('k, 'a) world_scheme res" where
  "EchoServer_onMessage K tid tmp c time w =
     rbind (Buffer_retrieveAllAsString (conn_inputBuffer (conns w c))) (\<lambda>(msg, buf').
       send_temporary K tid c tmp msg (upd_conn c (\<lambda>cn. cn\<lparr>conn_inputBuffer := buf'\<rparr>) w))"

definition echo_callbacks :: "'k kernel \<Rightarrow> int \<Rightarrow> nat \<Rightarrow> ('k, 'a) server_scheme callbacks" where
  "echo_callbacks K tid tmp = \<lparr>connectionCallback = EchoServer_onConnection, messageCallback = EchoServer_onMessage K tid tmp,
     closeCallback = TcpServer_removeConnection K tid\<rparr>"

interpretation echo_user: server_user K "echo_callbacks K tid tmp" for K tid tmp
  by unfold_locales (auto simp: echo_callbacks_def EchoServer_onConnection_def rbind_eq_Inr_iff)

lemma EchoServer_onMessage_forward: "forward_res w (EchoServer_onMessage K tid tmp c t w)"
  unfolding EchoServer_onMessage_def
  by (rule forward_rbind_value) (auto intro!: forward_from [OF _ send_temporary_forward])

interpretation echo_forward: forward_callbacks "echo_callbacks K tid tmp" for K tid tmp
  by unfold_locales (auto simp: echo_callbacks_def EchoServer_onConnection_def EchoServer_onMessage_forward removeConnection_forward
      intro!: forward_rbind_value)

interpretation echo_quiet: quiet_server ref_kernel rk_interest rk_sent "echo_callbacks ref_kernel tid tmp" for tid tmp
proof unfold_locales
  show "connectionCallback (echo_callbacks ref_kernel tid tmp) c s = Inr s" for c and s :: "(ref_state, 'a) server_scheme"
    using toIpPort_ok [of "conn_peerAddr (conns s c)"] by (auto simp: echo_callbacks_def EchoServer_onConnection_def)
qed

text \<open>
  \<open>main\<close>, with the loop at address 0, its wake-up channel 0 and the acceptor's channel 1; there are
  no other threads, since the thread number is left at zero.
\<close>

definition echo_setup ::
    "'k kernel \<Rightarrow> bool \<Rightarrow> int \<Rightarrow> (bytes \<Rightarrow> ('k, 'a) server_scheme \<Rightarrow> (loop \<times> ('k, 'a) server_scheme) res)
      \<Rightarrow> ('k, 'a) server_scheme \<Rightarrow> ('k, 'a) server_scheme res" where
  "echo_setup K use_poll tid startLoop s =
     rbind (EventLoop_ctor K use_poll tid 0 0 s) (\<lambda>s1.
     rbind (EchoServer_ctor K (Some 0) (InetAddress_ctor 8080 ''127.0.0.1'') ''EchoServer'' 1 s1) (EchoServer_start K tid startLoop))"

definition echo_main ::
    "'k kernel \<Rightarrow> bool \<Rightarrow> int \<Rightarrow> (bytes \<Rightarrow> ('k, 'a) server_scheme \<Rightarrow> (loop \<times> ('k, 'a) server_scheme) res)
      \<Rightarrow> (('k, 'a) server_scheme \<Rightarrow> conn \<times> chan) \<Rightarrow> (conn \<Rightarrow> ('k, 'a) server_scheme \<Rightarrow> bool) \<Rightarrow> nat
      \<Rightarrow> ('k, 'a) server_scheme \<Rightarrow> ('k, 'a) server_scheme res option" where
  "echo_main K use_poll tid startLoop alloc alive tmp s =
     (case echo_setup K use_poll tid startLoop s of
        Inl e \<Rightarrow> Some (Inl e)
      | Inr s3 \<Rightarrow> EventLoop_loop K (Server_call K (echo_callbacks K tid tmp) alloc tid) alive
                  (Server_exec K (echo_callbacks K tid tmp) (\<lambda>c s. Inl BadFunctionCall) (\<lambda>c n s. Inl BadFunctionCall) tid) 0 s3)"


section \<open>Echoing\<close>

context net_kernel
begin

text \<open>A read event that delivers bytes sends the whole input, and consumes it.\<close>

lemma echo_read_run:
  assumes "conn_ready K tid (length (Buffer_abs (conn_inputBuffer (conns w c)) @ xs)) c w"
    and "Buffer_inv (conn_inputBuffer (conns w c))" "conn_hasMessageCallback (conns w c)"
    and "sys_read K (ch_fd (chan_of c w)) (readv_capacity (conn_inputBuffer (conns w c))) (kern w) = (Inr xs, k')" "xs \<noteq> []"
    and "Buffer_size (conn_inputBuffer (conns w c)) + length xs \<le> vector_max_size"
  shows "\<exists>b. Buffer_inv b \<and> Buffer_abs b = [] \<and> Buffer_size b \<le> Buffer_size (conn_inputBuffer (conns w c)) + length xs \<and>
    TcpConnection_handleRead K (echo_callbacks K tid tmp) c t w =
      send_temporary K tid c tmp (Buffer_abs (conn_inputBuffer (conns w c)) @ xs) (with_input c b (w\<lparr>kern := k'\<rparr>))"
proof -
  let ?b = "conn_inputBuffer (conns w c)" and ?xs = "Buffer_abs (conn_inputBuffer (conns w c)) @ xs"
  have "length xs \<le> readv_capacity ?b" by (rule read_ok [OF assms(4)])
  from Buffer_readFd_ok [OF assms(2) this assms(6)] obtain b' where
    b': "Buffer_readFd (Inr xs) ?b = Inr (int (length xs), None, b')" "Buffer_inv b'" "Buffer_abs b' = ?xs"
    "Buffer_size b' \<le> Buffer_size ?b + length xs" by metis
  have "int (length (Buffer_abs b')) \<le> INT_MAX"
    using assms(1) b'(3) by (simp add: conn_ready_def conn_room_def Buffer_chunk_def InitialPrependSize_def limit_defs)
  note all = Buffer_retrieveAllAsString_ok [OF b'(2) this]
  have "TcpConnection_handleRead K (echo_callbacks K tid tmp) c t w =
      send_temporary K tid c tmp ?xs (with_input c (Buffer_retrieveAll b') (w\<lparr>kern := k'\<rparr>))"
    using assms(3,4,5) b' all
    by (simp add: TcpConnection_handleRead_def Let_def call_message_def echo_callbacks_def EchoServer_onMessage_def)
  moreover have "Buffer_inv (Buffer_retrieveAll b')" "Buffer_abs (Buffer_retrieveAll b') = []"
    "Buffer_size (Buffer_retrieveAll b') \<le> Buffer_size ?b + length xs"
    using b'(2,4) by simp_all
  ultimately show ?thesis by blast
qed

text \<open>What a read event does: the whole input goes back out, and nothing but the buffers of the connection changes.\<close>

lemma echo_read:
  assumes "conn_ready K tid (length (Buffer_abs (conn_inputBuffer (conns w c)) @ xs)) c w"
    and "Buffer_inv (conn_inputBuffer (conns w c))" "conn_hasMessageCallback (conns w c)"
    and "sys_read K (ch_fd (chan_of c w)) (readv_capacity (conn_inputBuffer (conns w c))) (kern w) = (Inr xs, k')" "xs \<noteq> []"
    and "Buffer_size (conn_inputBuffer (conns w c)) + length xs \<le> vector_max_size"
  shows "\<exists>b w1. Buffer_inv b \<and> Buffer_abs b = [] \<and> Buffer_size b \<le> Buffer_size (conn_inputBuffer (conns w c)) + length xs \<and>
    w1 = with_input c b (w\<lparr>kern := k'\<rparr>) \<and> conn_stream sent c w1 = conn_stream sent c w \<and>
    TcpConnection_handleRead K (echo_callbacks K tid tmp) c t w =
      send_temporary K tid c tmp (Buffer_abs (conn_inputBuffer (conns w c)) @ xs) w1 \<and>
    aborts_or (\<lambda>w'. conn_effect sent c (length (Buffer_abs (conn_inputBuffer (conns w c)) @ xs))
        (Buffer_abs (conn_inputBuffer (conns w c)) @ xs) w1 w' \<and> conn_rest c w1 w')
      (TcpConnection_handleRead K (echo_callbacks K tid tmp) c t w)"
proof -
  let ?xs = "Buffer_abs (conn_inputBuffer (conns w c)) @ xs"
  obtain b where b: "Buffer_inv b" "Buffer_abs b = []" "Buffer_size b \<le> Buffer_size (conn_inputBuffer (conns w c)) + length xs"
    "TcpConnection_handleRead K (echo_callbacks K tid tmp) c t w = send_temporary K tid c tmp ?xs (with_input c b (w\<lparr>kern := k'\<rparr>))"
    using echo_read_run [OF assms] by blast
  let ?w = "with_input c b (w\<lparr>kern := k'\<rparr>)"
  have "sent k' = sent (kern w)" by (rule read_frame [OF assms(4)])
  then have str: "conn_stream sent c ?w = conn_stream sent c w" by (simp add: conn_stream_def)
  have "conn_ready K tid (length ?xs) c ?w"
    using assms(1) by (simp add: conn_ready_def conn_ok_def conn_room_def)
  from send_temporary_ready [OF this, of tmp] have
    "aborts_or (\<lambda>w'. conn_effect sent c (length ?xs) ?xs ?w w' \<and> conn_rest c ?w w') (TcpConnection_handleRead K (echo_callbacks K tid tmp) c t w)"
    unfolding b(4) by (auto simp: aborts_or_def split: sum.splits)
  with b str show ?thesis by blast
qed

end


section \<open>Properties\<close>

text \<open>
  The echo server echoes. A read event that delivers bytes (with a message callback registered)
  adds exactly the unread bytes of the input buffer followed by the delivered bytes to what the peer is sent, in
  order, and leaves the input buffer empty and the connection open. The only failure is the abort of a refused
  \<open>epoll_ctl\<close>.
\<close>

theorem EchoServer_echoes:
  assumes "net_kernel K interest sent" "conn_ready K tid (length (Buffer_abs (conn_inputBuffer (conns w c)) @ xs)) c w"
    and "Buffer_inv (conn_inputBuffer (conns w c))" "conn_hasMessageCallback (conns w c)"
    and "sys_read K (ch_fd (chan_of c w)) (readv_capacity (conn_inputBuffer (conns w c))) (kern w) = (Inr xs, k')" "xs \<noteq> []"
    and "Buffer_size (conn_inputBuffer (conns w c)) + length xs \<le> vector_max_size"
  shows "case TcpConnection_handleRead K (echo_callbacks K tid tmp) c t w of Inl e \<Rightarrow> e = Aborted
    | Inr w' \<Rightarrow> conn_stream sent c w' = conn_stream sent c w @ Buffer_abs (conn_inputBuffer (conns w c)) @ xs \<and>
        Buffer_abs (conn_inputBuffer (conns w' c)) = [] \<and> conn_state (conns w' c) = kConnected"
proof -
  obtain w1 where w1: "conn_stream sent c w1 = conn_stream sent c w" "Buffer_abs (conn_inputBuffer (conns w1 c)) = []"
      "conn_state (conns w1 c) = conn_state (conns w c)"
    "aborts_or (\<lambda>w'. conn_effect sent c (length (Buffer_abs (conn_inputBuffer (conns w c)) @ xs))
        (Buffer_abs (conn_inputBuffer (conns w c)) @ xs) w1 w' \<and> conn_rest c w1 w')
      (TcpConnection_handleRead K (echo_callbacks K tid tmp) c t w)"
    using net_kernel.echo_read [OF assms(1-7), of tmp t] by fastforce
  moreover have "conn_state (conns w c) = kConnected" using assms(2) by (simp add: conn_ready_def)
  ultimately show ?thesis
    by (auto simp: aborts_or_def conn_effect_def conn_rest_def split: sum.splits)
qed

definition sample_delivery :: "ref_state server" where
  "sample_delivery = sample_blank\<lparr>kern := (kern sample_blank)\<lparr>rk_delivers := [''ping'']\<rparr>\<rparr>"

lemmas sample_delivery_defs = sample_delivery_def sample_blank_def sample_defs

theorem EchoServer_echoes_witness:
  "case TcpConnection_handleRead ref_kernel (echo_callbacks ref_kernel 100 3) 1 5 sample_delivery of Inl e \<Rightarrow> e = Aborted
    | Inr w' \<Rightarrow> conn_stream rk_sent 1 w' = conn_stream rk_sent 1 sample_delivery @
          Buffer_abs (conn_inputBuffer (conns sample_delivery 1)) @ ''ping'' \<and>
        Buffer_abs (conn_inputBuffer (conns w' 1)) = [] \<and> conn_state (conns w' 1) = kConnected"
proof (rule EchoServer_echoes [OF rk.net_kernel_axioms])
  show "sys_read ref_kernel (ch_fd (chan_of 1 sample_delivery)) (readv_capacity (conn_inputBuffer (conns sample_delivery 1)))
      (kern sample_delivery) = (Inr ''ping'', (kern sample_delivery)\<lparr>rk_delivers := []\<rparr>)"
    by (simp add: sample_delivery_defs ref_defs readv_capacity_def Let_def extrabuf_size_def)
  show "conn_ready ref_kernel 100 (length (Buffer_abs (conn_inputBuffer (conns sample_delivery 1)) @ ''ping'')) 1 sample_delivery"
    by (auto simp: conn_ready_def sample_delivery_defs conn_ok_def conn_room_def link_up_def ref_defs
        Buffer_chunk_def limit_defs InitialPrependSize_def EWOULDBLOCK_def EPIPE_def ECONNRESET_def split: list.splits)
qed (simp_all add: sample_delivery_defs limit_defs)

end
