(* ===== verification/Net_Isolation.thy ===== *)
theory Net_Isolation
  imports Net_TcpConnection
begin

text \<open>
  Several connections in one program: what happens on one connection does not touch another. Each operation of a
  connection is shown to leave the view of every other connection alone; then the events of
  many connections may be interleaved in any order.
\<close>

section \<open>The view of another connection\<close>

text \<open>Two connections that use different channels and descriptors, and no eventfd of each other's loop.\<close>

definition conns_apart :: "conn \<Rightarrow> conn \<Rightarrow> ('k, 'a) world_scheme \<Rightarrow> bool" where
  "conns_apart c d w \<longleftrightarrow> c \<noteq> d \<and> conn_channel (conns w c) \<noteq> conn_channel (conns w d) \<and>
     ch_fd (chan_of c w) \<noteq> ch_fd (chan_of d w) \<and> ch_fd (chan_of d w) \<noteq> wakeupFd (loops w (conn_loop (conns w c)))"

text \<open>
  A step of connection \<open>c\<close> that connection \<open>d\<close> does not see: the object, the channel and the bytes sent on the descriptor of
  \<open>d\<close> are unchanged, and \<open>c\<close> stays on its channel, descriptor and loop.
\<close>

definition aside :: "('k \<Rightarrow> fd \<Rightarrow> bytes) \<Rightarrow> conn \<Rightarrow> conn \<Rightarrow> ('k, 'a) world_scheme \<Rightarrow> ('k, 'a) world_scheme \<Rightarrow> bool" where
  "aside sent c d w w' \<longleftrightarrow> conns w' d = conns w d \<and>
     chans w' (conn_channel (conns w d)) = chans w (conn_channel (conns w d)) \<and>
     sent (kern w') (ch_fd (chan_of d w)) = sent (kern w) (ch_fd (chan_of d w)) \<and>
     (\<forall>l. wakeupFd (loops w' l) = wakeupFd (loops w l)) \<and>
     conn_channel (conns w' c) = conn_channel (conns w c) \<and> conn_loop (conns w' c) = conn_loop (conns w c) \<and>
     ch_fd (chans w' (conn_channel (conns w c))) = ch_fd (chan_of c w)"

lemma aside_refl [simp]: "aside sent c d w w"
  by (simp add: aside_def)

lemma aside_trans: "aside sent c d u v \<Longrightarrow> aside sent c d v w \<Longrightarrow> aside sent c d u w"
  by (simp add: aside_def)

lemma aside_apart: "aside sent c d w w' \<Longrightarrow> conns_apart c d w' = conns_apart c d w"
  by (simp add: aside_def conns_apart_def)

lemma aside_stream: "aside sent c d w w' \<Longrightarrow> conn_stream sent d w' = conn_stream sent d w"
  by (simp add: aside_def conn_stream_def)

lemma aside_ok: "aside sent c d w w' \<Longrightarrow> conn_ok d w' = conn_ok d w"
  by (simp add: aside_def conn_ok_def)

lemma aside_output: "d \<noteq> c \<Longrightarrow> aside sent c d w (upd_conn c (\<lambda>cn. cn\<lparr>conn_outputBuffer := b\<rparr>) w)"
  by (simp add: aside_def)

lemma aside_log [simp]: "aside sent c d w (log_error m v) = aside sent c d w v"
  by (simp add: aside_def)

lemma Channel_update_other: "Channel_update K ch w = Inr w' \<Longrightarrow> d \<noteq> ch \<Longrightarrow> chans w' d = chans w d"
  by (auto simp: Channel_update_def EventLoop_updateChannel_def EpollPoller_updateChannel_def
      Let_def rbind_eq_Inr_iff elim!: EpollPoller_update_cases split: if_splits)

context net_kernel
begin

lemma aside_queueInLoop:
  "conns_apart c d w \<Longrightarrow> aside sent c d w (EventLoop_queueInLoop K tid (conn_loop (conns w c)) F w)"
  by (simp add: aside_def conns_apart_def queueInLoop_sent)

lemma aside_set_events:
  assumes "Channel_update K (conn_channel (conns w c)) (upd_chan (conn_channel (conns w c)) (\<lambda>ch. ch\<lparr>ch_events := ev\<rparr>) w) = Inr w'"
    and "conns_apart c d w"
  shows "aside sent c d w w'"
  using Channel_update_frame [OF assms(1)] Channel_update_other [OF assms(1), of "conn_channel (conns w d)"]
    Channel_update_sent [OF assms(1)] assms(2)
  by (auto simp: aside_def conns_apart_def chan_same_def)

lemma aside_write:
  assumes "sys_write K (ch_fd (chan_of c w)) data (kern w) = (out, k')" "conns_apart c d w"
  shows "aside sent c d w (w\<lparr>kern := k'\<rparr>)"
  using write_other [OF assms(1), of "ch_fd (chan_of d w)"] assms(2) by (auto simp: aside_def conns_apart_def)

lemma aside_sendInLoop_write:
  assumes "sendInLoop_write K tid c data w = (n, r, f, w1)" "conns_apart c d w"
  shows "aside sent c d w w1"
proof -
  obtain out k' where out: "sys_write K (ch_fd (chan_of c w)) data (kern w) = (out, k')" by fastforce
  note wr = aside_write [OF this assms(2)]
  have "conns_apart c d (w\<lparr>kern := k'\<rparr>)" using aside_apart [OF wr] assms(2) by simp
  note queued = aside_trans [OF wr aside_queueInLoop [OF this, of tid "F_writeComplete c"]]
  show ?thesis
    using assms(1) out wr queued by (auto simp: sendInLoop_write_def Let_def split: if_splits sum.splits)
qed

lemma aside_sendInLoop_store:
  assumes "sendInLoop_store K tid c rest w = Inr w'" "conns_apart c d w"
  shows "aside sent c d w w'"
proof -
  define w1 where "w1 = sendInLoop_mark K tid c (length rest) w"
  have w1: "aside sent c d w w1" using aside_queueInLoop [OF assms(2)] by (simp add: w1_def sendInLoop_mark_def Let_def)
  obtain b where b: "Buffer_append rest (conn_outputBuffer (conns w1 c)) = Inr b"
    using assms(1) by (auto simp: sendInLoop_store_def Let_def rbind_eq_Inr_iff w1_def)
  define w2 where "w2 = upd_conn c (\<lambda>cn. cn\<lparr>conn_outputBuffer := b\<rparr>) w1"
  have w2: "aside sent c d w w2" using aside_trans [OF w1 aside_output] assms(2) by (auto simp: w2_def conns_apart_def)
  have "(if \<not> Channel_isWriting (chan_of c w2) then Channel_enableWriting K (conn_channel (conns w2 c)) w2 else Inr w2) = Inr w'"
    using assms(1) by (simp only: sendInLoop_store_def Let_def w1_def [symmetric] b rbind_Inr w2_def [symmetric])
  moreover have "aside sent c d w2 w'" if "Channel_enableWriting K (conn_channel (conns w2 c)) w2 = Inr w'"
    using aside_set_events [OF that [unfolded Channel_enableWriting_def]] aside_apart [OF w2] assms(2) by simp
  ultimately show ?thesis using w2 by (auto intro: aside_trans split: if_splits)
qed

lemma aside_sendInLoop:
  assumes "TcpConnection_sendInLoop K tid c data w = Inr w'" "conns_apart c d w"
  shows "aside sent c d w w'"
proof -
  obtain n r f w1 where wr: "sendInLoop_write K tid c data w = (n, r, f, w1)" by (metis prod.exhaust)
  note w1 = aside_sendInLoop_write [OF this assms(2)]
  have "aside sent c d w1 w'" if "sendInLoop_store K tid c rest w1 = Inr w'" for rest
    using aside_sendInLoop_store [OF that] aside_apart [OF w1] assms(2) by simp
  then show ?thesis
    using assms(1) wr w1 by (auto simp: TcpConnection_sendInLoop_def intro: aside_trans split: if_splits)
qed

lemma aside_shutdownInLoop:
  "TcpConnection_shutdownInLoop K c w = Inr w' \<Longrightarrow> aside sent c d w w'"
  using shutdownInLoop_frame [where c = c and w = w] by (auto simp: aside_def)

lemma aside_handleWrite_done:
  assumes "handleWrite_done K tid c w = Inr w'" "conns_apart c d w"
  shows "aside sent c d w w'"
proof -
  obtain w2 where w2: "Channel_disableWriting K (conn_channel (conns w c)) w = Inr w2"
    using assms(1) by (auto simp: handleWrite_done_def rbind_eq_Inr_iff)
  note s2 = aside_set_events [OF w2 [unfolded Channel_disableWriting_def] assms(2)]
  let ?w3 = "if conn_hasWriteCompleteCallback (conns w2 c)
      then EventLoop_queueInLoop K tid (conn_loop (conns w2 c)) (F_writeComplete c) w2 else w2"
  have "aside sent c d w2 ?w3" using aside_queueInLoop [of c d w2] aside_apart [OF s2] assms(2) by simp
  note s3 = aside_trans [OF s2 this]
  have "(if conn_state (conns ?w3 c) = kDisconnecting then TcpConnection_shutdownInLoop K c ?w3 else Inr ?w3) = Inr w'"
    using assms(1) w2 by (simp add: handleWrite_done_def Let_def)
  then show ?thesis using s3 aside_shutdownInLoop [of c ?w3 w' d] by (auto intro: aside_trans split: if_splits)
qed

lemma aside_handleWrite:
  assumes "TcpConnection_handleWrite K tid c w = Inr w'" "conns_apart c d w"
  shows "aside sent c d w w'"
proof (cases "Channel_isWriting (chan_of c w)")
  case False
  then show ?thesis using assms(1) by (auto simp: TcpConnection_handleWrite_def)
next
  case True
  let ?b = "conn_outputBuffer (conns w c)"
  obtain s where s: "string_at ?b (Buffer_peek ?b) (Buffer_readableBytes ?b) = Inr s"
    using assms(1) True by (auto simp: TcpConnection_handleWrite_def Let_def rbind_eq_Inr_iff)
  obtain out k' where out: "sys_write K (ch_fd (chan_of c w)) s (kern w) = (out, k')" by fastforce
  then obtain n sv taken where "Buffer_writeFd out ?b = Inr (n, sv, taken)"
    using assms(1) True s by (auto simp: TcpConnection_handleWrite_def Let_def rbind_eq_Inr_iff)
  note run = s out this
  let ?w1 = "upd_conn c (\<lambda>cn. cn\<lparr>conn_outputBuffer := Buffer_retrieve (int32 n) ?b\<rparr>) (w\<lparr>kern := k'\<rparr>)"
  note w0 = aside_write [OF run(2) assms(2)]
  have w1: "aside sent c d w ?w1"
    using aside_trans [OF w0 aside_output [of d c sent "w\<lparr>kern := k'\<rparr>"]] assms(2) by (simp add: conns_apart_def)
  have "aside sent c d ?w1 w'" if "handleWrite_done K tid c ?w1 = Inr w'"
    using aside_handleWrite_done [OF that] aside_apart [OF w1] assms(2) by simp
  then show ?thesis
    using assms(1) True run w0 w1
    by (auto simp: TcpConnection_handleWrite_def Let_def intro: aside_trans split: if_splits)
qed

lemma aside_conn_handle:
  "conn_handle K tid c ev w = Inr w' \<Longrightarrow> conns_apart c d w \<Longrightarrow> aside sent c d w w'"
  by (cases ev) (auto intro: aside_sendInLoop aside_handleWrite aside_shutdownInLoop)

end

section \<open>Interleaved events\<close>

text \<open>Events of several connections, in the order in which they happen; what the sends of one of them took over.\<close>

fun mux_taken ::
    "'k kernel \<Rightarrow> int \<Rightarrow> conn \<Rightarrow> (conn \<times> conn_event) list \<Rightarrow> ('k, 'a) world_scheme \<Rightarrow> bytes" where
  "mux_taken K tid d [] w = []"
| "mux_taken K tid d (ce # ces) w = (if fst ce = d then event_taken K tid d (snd ce) w else []) @
     (case conn_handle K tid (fst ce) (snd ce) w of Inl e \<Rightarrow> [] | Inr w' \<Rightarrow> mux_taken K tid d ces w')"

definition mux_bytes :: "conn \<Rightarrow> (conn \<times> conn_event) list \<Rightarrow> nat" where
  "mux_bytes d ces = sum_list (map (\<lambda>ce. if fst ce = d then event_bytes (snd ce) else 0) ces)"

definition mux_ready :: "conn set \<Rightarrow> (conn \<times> conn_event) list \<Rightarrow> ('k, 'a) world_scheme \<Rightarrow> bool" where
  "mux_ready C ces w \<longleftrightarrow> (\<forall>d\<in>C. conn_ok d w \<and> conn_room (mux_bytes d ces) d w) \<and>
     (\<forall>c\<in>C. \<forall>d\<in>C. c \<noteq> d \<longrightarrow> conns_apart c d w)"

lemma aside_apart_self:
  assumes "aside sent c d w w'" "conns_apart d c w"
  shows "conns_apart d c w'"
  using assms by (simp add: aside_def conns_apart_def)

lemma aside_apart_others:
  assumes "aside sent c d w w'" "aside sent c e w w'" "conns_apart d e w"
  shows "conns_apart d e w'"
  using assms by (simp add: aside_def conns_apart_def)

context net_kernel
begin

lemma mux_step:
  assumes ready: "mux_ready C ((c, ev) # ces) w" and c: "c \<in> C" and step: "conn_handle K tid c ev w = Inr w'"
  shows "mux_ready C ces w'" "conn_stream sent c w' = conn_stream sent c w @ event_taken K tid c ev w"
    "\<And>d. d \<in> C \<Longrightarrow> d \<noteq> c \<Longrightarrow> conn_stream sent d w' = conn_stream sent d w"
proof -
  have apart: "conns_apart c d w" if "d \<in> C" "d \<noteq> c" for d using ready c that by (auto simp: mux_ready_def)
  have side: "aside sent c d w w'" if "d \<in> C" "d \<noteq> c" for d using aside_conn_handle [OF step apart [OF that]] .
  show "\<And>d. d \<in> C \<Longrightarrow> d \<noteq> c \<Longrightarrow> conn_stream sent d w' = conn_stream sent d w" using side aside_stream by blast
  have room: "conn_ok c w" "conn_room (event_bytes ev) c w"
    using ready c by (auto simp: mux_ready_def mux_bytes_def conn_room_def)
  have eff: "conn_effect sent c (event_bytes ev) (event_taken K tid c ev w) w w'"
    using conn_handle_effect [OF room, of tid] step by simp
  then show "conn_stream sent c w' = conn_stream sent c w @ event_taken K tid c ev w" by (simp add: conn_effect_def)
  have "conn_ok d w' \<and> conn_room (mux_bytes d ces) d w'" if d: "d \<in> C" for d
  proof (cases "d = c")
    case True
    then show ?thesis using eff ready c by (auto simp: conn_effect_def conn_room_def mux_ready_def mux_bytes_def)
  next
    case False
    then show ?thesis
      using side [OF d False] aside_ok [OF side [OF d False]] ready d by (auto simp: mux_ready_def mux_bytes_def conn_room_def aside_def)
  qed
  moreover have "conns_apart d e w'" if "d \<in> C" "e \<in> C" "d \<noteq> e" for d e
  proof -
    have de: "conns_apart d e w" using ready that by (simp add: mux_ready_def)
    consider "d = c" | "e = c" | "d \<noteq> c" "e \<noteq> c" by blast
    then show ?thesis
    proof cases
      case 1
      then show ?thesis using aside_apart [OF side [OF that(2)]] de that(3) by auto
    next
      case 2
      then show ?thesis using aside_apart_self [OF side [OF that(1)]] de that(3) by auto
    next
      case 3
      then show ?thesis using aside_apart_others [OF side [OF that(1)] side [OF that(2)] de] by blast
    qed
  qed
  ultimately show "mux_ready C ces w'" by (simp add: mux_ready_def)
qed

lemma mux_streams:
  assumes "mux_ready C ces w" "fst ` set ces \<subseteq> C"
  shows "aborts_or (\<lambda>w'. \<forall>d\<in>C. conn_ok d w' \<and> conn_stream sent d w' = conn_stream sent d w @ mux_taken K tid d ces w)
    (res_iter (\<lambda>(c, ev). conn_handle K tid c ev) ces w)"
  using assms
proof (induction ces arbitrary: w)
  case Nil
  then show ?case by (auto simp: mux_ready_def)
next
  case (Cons ce ces)
  obtain c ev where ce: "ce = (c, ev)" by fastforce
  then have c: "c \<in> C" using Cons.prems(2) by simp
  show ?case
  proof (cases "conn_handle K tid c ev w")
    case (Inl e)
    have "conn_ok c w" "conn_room (event_bytes ev) c w"
      using Cons.prems(1) c ce by (auto simp: mux_ready_def mux_bytes_def conn_room_def)
    from conn_handle_effect [OF this, of tid] Inl ce show ?thesis by simp
  next
    case (Inr w1)
    note step = mux_step [OF Cons.prems(1) [unfolded ce] c Inr]
    have "aborts_or (\<lambda>w'. \<forall>d\<in>C. conn_ok d w' \<and> conn_stream sent d w' = conn_stream sent d w1 @ mux_taken K tid d ces w1)
        (res_iter (\<lambda>(c, ev). conn_handle K tid c ev) ces w1)"
      using Cons.IH [OF step(1)] Cons.prems(2) by simp
    then show ?thesis using step(2,3) Inr ce by (auto elim!: aborts_or_mono)
  qed
qed

end


section \<open>Properties\<close>

text \<open>
  C15. Connections do not interfere. Take any number of connections with different channels and
  descriptors, and any interleaving of sends, write events and shutdown requests on them. Then
  for each connection the bytes the kernel has accepted followed by its output buffer are exactly what that connection's own sends took over, in
  order: no byte of one connection reaches another, whatever the others do and however many bytes the kernel accepts in
  each call. The only failure is the abort of a refused \<open>epoll_ctl\<close>.
\<close>

theorem TcpConnection_streams_independent:
  assumes "net_kernel K interest sent" "mux_ready C ces w" "fst ` set ces \<subseteq> C"
  shows "aborts_or (\<lambda>w'. \<forall>d\<in>C. conn_ok d w' \<and> conn_stream sent d w' = conn_stream sent d w @ mux_taken K tid d ces w)
    (res_iter (\<lambda>(c, ev). conn_handle K tid c ev) ces w)"
  by (rule net_kernel.mux_streams [OF assms])

definition sample_pair :: "ref_state world" where
  "sample_pair = sample_world\<lparr>chans := (chans sample_world)(2 := sample_chan\<lparr>ch_fd := 8, ch_tie := Some 2\<rparr>),
     conns := (conns sample_world)(2 := sample_conn\<lparr>conn_channel := 2, conn_sockfd := 8\<rparr>)\<rparr>"

theorem TcpConnection_streams_independent_witness:
  "aborts_or (\<lambda>w'. \<forall>d\<in>{1, 2}. conn_ok d w' \<and> conn_stream rk_sent d w' = conn_stream rk_sent d sample_pair @
       mux_taken ref_kernel 100 d [(1, EvSend ''abc''), (2, EvSend ''de''), (1, EvWritable)] sample_pair)
    (res_iter (\<lambda>(c, ev). conn_handle ref_kernel 100 c ev) [(1, EvSend ''abc''), (2, EvSend ''de''), (1, EvWritable)] sample_pair)"
  by (rule TcpConnection_streams_independent [OF rk.net_kernel_axioms])
    (auto simp: mux_ready_def sample_pair_def sample_defs conn_ok_def conn_room_def conns_apart_def mux_bytes_def
      Buffer_chunk_def limit_defs InitialPrependSize_def)

end
