(* ===== verification/Example_Multiplex.thy ===== *)
theory Example_Multiplex
  imports Example_Echo Net_Drain Net_Isolation
begin

text \<open>
  The echo server with many peers: turns of the loop in which the kernel reports events of several connections at
  once. The active channels are handled one after the other, and what is shown is that the handling of one does not
  disturb the others.
\<close>

section \<open>Turns\<close>

text \<open>One turn of the loop of the echo server.\<close>

definition echo_turn ::
    "'k kernel \<Rightarrow> int \<Rightarrow> nat \<Rightarrow> (('k, 'a) server_scheme \<Rightarrow> conn \<times> chan) \<Rightarrow> loop
      \<Rightarrow> ('k, 'a) server_scheme \<Rightarrow> ('k, 'a) server_scheme res" where
  "echo_turn K tid tmp alloc l =
     EventLoop_turn K (Server_call K (echo_callbacks K tid tmp) alloc tid) conn_held
       (Server_exec K (echo_callbacks K tid tmp) (\<lambda>c s. Inl BadFunctionCall) (\<lambda>c n s. Inl BadFunctionCall) tid) l"

text \<open>The state between two turns, with room for \<open>n\<close> more bytes.\<close>

definition echo_idle :: "'k kernel \<Rightarrow> int \<Rightarrow> nat \<Rightarrow> loop \<Rightarrow> conn \<Rightarrow> ('k, 'a) server_scheme \<Rightarrow> bool" where
  "echo_idle K tid n l c s \<longleftrightarrow> conn_served l c s \<and> conn_ready K tid n c s \<and> Buffer_inv (conn_inputBuffer (conns s c)) \<and>
     Buffer_abs (conn_inputBuffer (conns s c)) = [] \<and> Buffer_size (conn_inputBuffer (conns s c)) + n \<le> vector_max_size"

lemma doPendingFunctors_idle:
  assumes "echo_idle K tid n l c s"
  shows "\<exists>s'. EventLoop_doPendingFunctors exec l s = Inr s' \<and> echo_idle K tid n l c s' \<and> conn_stream sent c s' = conn_stream sent c s \<and>
    conns s' = conns s"
  using assms doPendingFunctors_served [of l c s exec sent] by (auto simp: echo_idle_def)

text \<open>
  What the handling of one connection leaves alone for all others: the server's members, the threads, the functor
  queues, and of every channel what dispatch looks at.
\<close>

definition bystander :: "('k \<Rightarrow> fd \<Rightarrow> bytes) \<Rightarrow> conn \<Rightarrow> ('k, 'a) server_scheme \<Rightarrow> ('k, 'a) server_scheme \<Rightarrow> bool" where
  "bystander sent c s s' \<longleftrightarrow> world.more s' = world.more s \<and>
     (\<forall>l. threadId (loops s' l) = threadId (loops s l) \<and> pendingFunctors (loops s' l) = pendingFunctors (loops s l)) \<and>
     (\<forall>d. ch_revents (chans s' d) = ch_revents (chans s d) \<and> ch_fd (chans s' d) = ch_fd (chans s d)) \<and>
     (\<forall>d. conns_apart c d s \<longrightarrow> aside sent c d s s')"

lemma bystander_idle:
  assumes "bystander sent c s s'" "conns_apart c d s" "echo_idle K tid n l d s"
  shows "echo_idle K tid n l d s'" "conn_stream sent d s' = conn_stream sent d s"
    "conn_channel (conns s' d) = conn_channel (conns s d)"
proof -
  have side: "aside sent c d s s'" using assms(1,2) by (simp add: bystander_def)
  have more: "world.more s' = world.more s" using assms(1) by (simp add: bystander_def)
  have "conns s' d = conns s d" "chan_of d s' = chan_of d s" using side by (simp_all add: aside_def)
  then show "echo_idle K tid n l d s'"
    using assms more_server_fields(1) [OF more] aside_ok [OF side]
    by (simp add: echo_idle_def conn_served_def conn_ready_def conn_room_def bystander_def)
  show "conn_stream sent d s' = conn_stream sent d s" by (rule aside_stream [OF side])
  show "conn_channel (conns s' d) = conn_channel (conns s d)" using side by (simp add: aside_def)
qed

section \<open>Handling one event\<close>

text \<open>What the active channel \<open>ch\<close> is made to do in a turn that began at time \<open>now\<close>.\<close>

definition echo_handle ::
    "'k kernel \<Rightarrow> int \<Rightarrow> nat \<Rightarrow> (('k, 'a) server_scheme \<Rightarrow> conn \<times> chan) \<Rightarrow> int \<Rightarrow> chan
      \<Rightarrow> ('k, 'a) server_scheme \<Rightarrow> ('k, 'a) server_scheme res" where
  "echo_handle K tid tmp alloc now ch =
     Channel_handleEvent (Server_call K (echo_callbacks K tid tmp) alloc tid now) conn_held ch"

definition event_mask :: "bytes option \<Rightarrow> 32 word" where
  "event_mask ev = (case ev of None \<Rightarrow> EPOLLOUT | Some xs \<Rightarrow> EPOLLIN)"

text \<open>When an input event is handled, the kernel delivers its bytes.\<close>

definition arrives :: "'k kernel \<Rightarrow> conn \<Rightarrow> bytes option \<Rightarrow> ('k, 'a) world_scheme \<Rightarrow> bool" where
  "arrives K c ev s \<longleftrightarrow> (case ev of None \<Rightarrow> True
     | Some xs \<Rightarrow> xs \<noteq> [] \<and> (\<exists>k'. sys_read K (ch_fd (chan_of c s)) (readv_capacity (conn_inputBuffer (conns s c))) (kern s) = (Inr xs, k')))"

lemma server_callbacks_echo [simp]: "server_callbacks K tid (echo_callbacks K tid tmp) = echo_callbacks K tid tmp"
  by (simp add: server_callbacks_def echo_callbacks_def)

lemma conn_rest_revents: "conn_rest c w w' \<Longrightarrow> ch_revents (chans w' d) = ch_revents (chans w d)"
  by (simp add: conn_rest_def)

lemma echo_handle_input:
  assumes "conn_served l c s" "ch_revents (chan_of c s) = EPOLLIN"
    and "\<And>s'. TcpConnection_handleRead K (echo_callbacks K tid tmp) c now s = Inr s' \<Longrightarrow> ch_revents (chans s' (conn_channel (conns s c))) = EPOLLIN"
  shows "echo_handle K tid tmp alloc now (conn_channel (conns s c)) s = TcpConnection_handleRead K (echo_callbacks K tid tmp) c now s"
  using handleEvent_open [OF conn_served_open [OF assms(1)], of "Server_call K (echo_callbacks K tid tmp) alloc tid now"]
    handleEventWithGuard_input [where call = "Server_call K (echo_callbacks K tid tmp) alloc tid now"
      and ch = "conn_channel (conns s c)" and w = s and h = "H_TcpConnection_handleRead c"] assms
  by (simp add: echo_handle_def conn_served_def)

lemma echo_handle_output:
  assumes "conn_served l c s" "ch_revents (chan_of c s) = EPOLLOUT"
  shows "echo_handle K tid tmp alloc now (conn_channel (conns s c)) s = TcpConnection_handleWrite K tid c s"
  using handleEvent_open [OF conn_served_open [OF assms(1)], of "Server_call K (echo_callbacks K tid tmp) alloc tid now"]
    handleEventWithGuard_output [where call = "Server_call K (echo_callbacks K tid tmp) alloc tid now"
      and ch = "conn_channel (conns s c)" and w = s and h = "H_TcpConnection_handleWrite c"] assms
  by (simp add: echo_handle_def conn_served_def)

context net_kernel
begin

lemma aside_send_temporary:
  assumes "send_temporary K tid c p xs w = Inr w'" "conn_ready K tid (length xs) c w" "conns_apart c d w"
  shows "aside sent c d w w'"
proof -
  let ?w = "w\<lparr>strings := (strings w)(p \<mapsto> xs)\<rparr>"
  have "TcpConnection_send K tid c p ?w = TcpConnection_sendInLoop K tid c xs ?w"
    using assms(2) by (simp add: TcpConnection_send_def EventLoop_runInLoop_def EventLoop_isInLoopThread_def
        conn_ready_def sendInLoop_ptr_def)
  then obtain w1 where w1: "TcpConnection_sendInLoop K tid c xs ?w = Inr w1" "w' = w1\<lparr>strings := (strings w1)(p := None)\<rparr>"
    using assms(1) by (auto simp: send_temporary_def rbind_eq_Inr_iff)
  have "conns_apart c d ?w" using assms(3) by (simp add: conns_apart_def)
  from aside_sendInLoop [OF w1(1) this] show ?thesis by (simp add: aside_def w1(2))
qed

lemma aside_delivery:
  assumes "sys_read K f n (kern w) = (out, k')" "conns_apart c d w"
  shows "aside sent c d w (with_input c b (w\<lparr>kern := k'\<rparr>))"
  using read_frame [OF assms(1)] assms(2) by (auto simp: aside_def conns_apart_def)

end

lemma bystander_rest:
  assumes "conn_rest c s s'" "conn_served l c s" "\<And>d. conns_apart c d s \<Longrightarrow> aside sent c d s s'"
  shows "bystander sent c s s'"
  using assms by (simp add: bystander_def conn_rest_def conn_served_def)

lemma bystander_trans: "bystander sent c u v \<Longrightarrow> bystander sent c v w \<Longrightarrow> bystander sent c u w"
  unfolding bystander_def using aside_trans aside_apart by metis

context net_kernel
begin

lemma echo_step_input:
  assumes "echo_idle K tid (length xs + n) l c s" "ch_revents (chan_of c s) = EPOLLIN" "arrives K c (Some xs) s"
  shows "aborts_or (\<lambda>s'. echo_idle K tid n l c s' \<and> conn_stream sent c s' = conn_stream sent c s @ xs \<and>
      conn_channel (conns s' c) = conn_channel (conns s c) \<and> bystander sent c s s')
    (echo_handle K tid tmp alloc now (conn_channel (conns s c)) s)"
proof -
  let ?read = "TcpConnection_handleRead K (echo_callbacks K tid tmp) c now s"
  have idle: "conn_served l c s" "conn_ready K tid (length xs + n) c s" "Buffer_inv (conn_inputBuffer (conns s c))"
    "Buffer_abs (conn_inputBuffer (conns s c)) = []" "Buffer_size (conn_inputBuffer (conns s c)) + (length xs + n) \<le> vector_max_size"
    using assms(1) by (simp_all add: echo_idle_def)
  obtain k' where rd: "sys_read K (ch_fd (chan_of c s)) (readv_capacity (conn_inputBuffer (conns s c))) (kern s) = (Inr xs, k')" "xs \<noteq> []"
    using assms(3) by (auto simp: arrives_def)
  have "conn_ready K tid (length xs) c s" using idle(2) by (simp add: conn_ready_def conn_room_def)
  then obtain b w1 where b: "Buffer_inv b" "Buffer_abs b = []" "Buffer_size b \<le> Buffer_size (conn_inputBuffer (conns s c)) + length xs"
    "w1 = with_input c b (s\<lparr>kern := k'\<rparr>)" "conn_stream sent c w1 = conn_stream sent c s" "?read = send_temporary K tid c tmp xs w1"
    "aborts_or (\<lambda>w'. conn_effect sent c (length xs) xs w1 w' \<and> conn_rest c w1 w') ?read"
    using echo_read [where tid = tid and c = c and w = s and xs = xs and k' = k' and tmp = tmp and t = now] idle rd
    by (auto simp: conn_served_def)
  have w1: "conn_served l c w1" "conn_ready K tid (length xs + n) c w1" "conn_inputBuffer (conns w1 c) = b"
    using idle(1,2) by (simp_all add: b(4) conn_served_def conn_ready_def conn_ok_def conn_room_def)
  then have ready: "conn_ready K tid (length xs) c w1" by (simp add: conn_ready_def conn_room_def)
  have side: "bystander sent c s w1"
    using aside_delivery [OF rd(1), of c _ b] by (simp add: bystander_def b(4))
  have kept: "ch_revents (chans s' (conn_channel (conns s c))) = EPOLLIN" if "?read = Inr s'" for s'
    using b(7) that assms(2) by (simp add: conn_rest_def b(4))
  have "aborts_or (\<lambda>s'. echo_idle K tid n l c s' \<and> conn_stream sent c s' = conn_stream sent c s @ xs \<and>
      conn_channel (conns s' c) = conn_channel (conns s c) \<and> bystander sent c s s') ?read"
  proof (cases ?read)
    case (Inr s')
    then have eff: "conn_effect sent c (length xs) xs w1 s'" and rest: "conn_rest c w1 s'" using b(7) by simp_all
    have "bystander sent c w1 s'"
      by (rule bystander_rest [OF rest w1(1) aside_send_temporary [OF Inr [unfolded b(6)] ready]])
    moreover have "echo_idle K tid n l c s'"
      using conn_served_rest [OF rest w1(1)] conn_ready_rest [OF w1(2) eff rest] rest w1(3) b(1-3) idle(5)
      by (simp add: echo_idle_def conn_rest_def)
    moreover have "conn_channel (conns s' c) = conn_channel (conns s c)" using rest by (simp add: conn_rest_def b(4))
    ultimately show ?thesis using Inr eff b(5) bystander_trans [OF side] by (simp add: conn_effect_def)
  qed (use b(7) in simp)
  then show ?thesis using echo_handle_input [OF idle(1) assms(2) kept] by simp
qed

lemma echo_step_output:
  assumes "echo_idle K tid n l c s" "ch_revents (chan_of c s) = EPOLLOUT"
  shows "aborts_or (\<lambda>s'. echo_idle K tid n l c s' \<and> conn_stream sent c s' = conn_stream sent c s \<and>
      conn_channel (conns s' c) = conn_channel (conns s c) \<and> bystander sent c s s')
    (echo_handle K tid tmp alloc now (conn_channel (conns s c)) s)"
proof -
  have idle: "conn_served l c s" "conn_ready K tid (0 + n) c s" using assms(1) by (simp_all add: echo_idle_def)
  then have "conn_ok c s" "conn_room 0 c s" by (simp_all add: conn_ready_def conn_room_def)
  note eff = handleWrite_effect [where c = c and w = s and tid = tid, OF this]
  show ?thesis
  proof (cases "TcpConnection_handleWrite K tid c s")
    case (Inr s')
    note rest = handleWrite_rest [OF Inr]
    from eff Inr have e: "conn_effect sent c 0 [] s s'" by simp
    have "echo_idle K tid n l c s'"
      using assms(1) conn_served_rest [OF rest idle(1)] conn_ready_rest [OF idle(2) e rest] rest
      by (simp add: echo_idle_def conn_rest_def)
    then show ?thesis
      using echo_handle_output [OF idle(1) assms(2)] Inr e rest bystander_rest [OF rest idle(1) aside_handleWrite [OF Inr]]
      by (simp add: conn_effect_def conn_rest_def)
  qed (use eff echo_handle_output [OF idle(1) assms(2)] in simp)
qed

lemma echo_step:
  assumes "echo_idle K tid (length (event_input ev) + n) l c s" "ch_revents (chan_of c s) = event_mask ev" "arrives K c ev s"
  shows "aborts_or (\<lambda>s'. echo_idle K tid n l c s' \<and> conn_stream sent c s' = conn_stream sent c s @ event_input ev \<and>
      conn_channel (conns s' c) = conn_channel (conns s c) \<and> bystander sent c s s')
    (echo_handle K tid tmp alloc now (conn_channel (conns s c)) s)"
  using assms echo_step_input echo_step_output by (cases ev) (simp_all add: event_mask_def)

end

section \<open>Handling the active channels\<close>

text \<open>What one peer sends in a list of events, and the connections between two turns, each with its room.\<close>

definition input_of :: "conn \<Rightarrow> (conn \<times> bytes option) list \<Rightarrow> bytes" where
  "input_of c ces = concat (map (\<lambda>ce. if fst ce = c then event_input (snd ce) else []) ces)"

lemma input_of_simps [simp]:
  "input_of c [] = []" "input_of c (ce # ces) = (if fst ce = c then event_input (snd ce) else []) @ input_of c ces"
  "input_of c (ces @ ces') = input_of c ces @ input_of c ces'"
  by (simp_all add: input_of_def)

definition echo_crowd :: "'k kernel \<Rightarrow> int \<Rightarrow> (conn \<Rightarrow> nat) \<Rightarrow> loop \<Rightarrow> conn set \<Rightarrow> ('k, 'a) server_scheme \<Rightarrow> bool" where
  "echo_crowd K tid m l C s \<longleftrightarrow> (\<forall>c\<in>C. echo_idle K tid (m c) l c s) \<and> (\<forall>c\<in>C. \<forall>d\<in>C. c \<noteq> d \<longrightarrow> conns_apart c d s)"

lemma bystander_apart:
  assumes "bystander sent c s s'" "c \<in> C" "\<forall>c\<in>C. \<forall>d\<in>C. c \<noteq> d \<longrightarrow> conns_apart c d s" "d \<in> C" "e \<in> C" "d \<noteq> e"
  shows "conns_apart d e s'"
proof -
  have side: "aside sent c f s s'" if "f \<in> C" "f \<noteq> c" for f using assms(1-3) that by (auto simp: bystander_def)
  have de: "conns_apart d e s" using assms(3-6) by blast
  consider "d = c" | "e = c" | "d \<noteq> c" "e \<noteq> c" by blast
  then show ?thesis
  proof cases
    case 1
    then show ?thesis using aside_apart [OF side [of e]] de assms(5,6) by auto
  next
    case 2
    then show ?thesis using aside_apart_self [OF side [of d]] de assms(4,6) by auto
  next
    case 3
    then show ?thesis using aside_apart_others [OF side [of d] side [of e] de] assms(4,5) by blast
  qed
qed

text \<open>
  The kernel's side while the active channels are handled: each input event finds its bytes; \<open>handle\<close> is what the
  loop does for a connection.
\<close>

fun handled ::
    "'k kernel \<Rightarrow> (conn \<Rightarrow> ('k, 'a) world_scheme \<Rightarrow> ('k, 'a) world_scheme res) \<Rightarrow> (conn \<times> bytes option) list
      \<Rightarrow> ('k, 'a) world_scheme \<Rightarrow> bool" where
  "handled K handle [] s \<longleftrightarrow> True"
| "handled K handle (ce # ces) s \<longleftrightarrow> arrives K (fst ce) (snd ce) s \<and>
     (\<forall>s'. handle (fst ce) s = Inr s' \<longrightarrow> handled K handle ces s')"

context net_kernel
begin

lemma echo_events:
  assumes "echo_crowd K tid (\<lambda>c. length (input_of c ces) + m c) l C s"
    and "\<forall>ce\<in>set ces. fst ce \<in> C \<and> ch_revents (chans s (chf (fst ce))) = event_mask (snd ce)"
    and "\<forall>c\<in>C. conn_channel (conns s c) = chf c"
    and "handled K (\<lambda>c. echo_handle K tid tmp alloc now (chf c)) ces s"
  shows "aborts_or (\<lambda>s'. echo_crowd K tid m l C s' \<and>
      (\<forall>c\<in>C. conn_stream sent c s' = conn_stream sent c s @ input_of c ces \<and> conn_channel (conns s' c) = chf c) \<and>
      (\<forall>d. ch_fd (chans s' d) = ch_fd (chans s d)))
    (res_iter (echo_handle K tid tmp alloc now) (map (\<lambda>ce. chf (fst ce)) ces) s)"
  using assms
proof (induction ces arbitrary: s)
  case Nil
  then show ?case by simp
next
  case (Cons ce ces)
  obtain c ev where ce: "ce = (c, ev)" by fastforce
  let ?P = "\<lambda>s'. echo_crowd K tid (\<lambda>d. length (input_of d ces) + m d) l C s' \<and>
      (\<forall>d\<in>C. conn_stream sent d s' = conn_stream sent d s @ input_of d [ce] \<and> conn_channel (conns s' d) = chf d \<and>
        ch_revents (chans s' (chf d)) = ch_revents (chans s (chf d))) \<and>
      (\<forall>d. ch_fd (chans s' d) = ch_fd (chans s d))"
  have c: "c \<in> C" "conn_channel (conns s c) = chf c" "ch_revents (chan_of c s) = event_mask ev" "arrives K c ev s"
    using Cons.prems ce by auto
  have "echo_idle K tid (length (event_input ev) + (length (input_of c ces) + m c)) l c s"
    using Cons.prems(1) c(1) ce by (auto simp: echo_crowd_def add.assoc)
  note step = echo_step [OF this c(3,4), of tmp alloc now, unfolded c(2)]
  have one: "aborts_or ?P (echo_handle K tid tmp alloc now (chf c) s)"
  proof (rule aborts_or_mono [OF step], elim conjE)
    fix s' assume s': "echo_idle K tid (length (input_of c ces) + m c) l c s'" "conn_stream sent c s' = conn_stream sent c s @ event_input ev"
      "conn_channel (conns s' c) = chf c" "bystander sent c s s'"
    have all: "echo_idle K tid (length (input_of d ces) + m d) l d s' \<and> conn_stream sent d s' = conn_stream sent d s @ input_of d [ce] \<and>
        conn_channel (conns s' d) = chf d" if d: "d \<in> C" for d
    proof (cases "d = c")
      case True
      then show ?thesis using s' ce by simp
    next
      case False
      then have ap: "conns_apart c d s" using Cons.prems(1) c(1) d by (simp add: echo_crowd_def)
      have "echo_idle K tid (length (input_of d ces) + m d) l d s"
        using Cons.prems(1) d False ce by (auto simp: echo_crowd_def)
      from bystander_idle [OF s'(4) ap this] show ?thesis using Cons.prems(3) d False ce by auto
    qed
    have "conns_apart d e s'" if "d \<in> C" "e \<in> C" "d \<noteq> e" for d e
      using bystander_apart [OF s'(4) c(1) _ that] Cons.prems(1) by (simp add: echo_crowd_def)
    with all show "?P s'" using s'(4) Cons.prems(3) by (simp add: echo_crowd_def bystander_def)
  qed
  show ?case
  proof (cases "echo_handle K tid tmp alloc now (chf c) s")
    case (Inr s1)
    from one [unfolded Inr] have s1: "?P s1" by (rule aborts_or_simps(1) [THEN iffD1])
    then have rev: "\<forall>ce\<in>set ces. fst ce \<in> C \<and> ch_revents (chans s1 (chf (fst ce))) = event_mask (snd ce)"
      using Cons.prems(2) by simp
    have "handled K (\<lambda>c. echo_handle K tid tmp alloc now (chf c)) ces s1" using Cons.prems(4) Inr ce by simp
    from Cons.IH [OF _ rev _ this] s1 have
      "aborts_or (\<lambda>s'. echo_crowd K tid m l C s' \<and>
          (\<forall>c\<in>C. conn_stream sent c s' = conn_stream sent c s1 @ input_of c ces \<and> conn_channel (conns s' c) = chf c) \<and>
          (\<forall>d. ch_fd (chans s' d) = ch_fd (chans s1 d)))
        (res_iter (echo_handle K tid tmp alloc now) (map (\<lambda>ce. chf (fst ce)) ces) s1)" by blast
    then show ?thesis using s1 Inr ce by (auto elim!: aborts_or_mono)
  qed (use one ce in simp)
qed

end

section \<open>Turns and sessions\<close>

text \<open>
  The kernel's side of a turn: \<open>epoll_wait\<close> reports one event for each of some connections, and the bytes of the input
  events are there when their handlers run. \<open>handle\<close> is what the loop does for an active channel at a given time.
\<close>

definition turn_reports ::
    "'k kernel \<Rightarrow> (int \<Rightarrow> chan \<Rightarrow> ('k, 'a) world_scheme \<Rightarrow> ('k, 'a) world_scheme res) \<Rightarrow> loop \<Rightarrow> (conn \<times> bytes option) list
      \<Rightarrow> ('k, 'a) world_scheme \<Rightarrow> bool" where
  "turn_reports K handle l ces s \<longleftrightarrow> distinct (map fst ces) \<and> length ces \<le> nat INT_MAX \<and>
     (\<exists>k1 ts us k2. epoll_wait K (epollfd (loops s l)) (poller_events_size (loops s l)) (kern s) =
        (Inr (map (\<lambda>ce. (event_mask (snd ce), conn_channel (conns s (fst ce)))) ces), k1) \<and>
      sys_gettimeofday K k1 = ((ts, us), k2) \<and>
      (\<forall>sp. polled_events l (map (\<lambda>ce. (event_mask (snd ce), conn_channel (conns s (fst ce)))) ces) k2 s sp \<longrightarrow>
         handled K (\<lambda>c. handle (ts * kMicroSecondsPerSecond + us) (conn_channel (conns s c))) ces sp))"

text \<open>The same for the turns of a session, as long as they return.\<close>

fun session_reports ::
    "'k kernel \<Rightarrow> (int \<Rightarrow> chan \<Rightarrow> ('k, 'a) world_scheme \<Rightarrow> ('k, 'a) world_scheme res)
      \<Rightarrow> (('k, 'a) world_scheme \<Rightarrow> ('k, 'a) world_scheme res) \<Rightarrow> loop \<Rightarrow> (conn \<times> bytes option) list list
      \<Rightarrow> ('k, 'a) world_scheme \<Rightarrow> bool" where
  "session_reports K handle turn l [] s \<longleftrightarrow> True"
| "session_reports K handle turn l (ces # cess) s \<longleftrightarrow> turn_reports K handle l ces s \<and>
     (\<forall>s'. turn s = Inr s' \<longrightarrow> session_reports K handle turn l cess s')"

lemma doPendingFunctors_crowd:
  assumes "echo_crowd K tid m l C s" "C \<noteq> {}"
  shows "\<exists>s'. EventLoop_doPendingFunctors exec l s = Inr s' \<and> echo_crowd K tid m l C s' \<and> conns s' = conns s \<and> chans s' = chans s \<and>
    (\<forall>c. conn_stream sent c s' = conn_stream sent c s)"
proof -
  have "pendingFunctors (loops s l) = []"
    using assms by (auto simp: echo_crowd_def echo_idle_def conn_served_def)
  from doPendingFunctors_empty [OF this, of exec] obtain s' where
    s': "EventLoop_doPendingFunctors exec l s = Inr s'" "kern s' = kern s" "conns s' = conns s" "chans s' = chans s"
      "world.more s' = world.more s" "loops s' = (loops s)(l := (loops s l)\<lparr>callingPendingFunctors := False\<rparr>)"
    by blast
  then have "echo_crowd K tid m l C s'"
    using assms(1) more_server_fields(1) [OF s'(5)]
    by (auto simp: echo_crowd_def echo_idle_def conn_served_def conn_ready_def conn_ok_def conn_room_def conns_apart_def)
  with s' show ?thesis by (simp add: conn_stream_def)
qed

lemma echo_crowd_polled:
  assumes "polled_events l evs k s sp"
  shows "echo_crowd K tid m l C sp = echo_crowd K tid m l C s"
  using more_server_fields(1) [OF polled_events_world(4) [OF assms]]
  by (simp add: echo_crowd_def echo_idle_def conn_served_def conn_ready_def conn_ok_def conn_room_def Channel_isWriting_def
      conns_apart_def polled_events_frame [OF assms])

context polling_kernel
begin

lemma echo_turn_crowd:
  assumes crowd: "echo_crowd K tid (\<lambda>c. length (input_of c ces) + m c) l C s" and C: "C \<noteq> {}" "fst ` set ces \<subseteq> C"
    and rep: "turn_reports K (echo_handle K tid tmp alloc) l ces s"
  shows "aborts_or (\<lambda>s'. echo_crowd K tid m l C s' \<and> (\<forall>c\<in>C. conn_stream sent c s' = conn_stream sent c s @ input_of c ces \<and>
      conn_channel (conns s' c) = conn_channel (conns s c)) \<and> (\<forall>d. ch_fd (chans s' d) = ch_fd (chans s d)))
    (echo_turn K tid tmp alloc l s)"
proof -
  let ?exec = "Server_exec K (echo_callbacks K tid tmp) (\<lambda>c s. Inl BadFunctionCall) (\<lambda>c n s. Inl BadFunctionCall) tid"
  let ?chf = "\<lambda>c. conn_channel (conns s c)"
  let ?evs = "map (\<lambda>ce. (event_mask (snd ce), ?chf (fst ce))) ces"
  obtain k1 ts us k2 where k: "epoll_wait K (epollfd (loops s l)) (poller_events_size (loops s l)) (kern s) = (Inr ?evs, k1)"
      "sys_gettimeofday K k1 = ((ts, us), k2)" and len: "length ?evs \<le> nat INT_MAX" and dist: "distinct (map fst ces)"
    and rd: "\<And>sp. polled_events l ?evs k2 s sp \<Longrightarrow>
      handled K (\<lambda>c. echo_handle K tid tmp alloc (ts * kMicroSecondsPerSecond + us) (?chf c)) ces sp"
    using rep unfolding turn_reports_def by auto
  let ?now = "ts * kMicroSecondsPerSecond + us"
  obtain sp where sp: "polled_events l ?evs k2 s sp" and run: "echo_turn K tid tmp alloc l s =
      rbind (res_iter (echo_handle K tid tmp alloc ?now) (map (\<lambda>ce. ?chf (fst ce)) ces) sp) (EventLoop_doPendingFunctors ?exec l)"
    using EventLoop_turn_events [OF k len, where call = "Server_call K (echo_callbacks K tid tmp) alloc tid" and alive = conn_held and exec = ?exec]
    by (auto simp: echo_turn_def echo_handle_def [abs_def] comp_def)
  have inj: "inj_on ?chf (fst ` set ces)"
    using crowd C(2) unfolding inj_on_def echo_crowd_def conns_apart_def by (meson subsetD)
  then have "distinct (map snd ?evs)" using dist by (simp add: distinct_map comp_def inj_on_def)
  then have rev: "\<forall>ce\<in>set ces. fst ce \<in> C \<and> ch_revents (chans sp (?chf (fst ce))) = event_mask (snd ce)"
    using polled_events_revents [OF sp] C(2) by auto
  have kern: "sent k2 = sent (kern s)" by (rule poll_kernel(1) [OF k])
  have fr: "conns sp = conns s" "conn_stream sent c sp = conn_stream sent c s" for c
    using kern by (simp_all add: conn_stream_def polled_events_frame [OF sp])
  have "aborts_or (\<lambda>s'. echo_crowd K tid m l C s' \<and>
      (\<forall>c\<in>C. conn_stream sent c s' = conn_stream sent c sp @ input_of c ces \<and> conn_channel (conns s' c) = ?chf c) \<and>
      (\<forall>d. ch_fd (chans s' d) = ch_fd (chans s d)))
    (res_iter (echo_handle K tid tmp alloc ?now) (map (\<lambda>ce. ?chf (fst ce)) ces) sp)"
    using echo_events [OF _ rev _ rd [OF sp]] crowd by (simp add: echo_crowd_polled [OF sp] fr polled_events_chans [OF sp])
  then show ?thesis
    unfolding run
  proof (rule aborts_or_rbind, elim conjE)
    fix s' assume s': "echo_crowd K tid m l C s'"
      "\<forall>c\<in>C. conn_stream sent c s' = conn_stream sent c sp @ input_of c ces \<and> conn_channel (conns s' c) = ?chf c"
      "\<forall>d. ch_fd (chans s' d) = ch_fd (chans s d)"
    from doPendingFunctors_crowd [OF s'(1) C(1), of ?exec sent] s'(2,3)
    show "aborts_or (\<lambda>s'. echo_crowd K tid m l C s' \<and> (\<forall>c\<in>C. conn_stream sent c s' = conn_stream sent c s @ input_of c ces \<and>
      conn_channel (conns s' c) = ?chf c) \<and> (\<forall>d. ch_fd (chans s' d) = ch_fd (chans s d))) (EventLoop_doPendingFunctors ?exec l s')"
      by (auto simp: fr)
  qed
qed

lemma echo_sessions:
  assumes "echo_crowd K tid (\<lambda>c. length (input_of c (concat cess)) + m c) l C s" "C \<noteq> {}" "fst ` set (concat cess) \<subseteq> C"
    and "session_reports K (echo_handle K tid tmp alloc) (echo_turn K tid tmp alloc l) l cess s"
  shows "aborts_or (\<lambda>s'. echo_crowd K tid m l C s' \<and> (\<forall>c\<in>C. conn_stream sent c s' = conn_stream sent c s @ input_of c (concat cess) \<and>
      conn_channel (conns s' c) = conn_channel (conns s c)) \<and> (\<forall>d. ch_fd (chans s' d) = ch_fd (chans s d)))
    (res_iter (\<lambda>_. echo_turn K tid tmp alloc l) cess s)"
  using assms
proof (induction cess arbitrary: s)
  case Nil
  then show ?case by simp
next
  case (Cons ces cess)
  have "aborts_or (\<lambda>s'. echo_crowd K tid (\<lambda>c. length (input_of c (concat cess)) + m c) l C s' \<and>
      (\<forall>c\<in>C. conn_stream sent c s' = conn_stream sent c s @ input_of c ces \<and> conn_channel (conns s' c) = conn_channel (conns s c)) \<and>
      (\<forall>d. ch_fd (chans s' d) = ch_fd (chans s d)))
    (echo_turn K tid tmp alloc l s)"
    using Cons.prems by (intro echo_turn_crowd) (auto simp: add.assoc)
  note turn = this
  show ?case
  proof (cases "echo_turn K tid tmp alloc l s")
    case (Inr s1)
    note s1 = turn [unfolded Inr aborts_or_simps]
    have "session_reports K (echo_handle K tid tmp alloc) (echo_turn K tid tmp alloc l) l cess s1" using Cons.prems(4) Inr by simp
    from Cons.IH [OF _ Cons.prems(2) _ this] s1 Cons.prems(3)
    show ?thesis using Inr by (auto elim!: aborts_or_mono)
  qed (use turn in simp)
qed

end

section \<open>Properties\<close>

text \<open>
  C4. The echo server serves all its peers. Take any set of connections of the server that do not share a channel or a
  descriptor, and any number of turns of the loop, in each of which the kernel reports input or room for output for any
  number of them, in any order. Then every peer is sent exactly the bytes it has sent itself, in order and completely up
  to what is still in its output buffer; its input buffer is empty, and its connection is still open and served. The only
  failure is the abort of a refused \<open>epoll_ctl\<close>. The bytes of the session have to fit the range in which the \<open>int\<close>
  computations of the buffers do not overflow. Which events the kernel reports is left open here; of a connection whose pending output
  a turn has written completely it will report no input any more (\<open>TcpServer_turn_deafens\<close>).
\<close>

theorem EchoServer_multiplexed:
  assumes "polling_kernel K interest sent" "C \<noteq> {}" "fst ` set (concat cess) \<subseteq> C"
    and "echo_crowd K tid (\<lambda>c. length (input_of c (concat cess))) l C s"
    and "session_reports K (echo_handle K tid tmp alloc) (echo_turn K tid tmp alloc l) l cess s"
  shows "aborts_or (\<lambda>s'. \<forall>c\<in>C.
      sent (kern s') (ch_fd (chan_of c s)) @ Buffer_abs (conn_outputBuffer (conns s' c)) =
        sent (kern s) (ch_fd (chan_of c s)) @ Buffer_abs (conn_outputBuffer (conns s c)) @ input_of c (concat cess) \<and>
      Buffer_abs (conn_inputBuffer (conns s' c)) = [] \<and> conn_state (conns s' c) = kConnected \<and> conn_served l c s')
    (res_iter (\<lambda>_. echo_turn K tid tmp alloc l) cess s)"
proof -
  have "echo_crowd K tid (\<lambda>c. length (input_of c (concat cess)) + 0) l C s" using assms(4) by simp
  from polling_kernel.echo_sessions [OF assms(1) this assms(2,3,5)] show ?thesis
    by (rule aborts_or_mono) (simp add: echo_crowd_def echo_idle_def conn_ready_def conn_stream_def, metis)
qed

text \<open>A kernel with two peers that keep sending: the one on descriptor 8 other bytes than the one on descriptor 7.\<close>

definition chat_kernel :: "ref_state kernel" where
  "chat_kernel = ref_kernel\<lparr>epoll_wait := \<lambda>ep n k. (Inr [(EPOLLIN, 1), (EPOLLIN, 2)], k),
     sys_read := \<lambda>f n k. (Inr (take n (if f = 8 then ''pong'' else ''ping'')), k)\<rparr>"

interpretation ck: polling_kernel chat_kernel rk_interest rk_sent
  by unfold_locales (auto simp: chat_kernel_def ref_defs min_def split: if_splits list.splits ctl_op.splits)

definition chat :: "(conn \<times> bytes option) list" where
  "chat = [(1, Some ''ping''), (2, Some ''pong'')]"

lemma chat_poll:
  "epoll_wait chat_kernel ep n k = (Inr [(EPOLLIN, 1), (EPOLLIN, 2)], k)" "sys_gettimeofday chat_kernel k = ((0, 0), k)"
  by (simp_all add: chat_kernel_def ref_defs)

lemma chat_read:
  "4 \<le> n \<Longrightarrow> sys_read chat_kernel f n k = (Inr (if f = 8 then ''pong'' else ''ping''), k)"
  by (simp add: chat_kernel_def)

lemma readv_capacity_four: "4 \<le> readv_capacity b"
  by (simp add: readv_capacity_def Let_def extrabuf_size_def)

lemma chat_arrives:
  "arrives chat_kernel c (Some xs) s \<longleftrightarrow> xs = (if ch_fd (chan_of c s) = 8 then ''pong'' else ''ping'')"
  by (auto simp: arrives_def chat_read readv_capacity_four)

definition chat_place :: "('k, 'a) world_scheme \<Rightarrow> bool" where
  "chat_place s \<longleftrightarrow> conn_channel (conns s 1) = 1 \<and> conn_channel (conns s 2) = 2 \<and> ch_fd (chans s 1) = 7 \<and> ch_fd (chans s 2) = 8"

lemma chat_turn_reports:
  fixes s :: "(ref_state, 'a) server_scheme"
  assumes "echo_crowd chat_kernel tid (\<lambda>c. length (input_of c chat) + m c) l {1, 2} s" "chat_place s"
  shows "turn_reports chat_kernel (echo_handle chat_kernel tid tmp alloc) l chat s"
proof -
  let ?handle = "\<lambda>c. echo_handle chat_kernel tid tmp alloc 0 (conn_channel (conns s c))"
  let ?evs = "[(EPOLLIN, 1), (EPOLLIN, 2)]"
  have "handled chat_kernel ?handle chat sp" if sp: "polled_events l ?evs (kern s) s sp" for sp
  proof -
    have pl: "chat_place sp" using assms(2) polled_events_world(2) [OF sp] by (simp add: chat_place_def polled_events_chans [OF sp])
    have "echo_crowd chat_kernel tid (\<lambda>c. length (input_of c chat) + m c) l {1, 2} sp"
      using assms(1) by (simp add: echo_crowd_polled [OF sp])
    then have idle: "echo_idle chat_kernel tid (length ''ping'' + m 1) l 1 sp" "conns_apart 1 2 sp" by (simp_all add: echo_crowd_def chat_def)
    have "ch_revents (chans sp 1) = EPOLLIN" using polled_events_revents [OF sp, of EPOLLIN 1] by simp
    then have "arrives chat_kernel 1 (Some ''ping'') sp" "ch_revents (chan_of 1 sp) = EPOLLIN"
      using pl by (simp_all add: chat_arrives chat_place_def)
    from ck.echo_step_input [OF idle(1) this(2,1), of tmp alloc 0]
    have "aborts_or (bystander rk_sent 1 sp) (?handle 1 sp)"
      using pl assms(2) by (auto simp: chat_place_def elim: aborts_or_mono)
    then have "arrives chat_kernel 2 (Some ''pong'') s'" if "?handle 1 sp = Inr s'" for s'
      using that idle(2) pl by (auto simp: chat_arrives bystander_def aside_def chat_place_def)
    then show ?thesis using \<open>arrives chat_kernel 1 (Some ''ping'') sp\<close> by (simp add: chat_def)
  qed
  then show ?thesis
    using assms(2) by (simp add: turn_reports_def chat_poll chat_place_def limit_defs chat_def event_mask_def)
qed

lemma chat_session_reports:
  fixes s :: "(ref_state, 'a) server_scheme"
  assumes "echo_crowd chat_kernel tid (\<lambda>c. length (input_of c (concat (replicate n chat)))) l {1, 2} s" "chat_place s"
  shows "session_reports chat_kernel (echo_handle chat_kernel tid tmp alloc) (echo_turn chat_kernel tid tmp alloc l) l (replicate n chat) s"
  using assms
proof (induction n arbitrary: s)
  case (Suc n)
  let ?m = "\<lambda>c. length (input_of c (concat (replicate n chat)))" and ?turn = "echo_turn chat_kernel tid tmp alloc l"
  have crowd: "echo_crowd chat_kernel tid (\<lambda>c. length (input_of c chat) + ?m c) l {1, 2} s" using Suc.prems(1) by simp
  note rep = chat_turn_reports [where tmp = tmp and alloc = alloc, OF crowd Suc.prems(2)]
  have "fst ` set chat \<subseteq> {1, 2}" by (simp add: chat_def)
  from ck.echo_turn_crowd [OF crowd _ this rep] have "aborts_or (\<lambda>s'. echo_crowd chat_kernel tid ?m l {1, 2} s' \<and> chat_place s') (?turn s)"
    using Suc.prems(2) by (auto simp: chat_place_def elim: aborts_or_mono)
  then have "session_reports chat_kernel (echo_handle chat_kernel tid tmp alloc) ?turn l (replicate n chat) s'" if "?turn s = Inr s'" for s'
    using that Suc.IH [of s'] by simp
  then show ?case using rep by simp
qed simp

definition sample_crowd :: "ref_state server" where
  "sample_crowd = sample_blank\<lparr>srv_connections := [''c'' \<mapsto> 1, ''d'' \<mapsto> 2],
     kern := (kern sample_blank)\<lparr>rk_interest := (\<lambda>_. Map.empty)(4 := [7 \<mapsto> (kReadEvent, 1), 8 \<mapsto> (kReadEvent, 2)])\<rparr>,
     loops := (\<lambda>_. sample_loop\<lparr>poller_channels := [7 \<mapsto> 1, 8 \<mapsto> 2]\<rparr>),
     chans := (\<lambda>d. sample_chan\<lparr>ch_fd := if d = 2 then 8 else 7, ch_tie := Some d,
       ch_readCallback := Some (H_TcpConnection_handleRead d), ch_writeCallback := Some (H_TcpConnection_handleWrite d)\<rparr>),
     conns := (\<lambda>c. sample_conn\<lparr>conn_channel := c, conn_sockfd := if c = 2 then 8 else 7,
       conn_hasWriteCompleteCallback := False, conn_hasHighWaterMarkCallback := False\<rparr>)\<rparr>"

lemmas sample_crowd_defs = sample_crowd_def sample_blank_def sample_defs

lemma chat_link_up: "link_up chat_kernel f"
  by (simp add: link_up_def chat_kernel_def ref_defs EWOULDBLOCK_def EPIPE_def ECONNRESET_def split: list.splits)

lemma sample_crowd_idle:
  assumes "c \<in> {1, 2}"
  shows "echo_idle chat_kernel 100 12 0 c sample_crowd"
  using assms by (auto simp: echo_idle_def conn_served_def conn_ready_def conn_ok_def conn_room_def chat_link_up sample_crowd_defs
      Buffer_chunk_def limit_defs InitialPrependSize_def)

theorem EchoServer_multiplexed_witness:
  "aborts_or (\<lambda>s'. rk_sent (kern s') 7 @ Buffer_abs (conn_outputBuffer (conns s' 1)) = ''pingpingping'' \<and>
      rk_sent (kern s') 8 @ Buffer_abs (conn_outputBuffer (conns s' 2)) = ''pongpongpong'' \<and>
      conn_served 0 1 s' \<and> conn_served 0 2 s')
    (res_iter (\<lambda>_. echo_turn chat_kernel 100 3 (\<lambda>s. (6, 6)) 0) (replicate 3 chat) sample_crowd)"
proof -
  have inp: "input_of 1 (concat (replicate 3 chat)) = ''pingpingping''" "input_of 2 (concat (replicate 3 chat)) = ''pongpongpong''"
    by (simp_all add: chat_def eval_nat_numeral)
  have len: "length (input_of c (concat (replicate 3 chat))) = 12" if "c \<in> {1, 2}" for c
    using that by (auto simp: chat_def eval_nat_numeral)
  have crowd: "echo_crowd chat_kernel 100 (\<lambda>c. length (input_of c (concat (replicate 3 chat)))) 0 {1, 2} sample_crowd"
    unfolding echo_crowd_def
  proof (intro conjI)
    show "\<forall>c\<in>{1, 2}. echo_idle chat_kernel 100 (length (input_of c (concat (replicate 3 chat)))) 0 c sample_crowd"
      using sample_crowd_idle len by metis
  qed (simp add: conns_apart_def sample_crowd_defs)
  have place: "chat_place sample_crowd" by (simp add: chat_place_def sample_crowd_defs)
  have "fst ` set (concat (replicate 3 chat)) \<subseteq> {1, 2}" by (auto simp: chat_def)
  note run = EchoServer_multiplexed [OF ck.polling_kernel_axioms insert_not_empty this crowd chat_session_reports [OF crowd place], of 3 "\<lambda>s. (6, 6)"]
  have "ch_fd (chan_of 1 sample_crowd) = 7" "ch_fd (chan_of 2 sample_crowd) = 8" "rk_sent (kern sample_crowd) f = []"
    "Buffer_abs (conn_outputBuffer (conns sample_crowd c)) = []" for f c
    by (simp_all add: sample_crowd_defs)
  then show ?thesis using inp by (intro aborts_or_mono [OF run]) simp
qed

end
