(* ===== verification/Example_Session.thy ===== *)
theory Example_Session
  imports Example_Multiplex
begin

text \<open>
  A whole session of the echo server with one of its peers: any number of turns of the loop, in each of which the kernel
  reports the connection readable, with bytes to be read, or writable.
\<close>

section \<open>Sessions\<close>

text \<open>A session with one peer is a session with many in which only that one is reported.\<close>

lemma reports_session:
  assumes "reports K turn l c evs s"
  shows "session_reports K handle turn l (map (\<lambda>ev. [(c, ev)]) evs) s"
  using assms
proof (induction evs arbitrary: s)
  case (Cons ev evs)
  obtain k1 ts us k2 where k: "epoll_wait K (epollfd (loops s l)) (poller_events_size (loops s l)) (kern s) =
      (Inr [(event_mask ev, conn_channel (conns s c))], k1)" "sys_gettimeofday K k1 = ((ts, us), k2)"
    and rd: "case ev of None \<Rightarrow> True | Some xs \<Rightarrow> xs \<noteq> [] \<and>
      (\<exists>k3. sys_read K (ch_fd (chan_of c s)) (readv_capacity (conn_inputBuffer (conns s c))) k2 = (Inr xs, k3))"
    using Cons.prems unfolding reports.simps event_mask_def by blast
  have "arrives K c ev sp" if "polled_events l [(event_mask ev, conn_channel (conns s c))] k2 s sp" for sp
    using rd by (simp add: arrives_def polled_events_frame [OF that] split: option.splits)
  then have "turn_reports K handle l [(c, ev)] s" using k by (auto simp: turn_reports_def limit_defs)
  then show ?case using Cons by simp
qed simp

lemma input_of_single: "input_of c (map (Pair c) evs) = concat (map event_input evs)"
  by (induction evs) simp_all

context polling_kernel
begin

lemma echo_session:
  assumes "echo_idle K tid (length (concat (map event_input evs)) + n) l c s"
    and "reports K (echo_turn K tid tmp alloc l) l c evs s"
  shows "aborts_or (\<lambda>s'. echo_idle K tid n l c s' \<and>
      conn_stream sent c s' = conn_stream sent c s @ concat (map event_input evs) \<and> conn_channel (conns s' c) = conn_channel (conns s c))
    (res_iter (\<lambda>_. echo_turn K tid tmp alloc l) evs s)"
proof -
  let ?cess = "map (\<lambda>ev. [(c, ev)]) evs"
  have "echo_crowd K tid (\<lambda>d. length (input_of d (concat ?cess)) + n) l {c} s"
    using assms(1) by (simp add: echo_crowd_def input_of_single)
  moreover have "fst ` set (concat ?cess) \<subseteq> {c}" by auto
  moreover have "res_iter (\<lambda>_. echo_turn K tid tmp alloc l) ?cess s = res_iter (\<lambda>_. echo_turn K tid tmp alloc l) evs s"
    by (rule res_iter_length) simp
  ultimately show ?thesis
    using echo_sessions [where C = "{c}" and m = "\<lambda>_. n", OF _ _ _ reports_session [OF assms(2), of "echo_handle K tid tmp alloc"]]
    by (auto simp: input_of_single echo_crowd_def elim!: aborts_or_mono)
qed

end


section \<open>Properties\<close>

text \<open>
  A session of the echo server, over any number of turns of its loop. Whatever chunks the kernel delivers, and however
  often it reports room for output in between, the peer is sent exactly the bytes it has sent itself, in order and
  completely up to what is still in the output buffer; the input buffer is empty and the connection is still open and served. The only failure is the
  abort of a refused \<open>epoll_ctl\<close>. The bytes of the session have to fit the range in which the buffer's \<open>int\<close> computations do not overflow.
\<close>

theorem EchoServer_session:
  assumes "polling_kernel K interest sent" "conn_served l c s"
    and "conn_ready K tid (length (concat (map event_input evs))) c s"
    and "Buffer_inv (conn_inputBuffer (conns s c))" "Buffer_abs (conn_inputBuffer (conns s c)) = []"
    and "Buffer_size (conn_inputBuffer (conns s c)) + length (concat (map event_input evs)) \<le> vector_max_size"
    and "reports K (echo_turn K tid tmp alloc l) l c evs s"
  shows "aborts_or (\<lambda>s'. sent (kern s') (ch_fd (chan_of c s')) @ Buffer_abs (conn_outputBuffer (conns s' c)) =
        sent (kern s) (ch_fd (chan_of c s)) @ Buffer_abs (conn_outputBuffer (conns s c)) @ concat (map event_input evs) \<and>
      Buffer_abs (conn_inputBuffer (conns s' c)) = [] \<and> conn_state (conns s' c) = kConnected \<and> conn_served l c s')
    (res_iter (\<lambda>_. echo_turn K tid tmp alloc l) evs s)"
proof -
  have "echo_idle K tid (length (concat (map event_input evs)) + 0) l c s" using assms(2-6) by (simp add: echo_idle_def)
  from polling_kernel.echo_session [OF assms(1) this assms(7)] show ?thesis
    by (rule aborts_or_mono) (simp add: echo_idle_def conn_ready_def conn_stream_def, metis)
qed

text \<open>A kernel whose peer sends the same four bytes again and again.\<close>

definition pinging_kernel :: "ref_state kernel" where
  "pinging_kernel = ref_kernel\<lparr>epoll_wait := \<lambda>ep n k. (Inr [(EPOLLIN, 1)], k), sys_read := \<lambda>f n k. (Inr (take n ''ping''), k)\<rparr>"

interpretation pk: polling_kernel pinging_kernel rk_interest rk_sent
  by unfold_locales (auto simp: pinging_kernel_def ref_defs min_def split: if_splits list.splits ctl_op.splits)

lemma pinging_reports:
  fixes s :: "(ref_state, 'a) server_scheme"
  assumes "echo_idle pinging_kernel tid (length (concat (map event_input (replicate n (Some ''ping''))))) l c s"
    and "conn_channel (conns s c) = 1"
  shows "reports pinging_kernel (echo_turn pinging_kernel tid tmp alloc l) l c (replicate n (Some ''ping'')) s"
  using assms
proof (induction n arbitrary: s)
  case (Suc n)
  let ?turn = "echo_turn pinging_kernel tid tmp alloc l"
  have wait: "epoll_wait pinging_kernel (epollfd (loops s l)) (poller_events_size (loops s l)) (kern s) =
      (Inr [(EPOLLIN, conn_channel (conns s c))], kern s)"
    using Suc.prems(2) by (simp add: pinging_kernel_def)
  have clock: "sys_gettimeofday pinging_kernel (kern s) = ((0, 0), kern s)" by (simp add: pinging_kernel_def ref_defs)
  have read: "sys_read pinging_kernel (ch_fd (chan_of c s)) (readv_capacity (conn_inputBuffer (conns s c))) (kern s) =
      (Inr ''ping'', kern s)"
    by (simp add: pinging_kernel_def readv_capacity_def Let_def extrabuf_size_def)
  let ?m = "length (concat (map event_input (replicate n (Some ''ping''))))"
  have idle: "echo_idle pinging_kernel tid (length (concat (map event_input [Some ''ping''])) + ?m) l c s" using Suc.prems(1) by simp
  have "reports pinging_kernel ?turn l c [Some ''ping''] s" using wait clock read by simp
  from pk.echo_session [OF idle this] have
    "aborts_or (\<lambda>s'. reports pinging_kernel ?turn l c (replicate n (Some ''ping'')) s') (?turn s)"
    using Suc.IH Suc.prems(2) by (auto elim!: aborts_or_mono)
  then have "\<forall>s'. ?turn s = Inr s' \<longrightarrow> reports pinging_kernel ?turn l c (replicate n (Some ''ping'')) s'" by auto
  moreover have "\<exists>k1 ts us k2. epoll_wait pinging_kernel (epollfd (loops s l)) (poller_events_size (loops s l)) (kern s) =
      (Inr [(EPOLLIN, conn_channel (conns s c))], k1) \<and> sys_gettimeofday pinging_kernel k1 = ((ts, us), k2) \<and>
      (\<exists>k3. sys_read pinging_kernel (ch_fd (chan_of c s)) (readv_capacity (conn_inputBuffer (conns s c))) k2 = (Inr ''ping'', k3))"
    using wait clock read by metis
  ultimately show ?case unfolding replicate_Suc reports.simps by simp
qed simp

definition sample_session :: "ref_state server" where
  "sample_session = sample_blank\<lparr>chans := (\<lambda>_. sample_chan\<lparr>ch_readCallback := Some (H_TcpConnection_handleRead 1),
       ch_writeCallback := Some (H_TcpConnection_handleWrite 1)\<rparr>), srv_connections := [''c'' \<mapsto> 1],
     conns := (\<lambda>_. sample_conn\<lparr>conn_hasWriteCompleteCallback := False, conn_hasHighWaterMarkCallback := False\<rparr>)\<rparr>"

lemmas sample_session_defs = sample_session_def sample_blank_def sample_defs

lemma sample_session_idle: "echo_idle pinging_kernel 100 12 0 1 sample_session"
  by (auto simp: echo_idle_def conn_served_def conn_ready_def conn_ok_def conn_room_def link_up_def sample_session_defs
      pinging_kernel_def ref_defs Buffer_chunk_def limit_defs InitialPrependSize_def EWOULDBLOCK_def EPIPE_def ECONNRESET_def
      split: list.splits)

theorem EchoServer_session_witness:
  "aborts_or (\<lambda>s'. rk_sent (kern s') (ch_fd (chan_of 1 s')) @ Buffer_abs (conn_outputBuffer (conns s' 1)) = ''pingpingping'' \<and>
      Buffer_abs (conn_inputBuffer (conns s' 1)) = [] \<and> conn_state (conns s' 1) = kConnected \<and> conn_served 0 1 s')
    (res_iter (\<lambda>_. echo_turn pinging_kernel 100 3 (\<lambda>s. (6, 6)) 0) (replicate 3 (Some ''ping'')) sample_session)"
proof -
  have n: "length (concat (map event_input (replicate 3 (Some ''ping'')))) = 12" by (simp add: eval_nat_numeral)
  have "reports pinging_kernel (echo_turn pinging_kernel 100 3 (\<lambda>s. (6, 6)) 0) 0 1 (replicate 3 (Some ''ping'')) sample_session"
  proof (rule pinging_reports)
    show "echo_idle pinging_kernel 100 (length (concat (map event_input (replicate 3 (Some ''ping''))))) 0 1 sample_session"
      unfolding n by (rule sample_session_idle)
    show "conn_channel (conns sample_session 1) = 1" by (simp add: sample_session_defs)
  qed
  moreover have "rk_sent (kern sample_session) (ch_fd (chan_of 1 sample_session)) @
      Buffer_abs (conn_outputBuffer (conns sample_session 1)) @ concat (map event_input (replicate 3 (Some ''ping''))) = ''pingpingping''"
    by (simp add: sample_session_defs eval_nat_numeral)
  ultimately show ?thesis
    using EchoServer_session [OF pk.polling_kernel_axioms, of 0 1 sample_session 100 "replicate 3 (Some ''ping'')" 3 "\<lambda>s. (6, 6)"]
      sample_session_idle unfolding n by (simp add: echo_idle_def)
qed

end
