(* ===== verification/Net_Handover.thy ===== *)
theory Net_Handover
  imports Net_Lifecycle
begin

unbundle bit_operations_syntax

text \<open>
  The life of a connection of a server with loop threads: the listening socket belongs to the base loop \<open>l\<close>, the connection to
  another loop \<open>m\<close> with a thread of its own. The two loops reach each other only through functors and the eventfd that wakes
  the other loop up. One turn of a loop is taken after the other here; the other loop waits in \<open>epoll_wait\<close> meanwhile.
\<close>

section \<open>Being woken up\<close>

text \<open>The wake-up channel of a loop as its constructor leaves it.\<close>

definition wake_channel :: "loop \<Rightarrow> ('k, 'a) world_scheme \<Rightarrow> bool" where
  "wake_channel l w \<longleftrightarrow> ch_readCallback (chans w (wakeupChannel (loops w l))) = Some (H_EventLoop_handleRead l) \<and>
     \<not> ch_tied (chans w (wakeupChannel (loops w l)))"

text \<open>The loop \<open>l\<close> has been woken up: only what polling and the read of the eventfd change has changed.\<close>

definition woken :: "('k \<Rightarrow> fd \<Rightarrow> fd \<rightharpoonup> epoll_event) \<Rightarrow> loop \<Rightarrow> ('k, 'a) world_scheme \<Rightarrow> ('k, 'a) world_scheme \<Rightarrow> bool" where
  "woken interest l w w' \<longleftrightarrow> conns w' = conns w \<and> world.more w' = world.more w \<and> interest (kern w') = interest (kern w) \<and>
     chans w' = (chans w)(wakeupChannel (loops w l) := (chans w (wakeupChannel (loops w l)))\<lparr>ch_revents := EPOLLIN\<rparr>) \<and>
     (\<forall>n. threadId (loops w' n) = threadId (loops w n) \<and> wakeupFd (loops w' n) = wakeupFd (loops w n) \<and>
        wakeupChannel (loops w' n) = wakeupChannel (loops w n) \<and> epollfd (loops w' n) = epollfd (loops w n) \<and>
        poller_channels (loops w' n) = poller_channels (loops w n) \<and> pendingFunctors (loops w' n) = pendingFunctors (loops w n))"

lemma EventLoop_handleRead_more [simp]: "world.more (EventLoop_handleRead K l w) = world.more w"
  by (simp add: EventLoop_handleRead_def split: prod.split)

lemma polled_wakeupChannel: "polled l ch ev k w wp \<Longrightarrow> wakeupChannel (loops wp n) = wakeupChannel (loops w n)"
  by (auto simp: polled_def)

context polling_kernel
begin

lemma handleRead_interest: "interest (kern (EventLoop_handleRead K l w)) = interest (kern w)"
  by (auto simp: EventLoop_handleRead_def split: prod.split dest: read_interest)

lemma EventLoop_turn_woken:
  assumes "wake_channel l s"
    and wait: "epoll_wait K (epollfd (loops s l)) (poller_events_size (loops s l)) (kern s) = (Inr [(EPOLLIN, wakeupChannel (loops s l))], k1)"
    and clock: "sys_gettimeofday K k1 = ((ts, us), k2)"
  obtains sw where "woken interest l s sw"
    "EventLoop_turn K (Server_call K U alloc tid) conn_held (Server_exec K U wc hw tid) l s =
      EventLoop_doPendingFunctors (Server_exec K U wc hw tid) l sw"
proof -
  let ?call = "Server_call K U alloc tid (ts * kMicroSecondsPerSecond + us)" and ?ch = "wakeupChannel (loops s l)"
  obtain sp where sp: "polled l ?ch EPOLLIN k2 s sp" and run:
    "EventLoop_turn K (Server_call K U alloc tid) conn_held (Server_exec K U wc hw tid) l s =
      rbind (Channel_handleEvent ?call conn_held ?ch sp) (EventLoop_doPendingFunctors (Server_exec K U wc hw tid) l)"
    using EventLoop_turn_single [OF wait clock, of "Server_call K U alloc tid" conn_held "Server_exec K U wc hw tid"] by blast
  note frame = polled_frame [OF sp] polled_wakeupChannel [OF sp]
  have "chan_open conn_held ?ch sp" using assms(1) frame by (simp add: chan_open_def wake_channel_def)
  then have "Channel_handleEvent ?call conn_held ?ch sp = Inr (EventLoop_handleRead K l sp)"
    using handleEventWithGuard_input [where call = ?call and ch = ?ch and w = sp and h = "H_EventLoop_handleRead l"] assms(1) frame
    by (simp add: handleEvent_open wake_channel_def)
  moreover have "woken interest l s (EventLoop_handleRead K l sp)"
    using sp frame poll_kernel(2) [OF wait clock] by (simp add: woken_def handleRead_interest polled_def)
  ultimately show thesis using run by (intro that) simp_all
qed

end

section \<open>Handing a new connection over\<close>

text \<open>The server listens in the thread \<open>tid\<close> of its base loop, and the next connection goes to the loop \<open>m\<close> of another thread.\<close>

definition server_dispatches :: "loop \<Rightarrow> int \<Rightarrow> loop \<Rightarrow> ('k, 'a) server_scheme \<Rightarrow> bool" where
  "server_dispatches l tid m s \<longleftrightarrow> ch_readCallback (chans s (acc_chan s)) = Some H_Acceptor_handleRead \<and>
     \<not> ch_tied (chans s (acc_chan s)) \<and> acc_hasNewConnectionCallback s \<and> srv_hasConnectionCallback s \<and>
     srv_hasMessageCallback s \<and> \<not> srv_hasWriteCompleteCallback s \<and> srv_nextConnId s < INT_MAX \<and>
     (\<exists>p. EventLoopThreadPool_getNextLoop (srv_pool s) = Inr (m, p)) \<and> m \<noteq> l \<and>
     threadId (loops s l) = tid \<and> threadId (loops s m) \<noteq> tid \<and> pendingFunctors (loops s l) = [] \<and> pendingFunctors (loops s m) = []"

text \<open>The connection is filed and made for the loop \<open>m\<close>, which has been asked to establish it.\<close>

definition handed :: "loop \<Rightarrow> conn \<Rightarrow> chan \<Rightarrow> fd \<Rightarrow> ('k, 'a) server_scheme \<Rightarrow> ('k, 'a) server_scheme \<Rightarrow> bool" where
  "handed m c ch f s s' \<longleftrightarrow>
     srv_connections s' = (srv_connections s)(server_connName (srv_name s) (srv_ipPort s) (srv_nextConnId s) \<mapsto> c) \<and>
     (\<exists>loc peer. conns s' = (conns s)(c := young_conn kConnecting m
        (server_connName (srv_name s) (srv_ipPort s) (srv_nextConnId s)) f ch loc peer
        (srv_hasMessageCallback s) (srv_hasWriteCompleteCallback s))) \<and>
     chans s' = (chans s)(acc_chan s := (chans s (acc_chan s))\<lparr>ch_revents := EPOLLIN\<rparr>, ch := young_chan m f c) \<and>
     (\<forall>n. threadId (loops s' n) = threadId (loops s n) \<and> wakeupFd (loops s' n) = wakeupFd (loops s n) \<and>
        wakeupChannel (loops s' n) = wakeupChannel (loops s n) \<and> epollfd (loops s' n) = epollfd (loops s n) \<and>
        pendingFunctors (loops s' n) = pendingFunctors (loops s n) @ (if n = m then [F_connectEstablished c] else []))"

lemma queueInLoop_wakeupChannel:
  "wakeupChannel (loops (EventLoop_queueInLoop K tid l F w) n) = wakeupChannel (loops w n)"
  "wakeupFd (loops (EventLoop_queueInLoop K tid l F w) n) = wakeupFd (loops w n)"
  "epollfd (loops (EventLoop_queueInLoop K tid l F w) n) = epollfd (loops w n)"
  by (simp_all add: queue_defs EventLoop_wakeup_def split: prod.split)

lemma handover_turn:
  assumes disp: "server_dispatches l tid m s"
    and wait: "epoll_wait K (epollfd (loops s l)) (poller_events_size (loops s l)) (kern s) = (Inr [(EPOLLIN, acc_chan s)], k1)"
    and clock: "sys_gettimeofday K k1 = ((ts, us), k2)"
    and acc: "sys_accept4 K (acc_fd s) k2 = (Inr (f, peer), k3)" "0 \<le> f"
    and alloc: "\<And>s'. alloc s' = (c, ch)" "ch \<noteq> acc_chan s"
  shows "\<exists>s'. EventLoop_turn K (Server_call K U alloc tid) conn_held (Server_exec K U wc hw tid) l s = Inr s' \<and> handed m c ch f s s'"
proof -
  let ?new = "\<lambda>sp. TcpServer_newConnection K (server_callbacks K tid U) tid c ch f peer (sp\<lparr>kern := k3\<rparr>)"
  obtain p where p: "EventLoopThreadPool_getNextLoop (srv_pool s) = Inr (m, p)" using disp by (auto simp: server_dispatches_def)
  have new: "\<exists>s'. ?new sp = Inr s' \<and> handed m c ch f s s'" if sp: "polled l (acc_chan s) EPOLLIN k2 s sp" for sp
  proof -
    note fr = polled_frame [OF sp] polled_wakeupChannel [OF sp] more_server_fields [OF polled_world(4) [OF sp]]
      more_server_flags [OF polled_world(4) [OF sp]]
    let ?s = "sp\<lparr>kern := k3\<rparr>" and ?name = "server_connName (srv_name s) (srv_ipPort s) (srv_nextConnId s)"
    have pre: "EventLoopThreadPool_getNextLoop (srv_pool ?s) = Inr (m, p)" "srv_nextConnId ?s < INT_MAX" "srv_hasConnectionCallback ?s"
      using disp p fr by (simp_all add: server_dispatches_def)
    obtain s5 a where run: "?new sp =
        EventLoop_runInLoop K tid m (F_connectEstablished c) (TcpConnection_connectEstablished K (server_callbacks K tid U) c) s5"
      and s5: "srv_connections s5 = (srv_connections ?s)(server_connName (srv_name ?s) (srv_ipPort ?s) (srv_nextConnId ?s) \<mapsto> c)"
        "loops s5 = loops ?s" "chans s5 = (chans ?s)(ch := young_chan m f c)"
        "conns s5 = (conns ?s)(c := young_conn kConnecting m (server_connName (srv_name ?s) (srv_ipPort ?s) (srv_nextConnId ?s)) f ch a peer
          (srv_hasMessageCallback ?s) (srv_hasWriteCompleteCallback ?s))"
      by (rule newConnection_prepares [OF pre])
    let ?s' = "EventLoop_queueInLoop K tid m (F_connectEstablished c) s5"
    have "?new sp = Inr ?s'"
      using run s5(2) disp fr by (simp add: EventLoop_runInLoop_def EventLoop_isInLoopThread_def server_dispatches_def)
    moreover have "srv_connections ?s' = srv_connections s5" by (rule more_server_fields(1)) simp
    moreover have "chans sp = (chans s)(acc_chan s := (chans s (acc_chan s))\<lparr>ch_revents := EPOLLIN\<rparr>)" using sp by (simp add: polled_def)
    ultimately show ?thesis
      using s5 fr by (simp add: handed_def queueInLoop_wakeupChannel queueInLoop_pending_at) blast
  qed
  have kept: "ch_revents (chans s' (acc_chan s)) = EPOLLIN" if "polled l (acc_chan s) EPOLLIN k2 s sp" "?new sp = Inr s'" for sp s'
    using new [OF that(1)] that(2) alloc(2) by (auto simp: handed_def)
  have acceptor: "ch_readCallback (chans s (acc_chan s)) = Some H_Acceptor_handleRead" "\<not> ch_tied (chans s (acc_chan s))"
      "acc_hasNewConnectionCallback s"
    using disp by (simp_all add: server_dispatches_def)
  obtain sp where sp: "polled l (acc_chan s) EPOLLIN k2 s sp" and run:
    "EventLoop_turn K (Server_call K U alloc tid) conn_held (Server_exec K U wc hw tid) l s =
      rbind (?new sp) (EventLoop_doPendingFunctors (Server_exec K U wc hw tid) l)"
    by (rule EventLoop_turn_accept [where U = U and tid = tid, OF acceptor wait clock acc alloc(1)]) (rule kept)
  obtain s1 where s1: "?new sp = Inr s1" "handed m c ch f s s1" using new [OF sp] by blast
  then have "pendingFunctors (loops s1 l) = []" using disp by (simp add: handed_def server_dispatches_def)
  from doPendingFunctors_empty [OF this, of "Server_exec K U wc hw tid"] obtain s2 where
    s2: "EventLoop_doPendingFunctors (Server_exec K U wc hw tid) l s1 = Inr s2" "conns s2 = conns s1" "chans s2 = chans s1"
      "world.more s2 = world.more s1" "loops s2 = (loops s1)(l := (loops s1 l)\<lparr>callingPendingFunctors := False\<rparr>)"
    by blast
  have "handed m c ch f s s2" using s1(2) s2(2,3,5) more_server_fields(1) [OF s2(4)] by (simp add: handed_def)
  then show ?thesis using run s1(1) s2(1) by simp
qed

context quiet_server
begin

text \<open>The loop that has been asked establishes the connection when it wakes up.\<close>

lemma establish_functor:
  assumes hand: "handed m c ch f s s1" and wok: "woken interest m s1 sw" and ch: "ch \<noteq> wakeupChannel (loops s m)"
    and none: "pendingFunctors (loops s m) = []"
  shows "aborts_or (\<lambda>s'. \<exists>s0. established interest m c ch f s0 s' \<and> kern s0 = kern s \<and> loops s0 = loops s \<and> world.more s0 = world.more s)
    (EventLoop_doPendingFunctors (Server_exec K U wc hw tid) m sw)"
proof -
  let ?name = "server_connName (srv_name s) (srv_ipPort s) (srv_nextConnId s)"
  let ?wk = "wakeupChannel (loops s m)"
  define s0 where "s0 = s\<lparr>chans := (chans s)(acc_chan s := (chans s (acc_chan s))\<lparr>ch_revents := EPOLLIN\<rparr>,
      ?wk := (chans s1 ?wk)\<lparr>ch_revents := EPOLLIN\<rparr>)\<rparr>"
  note more = more_server_fields(1) [of sw s1]
  obtain loc peer where conns: "conns sw = (conns s)(c := young_conn kConnecting m ?name f ch loc peer
      (srv_hasMessageCallback s) (srv_hasWriteCompleteCallback s))"
    using hand wok by (auto simp: handed_def woken_def)
  let ?s2 = "upd_loop m (\<lambda>p. p\<lparr>callingPendingFunctors := True, pendingFunctors := []\<rparr>) sw"
  let ?s3 = "upd_chan ch (Channel_tie c) (TcpConnection_setState kConnected c ?s2)"
  have chs: "chans ?s2 ch = young_chan m f c" "chans ?s3 = (chans s0)(ch := (young_chan m f c)\<lparr>ch_tie := Some c, ch_tied := True\<rparr>)"
    using hand wok ch by (auto simp: handed_def woken_def s0_def TcpConnection_setState_def Channel_tie_def)
  have c2: "conn_channel (conns ?s2 c) = ch" "conn_hasConnectionCallback (conns ?s2 c)" using conns by (simp_all add: young_conn_def)
  have idx: "ch_index (chan_of c ?s2) = kNew" "ch_events (chan_of c ?s2) OR kReadEvent = kReadEvent"
    using chs(1) c2(1) by (simp_all add: young_chan_def Channel_ctor_def kNew_def)
  have pend: "pendingFunctors (loops sw m) = [F_connectEstablished c]" using hand wok none by (simp add: handed_def woken_def)
  show ?thesis
    unfolding doPendingFunctors_single [OF pend] Server_exec.simps
  proof (rule aborts_or_rbind [OF connectEstablished_effect [OF c2(2) idx(1), of tid, unfolded c2(1)]])
    fix s' assume "set_events_post interest ch (ch_events (chans ?s2 ch) OR kReadEvent) ?s3 s' \<and> ch_index (chans s' ch) \<noteq> kNew"
    then have post: "set_events_post interest ch kReadEvent ?s3 s'" "ch_index (chans s' ch) \<noteq> kNew" using idx(2) c2(1) by auto
    have "chans ?s3 ch = (young_chan m f c)\<lparr>ch_tie := Some c, ch_tied := True\<rparr>" using chs(2) by simp
    note new = set_events_post_new [OF post this]
    have same: "same_but_chan ch ?s3 s'" using post(1) by (simp add: set_events_post_def)
    note fields = same_but_chan_fields [OF same]
    let ?s' = "doPendingFunctors_done m s'"
    have "world.more ?s' = world.more sw" using fields(10) by (simp add: doPendingFunctors_done_def TcpConnection_setState_def)
    then have tab: "srv_connections ?s' = (srv_connections s)(?name \<mapsto> c)"
      using more_server_fields(1) [of ?s' sw] more hand wok by (simp add: handed_def woken_def)
    have lps: "threadId (loops ?s' n) = threadId (loops s0 n) \<and> wakeupFd (loops ?s' n) = wakeupFd (loops s0 n) \<and>
        epollfd (loops ?s' n) = epollfd (loops s0 n) \<and> pendingFunctors (loops ?s' n) = pendingFunctors (loops s0 n)" for n
      using fields hand wok none by (auto simp: doPendingFunctors_done_def TcpConnection_setState_def handed_def woken_def s0_def)
    have "conns ?s' = (conns s0)(c := young_conn kConnected m (server_connName (srv_name s0) (srv_ipPort s0) (srv_nextConnId s0)) f ch loc peer
        (srv_hasMessageCallback s0) (srv_hasWriteCompleteCallback s0))"
      using fields conns by (simp add: doPendingFunctors_done_def TcpConnection_setState_def young_conn_def s0_def)
    moreover have "chans ?s' = (chans s0)(ch := (young_chan m f c)\<lparr>ch_events := kReadEvent, ch_index := kAdded, ch_tie := Some c, ch_tied := True\<rparr>)"
      using new(1) chs(2) by (simp add: doPendingFunctors_done_def)
    moreover have "poller_channels (loops ?s' m) f = Some ch" "interest (kern ?s') (epollfd (loops ?s' m)) f = Some (kReadEvent, ch)"
      using new(2,3) by (simp_all add: doPendingFunctors_done_def)
    ultimately have "established interest m c ch f s0 ?s'" using tab lps unfolding established_def by (simp add: s0_def) blast
    then show "aborts_or (\<lambda>s'. \<exists>s0. established interest m c ch f s0 s' \<and> kern s0 = kern s \<and> loops s0 = loops s \<and> world.more s0 = world.more s)
        (Inr ?s')"
      by (auto simp: s0_def intro!: exI [of _ s0])
  qed
qed

end

section \<open>Handing a closed connection back\<close>

text \<open>
  A connection that is being taken apart: disconnected, its channel without events; \<open>q n\<close> is what the turns so far have left
  in the queue of the loop \<open>n\<close>. Names, threads and wake-up channels are those of the beginning.
\<close>

definition leaving ::
    "('k \<Rightarrow> fd \<Rightarrow> fd \<rightharpoonup> epoll_event) \<Rightarrow> conn \<Rightarrow> (loop \<Rightarrow> Functor list) \<Rightarrow> ('k, 'a) server_scheme \<Rightarrow> ('k, 'a) server_scheme \<Rightarrow> bool" where
  "leaving interest c q s s' \<longleftrightarrow> conn_state (conns s' c) = kDisconnected \<and> conn_channel (conns s' c) = conn_channel (conns s c) \<and>
     conn_name (conns s' c) = conn_name (conns s c) \<and> conn_loop (conns s' c) = conn_loop (conns s c) \<and>
     srv_pool s' = srv_pool s \<and> srv_loop s' = srv_loop s \<and> chan_ok interest (conn_channel (conns s c)) s' \<and>
     interest (kern s') (epollfd (loops s (ch_loop (chan_of c s)))) (ch_fd (chan_of c s)) = None \<and>
     (\<forall>d. ch_readCallback (chans s' d) = ch_readCallback (chans s d) \<and> ch_tied (chans s' d) = ch_tied (chans s d)) \<and>
     (\<forall>n. threadId (loops s' n) = threadId (loops s n) \<and> wakeupChannel (loops s' n) = wakeupChannel (loops s n) \<and>
        epollfd (loops s' n) = epollfd (loops s n) \<and> pendingFunctors (loops s' n) = q n)"

lemma leaving_wake: "leaving interest c q s s' \<Longrightarrow> wake_channel l s' = wake_channel l s"
  by (simp add: leaving_def wake_channel_def)

lemma more_upd_connections:
  fixes s t :: "('k, 'a) server_scheme"
  assumes "world.more t = world.more (s\<lparr>srv_connections := m\<rparr>)"
  shows "srv_connections t = m" "srv_pool t = srv_pool s" "srv_loop t = srv_loop s"
  using more_server_fields [OF assms] by simp_all

lemma same_but_chan_dispatch:
  assumes "same_but_chan c w w'"
  shows "ch_readCallback (chans w' d) = ch_readCallback (chans w d)" "ch_tied (chans w' d) = ch_tied (chans w d)"
    "wakeupChannel (loops w' l) = wakeupChannel (loops w l)"
proof -
  obtain ev ix where "chans w' c = (chans w c)\<lparr>ch_events := ev, ch_index := ix\<rparr>"
    using assms unfolding same_but_chan_def by blast
  then show "ch_readCallback (chans w' d) = ch_readCallback (chans w d)" "ch_tied (chans w' d) = ch_tied (chans w d)"
    using assms unfolding same_but_chan_def by (cases "d = c"; simp)+
  obtain pc where "loops w' l = (loops w l)\<lparr>poller_channels := pc\<rparr>"
    using assms unfolding same_but_chan_def by blast
  then show "wakeupChannel (loops w' l) = wakeupChannel (loops w l)" by simp
qed

lemma woken_chan_ok:
  assumes "woken interest l w w'"
  shows "chan_ok interest d w' = chan_ok interest d w"
proof -
  have "ch_loop (chans w' d) = ch_loop (chans w d)" "ch_fd (chans w' d) = ch_fd (chans w d)"
    "ch_events (chans w' d) = ch_events (chans w d)" "ch_index (chans w' d) = ch_index (chans w d)"
    using assms by (simp_all add: woken_def)
  then show ?thesis using assms by (simp add: chan_ok_def Let_def woken_def)
qed

lemma woken_leaving:
  assumes "woken interest l s1 sw" "leaving interest c q s s1"
  shows "leaving interest c q s sw" "srv_connections sw = srv_connections s1"
proof -
  have more: "world.more sw = world.more s1" using assms(1) by (simp add: woken_def)
  note srv = more_server_fields [OF more]
  have "chan_ok interest (conn_channel (conns s c)) sw"
    using assms(2) by (simp add: woken_chan_ok [OF assms(1)] leaving_def)
  then show "leaving interest c q s sw" using assms srv by (simp add: leaving_def woken_def)
  show "srv_connections sw = srv_connections s1" by (rule srv(1))
qed

context quiet_server
begin

lemma handleClose_leaves:
  assumes ok: "chan_ok interest (conn_channel (conns s c)) s" "ch_index (chan_of c s) = kAdded"
    and cb: "conn_hasConnectionCallback (conns s c)" "conn_hasCloseCallback (conns s c)"
    and tid: "threadId (loops s (srv_loop s)) \<noteq> tid"
  shows "\<exists>s'. TcpConnection_handleClose K (server_callbacks K tid U) c s = Inr s' \<and>
    leaving interest c (\<lambda>n. pendingFunctors (loops s n) @ (if n = srv_loop s then [F_removeConnectionInLoop c] else [])) s s' \<and>
    srv_connections s' = srv_connections s \<and> (\<forall>d. ch_revents (chans s' d) = ch_revents (chans s d))"
proof -
  let ?ch = "conn_channel (conns s c)"
  obtain s1 where run: "TcpConnection_handleClose K (server_callbacks K tid U) c s = TcpServer_removeConnection K tid c s1"
    and same: "same_but_chan ?ch (TcpConnection_setState kDisconnected c s) s1" and ok1: "chan_ok interest ?ch s1"
      "interest (kern s1) (epollfd (loops s (ch_loop (chan_of c s)))) (ch_fd (chan_of c s)) = None"
    by (rule handleClose_runs [OF ok cb])
  note fr = same_but_chan_fields [OF same] same_but_chan_revents [OF same] same_but_chan_dispatch [OF same]
  have more: "world.more s1 = world.more s" using fr(10) by (simp add: TcpConnection_setState_def)
  note fs = more_server_fields [OF more]
  let ?s' = "EventLoop_queueInLoop K tid (srv_loop s) (F_removeConnectionInLoop c) s1"
  have "TcpServer_removeConnection K tid c s1 = Inr ?s'"
    using fr fs tid by (simp add: TcpServer_removeConnection_def EventLoop_runInLoop_def EventLoop_isInLoopThread_def TcpConnection_setState_def)
  moreover have "world.more ?s' = world.more s1" by simp
  note more_server_fields [OF this]
  ultimately show ?thesis
    using fr fs ok1 unfolding run
    by (simp add: leaving_def queueInLoop_wakeupChannel queueInLoop_pending_at queueInLoop_interest TcpConnection_setState_def)
qed

text \<open>First turn, in the connection's loop: the peer has closed.\<close>

lemma leave_turn:
  assumes served: "conn_served m c s" and inv: "Buffer_inv (conn_inputBuffer (conns s c))"
      "Buffer_size (conn_inputBuffer (conns s c)) \<le> vector_max_size"
    and ok: "chan_ok interest (conn_channel (conns s c)) s" "ch_index (chan_of c s) = kAdded"
    and cb: "conn_hasConnectionCallback (conns s c)" "conn_hasCloseCallback (conns s c)"
    and tid: "threadId (loops s m) = tid" "threadId (loops s (srv_loop s)) \<noteq> tid"
    and wait: "epoll_wait K (epollfd (loops s m)) (poller_events_size (loops s m)) (kern s) =
      (Inr [(EPOLLIN, conn_channel (conns s c))], k1)"
    and clock: "sys_gettimeofday K k1 = ((ts, us), k2)"
    and eof: "sys_read K (ch_fd (chan_of c s)) (readv_capacity (conn_inputBuffer (conns s c))) k2 = (Inr [], k3)"
  shows "\<exists>s'. EventLoop_turn K (Server_call K U alloc tid) conn_held (Server_exec K U wc hw tid) m s = Inr s' \<and>
    leaving interest c (\<lambda>n. pendingFunctors (loops s n) @ (if n = srv_loop s then [F_removeConnectionInLoop c] else [])) s s' \<and>
    srv_connections s' = srv_connections s"
proof -
  let ?ch = "conn_channel (conns s c)" and ?t = "ts * kMicroSecondsPerSecond + us"
  let ?q = "\<lambda>n. pendingFunctors (loops s n) @ (if n = srv_loop s then [F_removeConnectionInLoop c] else [])"
  have k3: "interest k3 = interest (kern s)"
    using wait_interest [OF wait] clock_interest [OF clock] read_interest [OF eof] by simp
  have close: "\<exists>s'. TcpConnection_handleRead K (server_callbacks K tid U) c ?t sp = Inr s' \<and> leaving interest c ?q s s' \<and>
      srv_connections s' = srv_connections s \<and> ch_revents (chans s' ?ch) = EPOLLIN"
    if sp: "polled m ?ch EPOLLIN k2 s sp" for sp
  proof -
    note fr = polled_frame [OF sp] polled_wakeupChannel [OF sp] more_server_fields [OF polled_world(4) [OF sp]]
    have "Buffer_inv (conn_inputBuffer (conns sp c))" "Buffer_size (conn_inputBuffer (conns sp c)) \<le> vector_max_size"
      "sys_read K (ch_fd (chan_of c sp)) (readv_capacity (conn_inputBuffer (conns sp c))) (kern sp) = (Inr [], k3)"
      using inv eof fr by simp_all
    then obtain b where b: "TcpConnection_handleRead K (server_callbacks K tid U) c ?t sp =
        TcpConnection_handleClose K (server_callbacks K tid U) c (with_input c b (sp\<lparr>kern := k3\<rparr>))"
      by (rule handleRead_eof)
    let ?w = "with_input c b (sp\<lparr>kern := k3\<rparr>)"
    have pre: "chan_ok interest (conn_channel (conns ?w c)) ?w" "ch_index (chan_of c ?w) = kAdded"
      "conn_hasConnectionCallback (conns ?w c)" "conn_hasCloseCallback (conns ?w c)" "threadId (loops ?w (srv_loop ?w)) \<noteq> tid"
      using ok k3 fr cb tid by (simp_all add: chan_ok_def Let_def)
    show ?thesis
      using handleClose_leaves [OF pre] fr unfolding b by (auto simp: leaving_def)
  qed
  then have kept: "ch_revents (chans s' ?ch) = EPOLLIN" if "polled m ?ch EPOLLIN k2 s sp"
    "TcpConnection_handleRead K (server_callbacks K tid U) c ?t sp = Inr s'" for sp s'
    using that by fastforce
  obtain sp where sp: "polled m ?ch EPOLLIN k2 s sp" and run:
    "EventLoop_turn K (Server_call K U alloc tid) conn_held (Server_exec K U wc hw tid) m s =
      rbind (TcpConnection_handleRead K (server_callbacks K tid U) c ?t sp) (EventLoop_doPendingFunctors (Server_exec K U wc hw tid) m)"
    by (rule EventLoop_turn_input [where U = U and tid = tid, OF served wait clock]) (rule kept)
  obtain s1 where s1: "TcpConnection_handleRead K (server_callbacks K tid U) c ?t sp = Inr s1" "leaving interest c ?q s s1"
    "srv_connections s1 = srv_connections s" using close [OF sp] by blast
  have "pendingFunctors (loops s1 m) = []" using s1(2) served tid by (auto simp: leaving_def conn_served_def)
  from doPendingFunctors_empty [OF this, of "Server_exec K U wc hw tid"] obtain s2 where
    s2: "EventLoop_doPendingFunctors (Server_exec K U wc hw tid) m s1 = Inr s2" "kern s2 = kern s1" "conns s2 = conns s1"
      "chans s2 = chans s1" "world.more s2 = world.more s1" "loops s2 = (loops s1)(m := (loops s1 m)\<lparr>callingPendingFunctors := False\<rparr>)"
    by blast
  have "chan_ok interest ?ch s2 = chan_ok interest ?ch s1" using s2 by (simp add: chan_ok_def Let_def)
  then have "leaving interest c ?q s s2"
    using s1(2) s2 more_server_fields [OF s2(5)] by (simp add: leaving_def)
  then show ?thesis using run s1 s2(1) more_server_fields(1) [OF s2(5)] by simp
qed

end

context polling_kernel
begin

text \<open>Second turn, in the base loop: the entry of the table goes.\<close>

lemma remove_turn:
  assumes lv: "leaving interest c q s s1" and q: "q l = [F_removeConnectionInLoop c]" and m: "conn_loop (conns s c) = m" "m \<noteq> l"
    and wake: "wake_channel l s"
    and wait: "epoll_wait K (epollfd (loops s1 l)) (poller_events_size (loops s1 l)) (kern s1) = (Inr [(EPOLLIN, wakeupChannel (loops s1 l))], k1)"
    and clock: "sys_gettimeofday K k1 = ((ts, us), k2)"
  shows "\<exists>s'. EventLoop_turn K (Server_call K U alloc tid) conn_held (Server_exec K U wc hw tid) l s1 = Inr s' \<and>
    leaving interest c (q(l := [], m := q m @ [F_connectDestroyed c])) s s' \<and>
    srv_connections s' = (srv_connections s1)(conn_name (conns s c) := None)"
proof -
  have "wake_channel l s1" using wake leaving_wake [OF lv] by simp
  then obtain sw where sw: "woken interest l s1 sw" and run:
    "EventLoop_turn K (Server_call K U alloc tid) conn_held (Server_exec K U wc hw tid) l s1 =
      EventLoop_doPendingFunctors (Server_exec K U wc hw tid) l sw"
    by (rule EventLoop_turn_woken [OF _ wait clock])
  note lw = woken_leaving [OF sw lv]
  have pend: "pendingFunctors (loops sw l) = [F_removeConnectionInLoop c]" using lw(1) q by (simp add: leaving_def)
  let ?s2 = "upd_loop l (\<lambda>p. p\<lparr>callingPendingFunctors := True, pendingFunctors := []\<rparr>) sw"
  let ?s3 = "?s2\<lparr>srv_connections := (srv_connections ?s2)(conn_name (conns s c) := None)\<rparr>"
  let ?s4 = "EventLoop_queueInLoop K tid m (F_connectDestroyed c) ?s3"
  let ?s5 = "doPendingFunctors_done l ?s4"
  have drain: "EventLoop_doPendingFunctors (Server_exec K U wc hw tid) l sw = Inr ?s5"
    using lw(1) m(1) by (simp add: doPendingFunctors_single [OF pend] TcpServer_removeConnectionInLoop_def leaving_def)
  have "world.more ?s5 = world.more ?s3" by (simp add: doPendingFunctors_done_def)
  note srv = more_server_fields [OF this]
  have "chan_ok interest (conn_channel (conns s c)) ?s5 = chan_ok interest (conn_channel (conns s c)) ?s3"
    unfolding doPendingFunctors_done_def by (subst chan_ok_upd_loop) simp_all
  also have "\<dots> = chan_ok interest (conn_channel (conns s c)) ?s2" by (simp add: chan_ok_def)
  also have "\<dots> = chan_ok interest (conn_channel (conns s c)) sw" by (rule chan_ok_upd_loop) simp_all
  finally have "chan_ok interest (conn_channel (conns s c)) ?s5" using lw(1) by (simp add: leaving_def)
  then have "leaving interest c (q(l := [], m := q m @ [F_connectDestroyed c])) s ?s5"
    using lw(1) m(2) srv(3,6)
    by (simp add: leaving_def doPendingFunctors_done_def queueInLoop_wakeupChannel queueInLoop_pending_at queueInLoop_interest)
  moreover have "srv_connections ?s5 = (srv_connections s1)(conn_name (conns s c) := None)" using srv(1) lw(2) by simp
  ultimately show ?thesis using drain unfolding run by blast
qed

end

context quiet_server
begin

text \<open>Third turn, in the connection's loop: the channel leaves the poller, and nobody holds the connection any more.\<close>

lemma destroy_turn:
  assumes lv: "leaving interest c q s s1" and q: "q m = [F_connectDestroyed c]" and tab: "c \<notin> ran (srv_connections s1)"
    and free: "\<And>n. n \<in> set (pool_baseLoop (srv_pool s) # pool_loops (srv_pool s)) \<Longrightarrow> n \<noteq> m \<Longrightarrow> q n = []"
    and wake: "wake_channel m s"
    and wait: "epoll_wait K (epollfd (loops s1 m)) (poller_events_size (loops s1 m)) (kern s1) = (Inr [(EPOLLIN, wakeupChannel (loops s1 m))], k1)"
    and clock: "sys_gettimeofday K k1 = ((ts, us), k2)"
  shows "\<exists>s'. EventLoop_turn K (Server_call K U alloc tid) conn_held (Server_exec K U wc hw tid) m s1 = Inr s' \<and>
    removed interest m c s' \<and> srv_connections s' = srv_connections s1"
proof -
  have "wake_channel m s1" using wake leaving_wake [OF lv] by simp
  then obtain sw where sw: "woken interest m s1 sw" and run:
    "EventLoop_turn K (Server_call K U alloc tid) conn_held (Server_exec K U wc hw tid) m s1 =
      EventLoop_doPendingFunctors (Server_exec K U wc hw tid) m sw"
    by (rule EventLoop_turn_woken [OF _ wait clock])
  note lw = woken_leaving [OF sw lv]
  show ?thesis
    unfolding run lw(2) [symmetric]
  proof (rule destroy_pending)
    show "c \<notin> ran (srv_connections sw)" using tab lw(2) by simp
    show "\<not> list_ex (functor_holds c) (pendingFunctors (loops sw n))"
      if "n \<in> set (pool_baseLoop (srv_pool sw) # pool_loops (srv_pool sw))" "n \<noteq> m" for n
      using free [of n] that lw(1) by (simp add: leaving_def)
  qed (use lw(1) q in \<open>simp_all add: leaving_def\<close>)
qed

end

section \<open>Properties\<close>

text \<open>A turn of the loop \<open>l\<close> in the thread \<open>tid\<close>; the wake-up of the loop, as its thread finds it reported in the state \<open>s'\<close>.\<close>

abbreviation server_turn ::
    "'k kernel \<Rightarrow> ('k, 'a) server_scheme callbacks \<Rightarrow> (('k, 'a) server_scheme \<Rightarrow> conn \<times> chan) \<Rightarrow> int \<Rightarrow> loop
      \<Rightarrow> ('k, 'a) server_scheme \<Rightarrow> ('k, 'a) server_scheme res" where
  "server_turn K U alloc tid l \<equiv> EventLoop_turn K (Server_call K U alloc tid) conn_held
     (Server_exec K U (\<lambda>c s. Inl BadFunctionCall) (\<lambda>c n s. Inl BadFunctionCall) tid) l"

definition wake_reported :: "'k kernel \<Rightarrow> loop \<Rightarrow> ('k, 'a) world_scheme \<Rightarrow> ('k, 'a) world_scheme \<Rightarrow> bool" where
  "wake_reported K l s s' \<longleftrightarrow> (\<exists>k1 ts us k2.
     epoll_wait K (epollfd (loops s l)) (poller_events_size (loops s' l)) (kern s') = (Inr [(EPOLLIN, wakeupChannel (loops s l))], k1) \<and>
     sys_gettimeofday K k1 = ((ts, us), k2))"

text \<open>
  C7. A new connection of a server with loop threads, from the kernel's event to the registration. In the turn of the base loop that
  accepts it, the connection is filed, made for the next loop of the pool and handed to that loop; in the turn in which that loop
  wakes up, in its own thread, it establishes the connection and registers its channel with its own
  poller. Afterwards it is this loop that serves the connection, which is ready to send from this loop's thread. The first turn
  cannot fail; the only failure of the second is the abort of a refused \<open>epoll_ctl\<close>.
\<close>

theorem TcpServer_threads_accept:
  assumes "quiet_server K interest sent V" "server_dispatches l tid m s" "wake_channel m s" "threadId (loops s m) = tid'"
    and "epoll_wait K (epollfd (loops s l)) (poller_events_size (loops s l)) (kern s) = (Inr [(EPOLLIN, acc_chan s)], k1)"
    and "sys_gettimeofday K k1 = ((ts, us), k2)"
    and "sys_accept4 K (acc_fd s) k2 = (Inr (f, peer), k3)" "0 \<le> f"
    and "\<And>s'. alloc s' = (c, ch)" "ch \<noteq> acc_chan s" "ch \<noteq> wakeupChannel (loops s m)"
    and "\<And>s1. server_turn K U alloc tid l s = Inr s1 \<Longrightarrow> wake_reported K m s s1"
    and "f \<noteq> wakeupFd (loops s m)" "link_up K f" "Buffer_size fresh_buffer + n \<le> Buffer_chunk"
  shows "\<exists>s1. server_turn K U alloc tid l s = Inr s1 \<and> aborts_or (\<lambda>s'. conn_served m c s' \<and> conn_ready K tid' n c s' \<and>
      srv_connections s' = (srv_connections s)(server_connName (srv_name s) (srv_ipPort s) (srv_nextConnId s) \<mapsto> c) \<and>
      poller_channels (loops s' m) f = Some ch \<and> interest (kern s') (epollfd (loops s' m)) f = Some (kReadEvent, ch))
    (server_turn K V alloc tid' m s1)"
proof -
  have poll: "polling_kernel K interest sent" using assms(1) by (simp add: quiet_server_def)
  obtain s1 where s1: "server_turn K U alloc tid l s = Inr s1" "handed m c ch f s s1"
    using handover_turn [where alloc = alloc, OF assms(2,5-10)] by blast
  obtain j1 ts' us' j2 where j: "epoll_wait K (epollfd (loops s1 m)) (poller_events_size (loops s1 m)) (kern s1) =
      (Inr [(EPOLLIN, wakeupChannel (loops s1 m))], j1)" "sys_gettimeofday K j1 = ((ts', us'), j2)"
    using assms(12) [OF s1(1)] s1(2) by (auto simp: wake_reported_def handed_def)
  have "wake_channel m s1" using assms(3,11) s1(2) by (auto simp: wake_channel_def handed_def)
  then obtain sw where sw: "woken interest m s1 sw" and run: "server_turn K V alloc tid' m s1 =
      EventLoop_doPendingFunctors (Server_exec K V (\<lambda>c s. Inl BadFunctionCall) (\<lambda>c n s. Inl BadFunctionCall) tid') m sw"
    by (rule polling_kernel.EventLoop_turn_woken [OF poll _ j])
  have none: "pendingFunctors (loops s m) = []" using assms(2) by (simp add: server_dispatches_def)
  show ?thesis
  proof (intro exI conjI)
    show "aborts_or (\<lambda>s'. conn_served m c s' \<and> conn_ready K tid' n c s' \<and>
        srv_connections s' = (srv_connections s)(server_connName (srv_name s) (srv_ipPort s) (srv_nextConnId s) \<mapsto> c) \<and>
        poller_channels (loops s' m) f = Some ch \<and> interest (kern s') (epollfd (loops s' m)) f = Some (kReadEvent, ch))
      (server_turn K V alloc tid' m s1)"
      unfolding run
    proof (rule aborts_or_mono [OF quiet_server.establish_functor [OF assms(1) s1(2) sw assms(11) none]], elim exE conjE)
      fix s' s0 assume est: "established interest m c ch f s0 s'" and s0: "loops s0 = loops s" "world.more s0 = world.more s"
      note srv = more_server_fields [OF s0(2)] more_server_flags [OF s0(2)]
      have "conn_served m c s'"
        using established_serves [OF est] assms(2) srv s0(1) by (simp add: server_dispatches_def)
      moreover have "conn_ready K tid' n c s'"
        using established_ready [OF est _ _ assms(14,15)] assms(4,13) s0(1) by simp
      moreover have "poller_channels (loops s' m) f = Some ch" "interest (kern s') (epollfd (loops s' m)) f = Some (kReadEvent, ch)"
        "srv_connections s' = (srv_connections s0)(server_connName (srv_name s0) (srv_ipPort s0) (srv_nextConnId s0) \<mapsto> c)"
        using est unfolding established_def by blast+
      ultimately show "conn_served m c s' \<and> conn_ready K tid' n c s' \<and>
          srv_connections s' = (srv_connections s)(server_connName (srv_name s) (srv_ipPort s) (srv_nextConnId s) \<mapsto> c) \<and>
          poller_channels (loops s' m) f = Some ch \<and> interest (kern s') (epollfd (loops s' m)) f = Some (kReadEvent, ch)"
        using srv by simp
    qed
  qed (rule s1(1))
qed

text \<open>
  C8. The end of such a connection takes three turns. When the peer has closed, the connection's own loop disconnects it, makes the kernel
  forget it, and asks the base loop to remove it; the base loop takes it out of the table and asks the connection's loop to destroy it; and
  that loop makes its poller forget the channel, in its own thread. None of the turns fails. Until the last one the connection is held, by the table or by a functor; after it nobody
  holds it, and the kernel and the poller know nothing of it.
\<close>

theorem TcpServer_threads_remove:
  assumes "quiet_server K interest sent V" "conn_served m c s" "server_inv s"
    and "Buffer_inv (conn_inputBuffer (conns s c))" "Buffer_size (conn_inputBuffer (conns s c)) \<le> vector_max_size"
    and "chan_ok interest (conn_channel (conns s c)) s" "ch_index (chan_of c s) = kAdded"
    and "conn_hasConnectionCallback (conns s c)" "conn_hasCloseCallback (conns s c)" "conn_loop (conns s c) = m"
    and "m \<in> set (pool_loops (srv_pool s))" "srv_loop s = l" "threadId (loops s l) = tid" "threadId (loops s m) = tid'" "tid' \<noteq> tid"
    and "\<And>n. n \<in> set (l # pool_baseLoop (srv_pool s) # pool_loops (srv_pool s)) \<Longrightarrow> pendingFunctors (loops s n) = []"
    and "wake_channel l s" "wake_channel m s"
    and "epoll_wait K (epollfd (loops s m)) (poller_events_size (loops s m)) (kern s) =
      (Inr [(EPOLLIN, conn_channel (conns s c))], k1)"
    and "sys_gettimeofday K k1 = ((ts, us), k2)"
    and "sys_read K (ch_fd (chan_of c s)) (readv_capacity (conn_inputBuffer (conns s c))) k2 = (Inr [], k3)"
    and "\<And>s1. server_turn K V alloc tid' m s = Inr s1 \<Longrightarrow> wake_reported K l s s1"
    and "\<And>s1 s2. server_turn K V alloc tid' m s = Inr s1 \<Longrightarrow> server_turn K U alloc tid l s1 = Inr s2 \<Longrightarrow>
      interest (kern s2) (epollfd (loops s (ch_loop (chan_of c s)))) (ch_fd (chan_of c s)) = None \<Longrightarrow> wake_reported K m s s2"
  shows "\<exists>s1 s2 s3. server_turn K V alloc tid' m s = Inr s1 \<and> server_turn K U alloc tid l s1 = Inr s2 \<and>
    server_turn K V alloc tid' m s2 = Inr s3 \<and> conn_held c s1 \<and> conn_held c s2 \<and> \<not> conn_held c s3 \<and>
    conn_state (conns s1 c) = kDisconnected \<and> srv_connections s1 = srv_connections s \<and>
    srv_connections s3 = (srv_connections s)(conn_name (conns s c) := None) \<and>
    interest (kern s3) (epollfd (loops s3 (ch_loop (chan_of c s3)))) (ch_fd (chan_of c s3)) = None \<and>
    poller_channels (loops s3 (ch_loop (chan_of c s3))) (ch_fd (chan_of c s3)) = None"
proof -
  have poll: "polling_kernel K interest sent" using assms(1) by (simp add: quiet_server_def)
  have ml: "m \<noteq> l" using assms(13-15) by auto
  let ?q1 = "\<lambda>n. pendingFunctors (loops s n) @ (if n = srv_loop s then [F_removeConnectionInLoop c] else [])"
  obtain s1 where s1: "server_turn K V alloc tid' m s = Inr s1" "leaving interest c ?q1 s s1" "srv_connections s1 = srv_connections s"
    using quiet_server.leave_turn [OF assms(1,2,4-9,14) _ assms(19-21), where alloc = alloc] assms(12,13,15) by blast
  have q1: "?q1 l = [F_removeConnectionInLoop c]" using assms(12,16) by simp
  obtain j1 a1 b1 i1 where w1: "epoll_wait K (epollfd (loops s1 l)) (poller_events_size (loops s1 l)) (kern s1) =
      (Inr [(EPOLLIN, wakeupChannel (loops s1 l))], j1)" "sys_gettimeofday K j1 = ((a1, b1), i1)"
    using assms(22) [OF s1(1)] s1(2) by (auto simp: wake_reported_def leaving_def)
  obtain s2 where s2: "server_turn K U alloc tid l s1 = Inr s2" "leaving interest c (?q1(l := [], m := ?q1 m @ [F_connectDestroyed c])) s s2"
    "srv_connections s2 = (srv_connections s1)(conn_name (conns s c) := None)"
    using polling_kernel.remove_turn [OF poll s1(2) q1 assms(10) ml assms(17) w1] by blast
  have q2: "(?q1(l := [], m := ?q1 m @ [F_connectDestroyed c])) m = [F_connectDestroyed c]" using assms(2,12) ml by (simp add: conn_served_def)
  have gone: "interest (kern s2) (epollfd (loops s (ch_loop (chan_of c s)))) (ch_fd (chan_of c s)) = None"
    using s2(2) by (simp add: leaving_def)
  obtain j2 a2 b2 i2 where w2: "epoll_wait K (epollfd (loops s2 m)) (poller_events_size (loops s2 m)) (kern s2) =
      (Inr [(EPOLLIN, wakeupChannel (loops s2 m))], j2)" "sys_gettimeofday K j2 = ((a2, b2), i2)"
    using assms(23) [OF s1(1) s2(1) gone] s2(2) by (auto simp: wake_reported_def leaving_def)
  have out: "c \<notin> ran (srv_connections s2)"
    using assms(3) s1(3) s2(3) by (auto simp: server_inv_def ran_def)
  have "(?q1(l := [], m := ?q1 m @ [F_connectDestroyed c])) n = []"
    if "n \<in> set (pool_baseLoop (srv_pool s) # pool_loops (srv_pool s))" "n \<noteq> m" for n
    using that assms(12,16) by simp
  then obtain s3 where s3: "server_turn K V alloc tid' m s2 = Inr s3" "removed interest m c s3" "srv_connections s3 = srv_connections s2"
    using quiet_server.destroy_turn [OF assms(1) s2(2) q2 out _ assms(18) w2] by blast
  have "conn_held c s1" using assms(2) s1(3) by (simp add: conn_held_def conn_served_def)
  moreover have "conn_held c s2" using s2(2) q2 assms(11) by (auto simp: conn_held_def leaving_def list_ex_iff)
  ultimately show ?thesis using s1 s2(1,3) s3 by (auto simp: removed_def leaving_def)
qed

text \<open>
  A server with the base loop 0 of thread 100 and the loop 1 of thread 200. Its kernel reports a waiting connection to the base loop and a
  wake-up to the other, or (\<open>busy\<close>) a wake-up to the base loop, and to the other the input of descriptor 7 as long as that is registered.
\<close>

definition relay_kernel :: "bool \<Rightarrow> ref_state kernel" where
  "relay_kernel busy = ref_kernel\<lparr>epoll_wait := \<lambda>ep n k. (Inr [(EPOLLIN, if ep = 4 then (if busy then 0 else 2)
     else if busy \<and> rk_interest k 14 7 \<noteq> None then 1 else 9)], k)\<rparr>"

interpretation relay: quiet_server "relay_kernel busy" rk_interest rk_sent "quiet_callbacks :: (ref_state, 'a) server_scheme callbacks" for busy
  by unfold_locales (auto simp: relay_kernel_def quiet_callbacks_def ref_defs min_def split: if_splits list.splits ctl_op.splits)

definition sample_threads :: "ref_state server" where
  "sample_threads = sample_blank\<lparr>
     loops := (\<lambda>l. if l = 1 then sample_loop\<lparr>threadId := 200, epollfd := 14, wakeupChannel := 9, wakeupFd := 15\<rparr>
       else sample_loop\<lparr>poller_channels := [3 \<mapsto> 2, 5 \<mapsto> 0]\<rparr>),
     chans := (chans sample_blank)(0 := (Channel_ctor 0 5)\<lparr>ch_readCallback := Some (H_EventLoop_handleRead 0), ch_events := kReadEvent, ch_index := kAdded\<rparr>,
       9 := (Channel_ctor 1 15)\<lparr>ch_readCallback := Some (H_EventLoop_handleRead 1), ch_events := kReadEvent, ch_index := kAdded\<rparr>,
       2 := (Channel_ctor 0 3)\<lparr>ch_readCallback := Some H_Acceptor_handleRead, ch_events := kReadEvent, ch_index := kAdded\<rparr>,
       1 := (Channel_ctor 1 7)\<lparr>ch_readCallback := Some (H_TcpConnection_handleRead 1), ch_writeCallback := Some (H_TcpConnection_handleWrite 1),
         ch_events := kReadEvent, ch_index := kAdded, ch_tie := Some 1, ch_tied := True\<rparr>),
     srv_hasConnectionCallback := True, srv_hasMessageCallback := True,
     srv_pool := (EventLoopThreadPool_ctor 0 [])\<lparr>pool_loops := [1]\<rparr>\<rparr>"

lemmas sample_threads_defs = sample_threads_def sample_blank_def sample_defs

definition sample_arriving :: "ref_state server" where
  "sample_arriving = sample_threads\<lparr>kern := (kern sample_threads)\<lparr>rk_incoming := [(8, sample_addr)]\<rparr>\<rparr>"

theorem TcpServer_threads_accept_witness:
  "\<exists>s1. server_turn (relay_kernel False) quiet_callbacks (\<lambda>s. (6, 6)) 100 0 sample_arriving = Inr s1 \<and>
    aborts_or (\<lambda>s'. conn_served 1 6 s' \<and> conn_ready (relay_kernel False) 200 1000 6 s' \<and>
      srv_connections s' = (srv_connections sample_arriving)(server_connName (srv_name sample_arriving) (srv_ipPort sample_arriving)
        (srv_nextConnId sample_arriving) \<mapsto> 6) \<and>
      poller_channels (loops s' 1) 8 = Some 6 \<and> rk_interest (kern s') (epollfd (loops s' 1)) 8 = Some (kReadEvent, 6))
    (server_turn (relay_kernel False) quiet_callbacks (\<lambda>s. (6, 6)) 200 1 s1)"
proof (rule TcpServer_threads_accept [OF relay.quiet_server_axioms, where ts = 0 and us = 0 and peer = sample_addr])
  show "server_dispatches 0 100 1 sample_arriving"
    by (simp add: server_dispatches_def sample_arriving_def sample_threads_defs EventLoopThreadPool_ctor_def
        EventLoopThreadPool_getNextLoop_def limit_defs)
  show "wake_reported (relay_kernel False) 1 sample_arriving s1" for s1 :: "ref_state server"
    by (simp add: wake_reported_def relay_kernel_def ref_defs sample_arriving_def sample_threads_defs)
  show "sys_accept4 (relay_kernel False) (acc_fd sample_arriving) (kern sample_arriving) = (Inr (8, sample_addr), kern sample_threads)"
    by (simp add: sample_arriving_def relay_kernel_def ref_kernel_def sample_threads_defs)
qed (simp_all add: sample_arriving_def sample_threads_defs wake_channel_def relay_kernel_def ref_defs Buffer_chunk_def limit_defs InitialPrependSize_def link_up_def EWOULDBLOCK_def EPIPE_def ECONNRESET_def split: list.splits)

text \<open>The same server with a connection of the loop 1 whose peer has closed.\<close>

definition sample_parting :: "ref_state server" where
  "sample_parting = sample_threads\<lparr>kern := (kern sample_threads)\<lparr>rk_delivers := [[]],
       rk_interest := (\<lambda>_. Map.empty)(14 := [7 \<mapsto> (kReadEvent, 1)])\<rparr>,
     srv_connections := [server_connName [] [] 1 \<mapsto> 1], srv_nextConnId := 2,
     conns := (\<lambda>_. sample_conn\<lparr>conn_loop := 1, conn_name := server_connName [] [] 1, conn_hasWriteCompleteCallback := False,
       conn_hasHighWaterMarkCallback := False\<rparr>)\<rparr>"

lemmas sample_parting_defs = sample_parting_def sample_threads_defs

theorem TcpServer_threads_remove_witness:
  "\<exists>s1 s2 s3. server_turn (relay_kernel True) quiet_callbacks (\<lambda>s. (6, 6)) 200 1 sample_parting = Inr s1 \<and>
    server_turn (relay_kernel True) quiet_callbacks (\<lambda>s. (6, 6)) 100 0 s1 = Inr s2 \<and>
    server_turn (relay_kernel True) quiet_callbacks (\<lambda>s. (6, 6)) 200 1 s2 = Inr s3 \<and>
    conn_held 1 s1 \<and> conn_held 1 s2 \<and> \<not> conn_held 1 s3 \<and>
    conn_state (conns s1 1) = kDisconnected \<and> srv_connections s1 = srv_connections sample_parting \<and>
    srv_connections s3 = (srv_connections sample_parting)(conn_name (conns sample_parting 1) := None) \<and>
    rk_interest (kern s3) (epollfd (loops s3 (ch_loop (chan_of 1 s3)))) (ch_fd (chan_of 1 s3)) = None \<and>
    poller_channels (loops s3 (ch_loop (chan_of 1 s3))) (ch_fd (chan_of 1 s3)) = None"
proof (rule TcpServer_threads_remove [OF relay.quiet_server_axioms, where ts = 0 and us = 0])
  show "conn_served 1 1 sample_parting" by (simp add: conn_served_def sample_parting_defs)
  show "server_inv sample_parting"
    by (auto simp: server_inv_def sample_parting_defs pool_wf_def EventLoopThreadPool_ctor_def limit_defs c_str_def
        intro!: exI [of _ 1])
  show "chan_ok rk_interest (conn_channel (conns sample_parting 1)) sample_parting"
    by (simp add: chan_ok_def Let_def sample_parting_defs)
  show "pendingFunctors (loops sample_parting n) = []" for n by (simp add: sample_parting_defs)
  show "wake_reported (relay_kernel True) 0 sample_parting s1" for s1 :: "ref_state server"
    by (simp add: wake_reported_def relay_kernel_def ref_defs sample_parting_defs)
  show "wake_reported (relay_kernel True) 1 sample_parting s2"
    if "rk_interest (kern s2) (epollfd (loops sample_parting (ch_loop (chan_of 1 sample_parting)))) (ch_fd (chan_of 1 sample_parting)) = None"
    for s2 :: "ref_state server"
    using that by (simp add: wake_reported_def relay_kernel_def ref_defs sample_parting_defs)
  have "rk_delivers (kern sample_parting) = [[]]" "ch_fd (chan_of 1 sample_parting) = 7" by (simp_all add: sample_parting_defs)
  then show "sys_read (relay_kernel True) (ch_fd (chan_of 1 sample_parting)) (readv_capacity (conn_inputBuffer (conns sample_parting 1)))
      (kern sample_parting) = (Inr [], (kern sample_parting)\<lparr>rk_delivers := []\<rparr>)"
    by (simp add: relay_kernel_def ref_kernel_def ref_read_def)
qed (simp_all add: sample_parting_defs wake_channel_def relay_kernel_def ref_defs limit_defs EventLoopThreadPool_ctor_def
    readv_capacity_def Let_def extrabuf_size_def)

end
