(* ===== verification/Net_Startup.thy ===== *)
theory Net_Startup
  imports Net_Handover
begin

unbundle bit_operations_syntax

text \<open>
  How a server comes into being: the base loop, the acceptor, the loop threads, and the registration of the listening
  socket. The addresses and the thread numbers of the new loops are an environment: \<open>place\<close> maps the name of a
  thread to its number, its loop and the loop's wake-up channel.
\<close>

section \<open>A new loop\<close>

text \<open>A channel as its constructor leaves it, and after its first registration.\<close>

lemma set_events_post_registered:
  assumes "set_events_post interest c (0 OR kReadEvent) w w'" "ch_index (chans w' c) \<noteq> kNew"
  shows "poller_channels (loops w' (ch_loop (chans w c))) (ch_fd (chans w c)) = Some c"
    "interest (kern w') (epollfd (loops w' (ch_loop (chans w c)))) (ch_fd (chans w c)) = Some (kReadEvent, c)"
    "ch_readCallback (chans w' c) = ch_readCallback (chans w c)" "ch_tied (chans w' c) = ch_tied (chans w c)"
    "n \<noteq> ch_loop (chans w c) \<Longrightarrow> loops w' n = loops w n"
proof -
  have post: "chan_ok interest c w'" "ch_events (chans w' c) = kReadEvent" "same_but_chan c w w'"
    using assms(1) by (simp_all add: set_events_post_def)
  have "kReadEvent \<noteq> kNoneEvent" by (simp add: mask_defs)
  then show "poller_channels (loops w' (ch_loop (chans w c))) (ch_fd (chans w c)) = Some c"
    "interest (kern w') (epollfd (loops w' (ch_loop (chans w c)))) (ch_fd (chans w c)) = Some (kReadEvent, c)"
    using post(1,2) assms(2) same_but_chan_fields(1,2) [OF post(3), of c] by (auto simp: chan_ok_def Let_def)
  obtain ev ix where "chans w' c = (chans w c)\<lparr>ch_events := ev, ch_index := ix\<rparr>"
    using post(3) unfolding same_but_chan_def by blast
  then show "ch_readCallback (chans w' c) = ch_readCallback (chans w c)" "ch_tied (chans w' c) = ch_tied (chans w c)" by simp_all
  assume n: "n \<noteq> ch_loop (chans w c)"
  obtain m where m: "loops w' n = (loops w n)\<lparr>poller_channels := m\<rparr>" "\<And>f. m f = poller_channels (loops w n) f"
    using post(3) n unfolding same_but_chan_def by blast
  then have "m = poller_channels (loops w n)" by blast
  then show "loops w' n = loops w n" using m(1) by simp
qed

text \<open>The loop \<open>l\<close> of thread \<open>t\<close>, with its wake-up channel \<open>c\<close>, is ready to run and has nothing to do.\<close>

definition loop_made :: "int \<Rightarrow> loop \<Rightarrow> chan \<Rightarrow> ('k, 'a) world_scheme \<Rightarrow> bool" where
  "loop_made t l c w \<longleftrightarrow> threadId (loops w l) = t \<and> wakeupChannel (loops w l) = c \<and> pendingFunctors (loops w l) = [] \<and>
     wake_channel l w"

text \<open>Only the loops \<open>L\<close> and the channels \<open>C\<close> have changed.\<close>

definition beside :: "loop set \<Rightarrow> chan set \<Rightarrow> ('k, 'a) world_scheme \<Rightarrow> ('k, 'a) world_scheme \<Rightarrow> bool" where
  "beside L C w w' \<longleftrightarrow> conns w' = conns w \<and> world.more w' = world.more w \<and>
     (\<forall>n. n \<notin> L \<longrightarrow> loops w' n = loops w n) \<and> (\<forall>d. d \<notin> C \<longrightarrow> chans w' d = chans w d)"

lemma beside_refl: "beside L C w w"
  by (simp add: beside_def)

lemma beside_trans: "beside L C w w' \<Longrightarrow> beside L' C' w' w'' \<Longrightarrow> beside (L \<union> L') (C \<union> C') w w''"
  by (auto simp: beside_def)

lemma beside_made: "beside L C w w' \<Longrightarrow> loop_made t l c w \<Longrightarrow> l \<notin> L \<Longrightarrow> c \<notin> C \<Longrightarrow> loop_made t l c w'"
  by (auto simp: beside_def loop_made_def wake_channel_def)

context epoll_kernel
begin

lemma EventLoop_ctor_effect:
  "aborts_or (\<lambda>w'. loop_made t l c w' \<and> beside {l} {c} w w' \<and>
      poller_channels (loops w' l) (wakeupFd (loops w' l)) = Some c \<and>
      interest (kern w') (epollfd (loops w' l)) (wakeupFd (loops w' l)) = Some (kReadEvent, c))
    (EventLoop_ctor K False t l c w)"
proof (cases "EventLoop_ctor K False t l c w")
  case (Inl e)
  then show ?thesis
    by (auto simp: EventLoop_ctor_def Poller_newDefaultPoller_def EpollPoller_ctor_def createEventfd_def rbind_eq_Inl_iff
        Channel_enableReading_def split: sum.splits prod.splits if_splits dest: Channel_update_fails)
next
  case (Inr w')
  then obtain epfd evfd k where w': "Channel_enableReading K c
      (w\<lparr>kern := k, loops := (loops w)(l := \<lparr>looping = False, quit_flag = False,
           callingPendingFunctors = False, threadId = t, pollReturnTime = 0,
           wakeupFd = evfd, wakeupChannel = c, activeChannels = [], pendingFunctors = [],
           epollfd = epfd, poller_channels = Map.empty, poller_events_size = kInitEventListSize\<rparr>),
         chans := (chans w)(c := Channel_setReadCallback (H_EventLoop_handleRead l) (Channel_ctor l evfd)),
         t_loopInThisThread := (t_loopInThisThread w)(t := Some l)\<rparr>) = Inr w'" (is "Channel_enableReading K c ?w = _")
    by (auto simp: EventLoop_ctor_def Poller_newDefaultPoller_def EpollPoller_ctor_def createEventfd_def rbind_eq_Inr_iff
        split: sum.splits prod.splits if_splits)
  have ch: "chans ?w c = (Channel_ctor l evfd)\<lparr>ch_readCallback := Some (H_EventLoop_handleRead l)\<rparr>" by simp
  have post: "set_events_post interest c (0 OR kReadEvent) ?w w'" "ch_index (chans w' c) \<noteq> kNew"
    using enableReading_new [of ?w c] w' by (simp_all add: Channel_ctor_def kNew_def)
  note reg = set_events_post_registered [OF post]
  have same: "same_but_chan c ?w w'" using post(1) by (simp add: set_events_post_def)
  obtain m where m: "loops w' l = (loops ?w l)\<lparr>poller_channels := m\<rparr>" using same unfolding same_but_chan_def by blast
  have "loop_made t l c w'" using m reg(3,4) by (simp add: loop_made_def wake_channel_def Channel_ctor_def)
  moreover have "beside {l} {c} w w'" using reg(5) same by (simp add: beside_def same_but_chan_def Channel_ctor_def)
  ultimately show ?thesis using reg(1,2) m Inr by (simp add: Channel_ctor_def)
qed

end

section \<open>Loop threads\<close>

text \<open>
  \<open>startLoop\<close> of a loop thread without initialisation callback, as one action of the two threads: the new thread constructs its
  loop, and the creating thread returns with the loop's address (\<open>startLoop_returns_the_loop\<close>).
\<close>

type_synonym placing = "bytes \<Rightarrow> int \<times> loop \<times> chan"

definition EventLoopThread_startLoop ::
    "'k kernel \<Rightarrow> bool \<Rightarrow> placing \<Rightarrow> bytes \<Rightarrow> ('k, 'a) world_scheme \<Rightarrow> (loop \<times> ('k, 'a) world_scheme) res" where
  "EventLoopThread_startLoop K use_poll place name w =
     (case place name of (t, l, c) \<Rightarrow> rbind (EventLoop_ctor K use_poll t l c w) (\<lambda>w'. Inr (l, w')))"

definition loop_at :: "placing \<Rightarrow> bytes \<Rightarrow> loop" where "loop_at place n = fst (snd (place n))"
definition chan_at :: "placing \<Rightarrow> bytes \<Rightarrow> chan" where "chan_at place n = snd (snd (place n))"

text \<open>Different threads of \<open>ns\<close> have different loops and channels, none of which is the loop \<open>l\<close> or one of the channels \<open>C\<close>.\<close>

definition places_apart :: "placing \<Rightarrow> bytes list \<Rightarrow> loop \<Rightarrow> chan set \<Rightarrow> bool" where
  "places_apart place ns l C \<longleftrightarrow> distinct (map (loop_at place) ns) \<and> distinct (map (chan_at place) ns) \<and>
     l \<notin> loop_at place ` set ns \<and> C \<inter> chan_at place ` set ns = {}"

definition all_made :: "placing \<Rightarrow> bytes list \<Rightarrow> ('k, 'a) world_scheme \<Rightarrow> bool" where
  "all_made place ns w \<longleftrightarrow> (\<forall>n \<in> set ns. loop_made (fst (place n)) (loop_at place n) (chan_at place n) w)"

definition pool_names :: "pool \<Rightarrow> bytes list" where
  "pool_names p = map (pool_thread_name p) [0..<nat (pool_numThreads p)]"

lemma pool_thread_name_cong: "pool_name p = pool_name q \<Longrightarrow> pool_thread_name p = pool_thread_name q"
  by (simp add: pool_thread_name_def fun_eq_iff)

context epoll_kernel
begin

lemma pool_start_threads_made:
  assumes "ns = map (pool_thread_name p) is" "distinct (map (loop_at place) ns)" "distinct (map (chan_at place) ns)"
  shows "aborts_or (\<lambda>(p', w'). p' = p\<lparr>pool_threads := pool_threads p @ ns, pool_loops := pool_loops p @ map (loop_at place) ns\<rparr> \<and>
      all_made place ns w' \<and> beside (loop_at place ` set ns) (chan_at place ` set ns) w w')
    (pool_start_threads (EventLoopThread_startLoop K False place) is p w)"
  using assms
proof (induction "is" arbitrary: p w ns)
  case Nil
  then show ?case by (simp add: all_made_def beside_refl)
next
  case (Cons i "is")
  obtain n ms where ns: "ns = n # ms" "n = pool_thread_name p i" "ms = map (pool_thread_name p) is" using Cons.prems(1) by simp
  let ?p = "p\<lparr>pool_threads := pool_threads p @ [n], pool_loops := pool_loops p @ [loop_at place n]\<rparr>"
  have run: "pool_start_threads (EventLoopThread_startLoop K False place) (i # is) p w =
      rbind (EventLoop_ctor K False (fst (place n)) (loop_at place n) (chan_at place n) w)
        (pool_start_threads (EventLoopThread_startLoop K False place) is ?p)"
    by (simp add: EventLoopThread_startLoop_def loop_at_def chan_at_def ns(2) rbind_def split: prod.split sum.split)
  show ?case
    unfolding run
  proof (rule aborts_or_rbind [OF EventLoop_ctor_effect])
    fix w1
    assume "loop_made (fst (place n)) (loop_at place n) (chan_at place n) w1 \<and> beside {loop_at place n} {chan_at place n} w w1 \<and>
      poller_channels (loops w1 (loop_at place n)) (wakeupFd (loops w1 (loop_at place n))) = Some (chan_at place n) \<and>
      interest (kern w1) (epollfd (loops w1 (loop_at place n))) (wakeupFd (loops w1 (loop_at place n))) = Some (kReadEvent, chan_at place n)"
    then have w1: "loop_made (fst (place n)) (loop_at place n) (chan_at place n) w1" "beside {loop_at place n} {chan_at place n} w w1"
      by blast+
    have names: "ms = map (pool_thread_name ?p) is" using ns(3) pool_thread_name_cong [of ?p p] by simp
    have d: "distinct (map (loop_at place) ms)" "distinct (map (chan_at place) ms)"
      "loop_at place n \<notin> loop_at place ` set ms" "chan_at place n \<notin> chan_at place ` set ms"
      using Cons.prems(2,3) ns(1) by simp_all
    show "aborts_or (\<lambda>(p', w'). p' = p\<lparr>pool_threads := pool_threads p @ ns, pool_loops := pool_loops p @ map (loop_at place) ns\<rparr> \<and>
        all_made place ns w' \<and> beside (loop_at place ` set ns) (chan_at place ` set ns) w w')
      (pool_start_threads (EventLoopThread_startLoop K False place) is ?p w1)"
      by (rule aborts_or_mono [OF Cons.IH [OF names d(1,2)]])
        (use w1 d(3,4) beside_made [OF _ w1(1)] beside_trans [OF w1(2)] ns(1) in \<open>auto simp: all_made_def\<close>)
  qed
qed

lemma EventLoopThreadPool_start_made:
  assumes "distinct (map (loop_at place) (pool_names p))" "distinct (map (chan_at place) (pool_names p))"
  shows "aborts_or (\<lambda>(p', w'). pool_loops p' = pool_loops p @ map (loop_at place) (pool_names p) \<and> pool_next p' = pool_next p \<and>
      pool_baseLoop p' = pool_baseLoop p \<and> all_made place (pool_names p) w' \<and>
      beside (loop_at place ` set (pool_names p)) (chan_at place ` set (pool_names p)) w w')
    (EventLoopThreadPool_start (EventLoopThread_startLoop K False place) None p w)"
proof -
  let ?p = "p\<lparr>pool_started := True\<rparr>"
  have names: "pool_names p = map (pool_thread_name ?p) [0..<nat (pool_numThreads p)]"
    using pool_thread_name_cong [of p ?p] by (simp add: pool_names_def)
  have run: "EventLoopThreadPool_start (EventLoopThread_startLoop K False place) None p w =
      pool_start_threads (EventLoopThread_startLoop K False place) [0..<nat (pool_numThreads p)] ?p w"
    by (simp add: EventLoopThreadPool_start_def rbind_def split: sum.split)
  show ?thesis
    unfolding run by (rule aborts_or_mono [OF pool_start_threads_made [OF names assms]]) (auto split: prod.splits)
qed

end

section \<open>The server\<close>

text \<open>
  A server that has been constructed on the base loop \<open>l\<close> and not been started: its acceptor has a new channel \<open>ch\<close>.
\<close>

definition server_built :: "loop \<Rightarrow> chan \<Rightarrow> bytes \<Rightarrow> ('k, 'a) server_scheme \<Rightarrow> bool" where
  "server_built l ch name s \<longleftrightarrow> server_inv s \<and> acc_chan s = ch \<and> acc_hasNewConnectionCallback s \<and>
     chans s ch = Channel_setReadCallback H_Acceptor_handleRead (Channel_ctor l (acc_fd s)) \<and>
     srv_loop s = l \<and> srv_started s = 0 \<and> srv_nextConnId s = 1 \<and> srv_connections s = Map.empty \<and>
     \<not> srv_hasWriteCompleteCallback s \<and> pool_loops (srv_pool s) = [] \<and> pool_next (srv_pool s) = 0 \<and>
     pool_baseLoop (srv_pool s) = l \<and> pool_name (srv_pool s) = name"

lemma createNonblocking_fails: "createNonblocking K s = Inl e \<Longrightarrow> e = Aborted"
  by (auto simp: createNonblocking_def split: sum.splits prod.splits if_splits)

lemma bindAddress_fails: "Socket_bindAddress K f addr s = Inl e \<Longrightarrow> e = Aborted"
  by (auto simp: Socket_bindAddress_def split: prod.splits if_splits)

lemma createNonblocking_ok: "createNonblocking K s = Inr (f, s') \<Longrightarrow> \<exists>k. s' = s\<lparr>kern := k\<rparr>"
  by (auto simp: createNonblocking_def split: sum.splits prod.splits if_splits)

lemma bindAddress_ok: "Socket_bindAddress K f addr s = Inr s' \<Longrightarrow> \<exists>k. s' = s\<lparr>kern := k\<rparr>"
  by (auto simp: Socket_bindAddress_def split: prod.splits if_splits)

lemma TcpServer_ctor_effect:
  "aborts_or (\<lambda>s'. server_built l ch name s' \<and> pool_numThreads (srv_pool s') = 0 \<and>
      loops s' = loops s \<and> conns s' = conns s \<and> (\<forall>d. d \<noteq> ch \<longrightarrow> chans s' d = chans s d))
    (TcpServer_ctor K (Some l) addr name opt ch s)"
proof (cases "TcpServer_ctor K (Some l) addr name opt ch s")
  case (Inl e)
  obtain ip where "InetAddress_toIpPort addr = Inr ip" using toIpPort_ok by blast
  then have "Acceptor_ctor K l addr (opt = kReusePort) ch s = Inl e"
    using Inl by (auto simp: TcpServer_ctor_def CheckLoopNotNull_def rbind_eq_Inl_iff)
  then have "e = Aborted"
    by (auto simp: Acceptor_ctor_def rbind_eq_Inl_iff dest: createNonblocking_fails bindAddress_fails)
  then show ?thesis using Inl by simp
next
  case (Inr s')
  obtain ip s1 where s1: "Acceptor_ctor K l addr (opt = kReusePort) ch s = Inr s1" "s' = s1\<lparr>srv_loop := l, srv_ipPort := ip, srv_name := name,
       srv_pool := EventLoopThreadPool_ctor l name, srv_hasConnectionCallback := False, srv_hasMessageCallback := False,
       srv_hasWriteCompleteCallback := False, srv_started := 0, srv_nextConnId := 1, srv_connections := Map.empty,
       acc_hasNewConnectionCallback := True\<rparr>"
    using Inr by (auto simp: TcpServer_ctor_def CheckLoopNotNull_def rbind_eq_Inr_iff)
  obtain f s0 where "createNonblocking K s = Inr (f, s0)" "Socket_bindAddress K f addr
      (Socket_setReusePort K f True (Socket_setReuseAddr K f (opt = kReusePort)
        (s0\<lparr>acc_loop := l, acc_fd := f, acc_chan := ch, acc_hasNewConnectionCallback := False, acc_listenning := False,
           chans := (chans s0)(ch := Channel_setReadCallback H_Acceptor_handleRead (Channel_ctor l f))\<rparr>))) = Inr s1"
    using s1(1) unfolding Acceptor_ctor_def by (auto simp: rbind_eq_Inr_iff simp del: Channel_setReadCallback_def)
  then obtain k where "s1 = s\<lparr>acc_loop := l, acc_fd := f, acc_chan := ch, acc_hasNewConnectionCallback := False, acc_listenning := False,
      chans := (chans s)(ch := Channel_setReadCallback H_Acceptor_handleRead (Channel_ctor l f)), kern := k\<rparr>"
    by (auto simp: Socket_setReusePort_def Socket_setReuseAddr_def dest!: createNonblocking_ok bindAddress_ok)
  moreover have "server_inv s'" by (rule TcpServer_ctor_inv [OF Inr])
  ultimately show ?thesis
    using Inr s1(2) by (simp add: server_built_def EventLoopThreadPool_ctor_def)
qed

text \<open>
  The server has been started: the loops of the threads \<open>ns\<close> are ready, and the acceptor's channel is registered with the base loop.
\<close>

definition server_up ::
    "('k \<Rightarrow> fd \<Rightarrow> fd \<rightharpoonup> epoll_event) \<Rightarrow> int \<Rightarrow> loop \<Rightarrow> placing \<Rightarrow> bytes list \<Rightarrow> ('k, 'a) server_scheme \<Rightarrow> bool" where
  "server_up interest tid l place ns s \<longleftrightarrow> server_inv s \<and> srv_connections s = Map.empty \<and> srv_nextConnId s = 1 \<and>
     pool_loops (srv_pool s) = map (loop_at place) ns \<and> pool_next (srv_pool s) = 0 \<and> pool_baseLoop (srv_pool s) = l \<and>
     all_made place ns s \<and> loop_made tid l (wakeupChannel (loops s l)) s \<and>
     acc_hasNewConnectionCallback s \<and> srv_hasConnectionCallback s \<and> srv_hasMessageCallback s \<and> \<not> srv_hasWriteCompleteCallback s \<and>
     ch_readCallback (chans s (acc_chan s)) = Some H_Acceptor_handleRead \<and> \<not> ch_tied (chans s (acc_chan s)) \<and>
     poller_channels (loops s l) (acc_fd s) = Some (acc_chan s) \<and>
     interest (kern s) (epollfd (loops s l)) (acc_fd s) = Some (kReadEvent, acc_chan s)"

context epoll_kernel
begin

lemma Acceptor_listen_effect:
  assumes "chans s (acc_chan s) = Channel_setReadCallback H_Acceptor_handleRead (Channel_ctor l (acc_fd s))"
  shows "aborts_or (\<lambda>s'. (\<exists>b. world.more s' = world.more (s\<lparr>acc_listenning := b\<rparr>)) \<and> conns s' = conns s \<and>
      (\<forall>n. n \<noteq> l \<longrightarrow> loops s' n = loops s n) \<and> (\<exists>m. loops s' l = (loops s l)\<lparr>poller_channels := m\<rparr>) \<and>
      (\<forall>d. d \<noteq> acc_chan s \<longrightarrow> chans s' d = chans s d) \<and>
      ch_readCallback (chans s' (acc_chan s)) = Some H_Acceptor_handleRead \<and> \<not> ch_tied (chans s' (acc_chan s)) \<and>
      poller_channels (loops s' l) (acc_fd s) = Some (acc_chan s) \<and>
      interest (kern s') (epollfd (loops s' l)) (acc_fd s) = Some (kReadEvent, acc_chan s))
    (Acceptor_listen K s)"
proof -
  let ?ch = "acc_chan s" and ?s = "s\<lparr>acc_listenning := True\<rparr>"
  obtain r k where r: "sys_listen K (acc_fd s) (kern s) = (r, k)" by fastforce
  show ?thesis
  proof (cases "r = 0")
    case True
    let ?s1 = "?s\<lparr>kern := k\<rparr>"
    have run: "Acceptor_listen K s = Channel_enableReading K ?ch ?s1"
      using r True by (simp add: Acceptor_listen_def Socket_listen_def)
    have ch: "ch_index (chans ?s1 ?ch) = kNew" "ch_events (chans ?s1 ?ch) = 0" "ch_loop (chans ?s1 ?ch) = l" "ch_fd (chans ?s1 ?ch) = acc_fd s"
      "ch_readCallback (chans ?s1 ?ch) = Some H_Acceptor_handleRead" "\<not> ch_tied (chans ?s1 ?ch)"
      using assms by (simp_all add: Channel_ctor_def kNew_def)
    show ?thesis
      unfolding run
    proof (rule aborts_or_mono [OF enableReading_new [OF ch(1)]])
      fix s' assume s': "set_events_post interest ?ch (ch_events (chans ?s1 ?ch) OR kReadEvent) ?s1 s' \<and> ch_index (chans s' ?ch) \<noteq> kNew"
      then have post: "set_events_post interest ?ch (0 OR kReadEvent) ?s1 s'" "ch_index (chans s' ?ch) \<noteq> kNew" using ch(2) by simp_all
      note reg = set_events_post_registered [OF post, unfolded ch(3,4)]
      have same: "same_but_chan ?ch ?s1 s'" using post(1) by (simp add: set_events_post_def)
      have "world.more s' = world.more (s\<lparr>acc_listenning := True\<rparr>)" "conns s' = conns s" "\<forall>d. d \<noteq> ?ch \<longrightarrow> chans s' d = chans s d"
        "\<exists>m. loops s' l = (loops s l)\<lparr>poller_channels := m\<rparr>"
        using same unfolding same_but_chan_def by auto
      then show "(\<exists>b. world.more s' = world.more (s\<lparr>acc_listenning := b\<rparr>)) \<and> conns s' = conns s \<and>
        (\<forall>n. n \<noteq> l \<longrightarrow> loops s' n = loops s n) \<and> (\<exists>m. loops s' l = (loops s l)\<lparr>poller_channels := m\<rparr>) \<and>
        (\<forall>d. d \<noteq> ?ch \<longrightarrow> chans s' d = chans s d) \<and>
        ch_readCallback (chans s' ?ch) = Some H_Acceptor_handleRead \<and> \<not> ch_tied (chans s' ?ch) \<and>
        poller_channels (loops s' l) (acc_fd s) = Some ?ch \<and> interest (kern s') (epollfd (loops s' l)) (acc_fd s) = Some (kReadEvent, ?ch)"
        using reg ch(5,6) by auto
    qed
  qed (use r in \<open>simp add: Acceptor_listen_def Socket_listen_def\<close>)
qed

end

context epoll_kernel
begin

lemma startLoop_keeps: "startLoop_keeps (EventLoopThread_startLoop K False place)"
  unfolding startLoop_keeps_def
proof (intro allI impI)
  fix n m and w w' :: "('k, 'b) world_scheme"
  assume "EventLoopThread_startLoop K False place n w = Inr (m, w')"
  then obtain t c where "EventLoop_ctor K False t m c w = Inr w'"
    by (auto simp: EventLoopThread_startLoop_def rbind_eq_Inr_iff split: prod.splits)
  then have "beside {m} {c} w w'" using EventLoop_ctor_effect [of t m c w] by simp
  then show "keeps_server w w'" by (simp add: beside_def keeps_server_def)
qed

lemma TcpServer_start_effect:
  fixes s :: "('k, 'b) server_scheme"
  assumes built: "server_built l ch name s" "srv_hasConnectionCallback s" "srv_hasMessageCallback s"
    and base: "loop_made tid l c s" "c \<noteq> ch"
    and ns: "ns = pool_names (srv_pool s)" "places_apart place ns l {c, ch}"
  shows "aborts_or (server_up interest tid l place ns)
    (TcpServer_start K tid (EventLoopThread_startLoop K False place) None s)"
proof -
  let ?s0 = "s\<lparr>srv_started := int32 (srv_started s + 1)\<rparr>"
  note b = built(1) [unfolded server_built_def]
  have run: "TcpServer_start K tid (EventLoopThread_startLoop K False place) None s =
      rbind (EventLoopThreadPool_start (EventLoopThread_startLoop K False place) None (srv_pool s) ?s0) (\<lambda>(p, s1).
        EventLoop_runInLoop K tid (srv_loop (s1\<lparr>srv_pool := p\<rparr>)) F_Acceptor_listen (Acceptor_listen K) (s1\<lparr>srv_pool := p\<rparr>))"
    using b by (simp add: TcpServer_start_def Let_def)
  have d: "distinct (map (loop_at place) (pool_names (srv_pool s)))" "distinct (map (chan_at place) (pool_names (srv_pool s)))"
    "l \<notin> loop_at place ` set ns" "c \<notin> chan_at place ` set ns" "ch \<notin> chan_at place ` set ns"
    using ns by (auto simp: places_apart_def)
  have "aborts_or (\<lambda>s'. server_inv s' \<longrightarrow> server_up interest tid l place ns s')
      (TcpServer_start K tid (EventLoopThread_startLoop K False place) None s)"
    unfolding run
  proof (rule aborts_or_rbind [OF EventLoopThreadPool_start_made [OF d(1,2)]], clarify)
    fix p :: pool and s1 :: "('k, 'b) server_scheme"
    assume p: "pool_loops p = pool_loops (srv_pool s) @ map (loop_at place) (pool_names (srv_pool s))"
        "pool_next p = pool_next (srv_pool s)" "pool_baseLoop p = pool_baseLoop (srv_pool s)"
      and made: "all_made place (pool_names (srv_pool s)) s1"
      and bes: "beside (loop_at place ` set (pool_names (srv_pool s))) (chan_at place ` set (pool_names (srv_pool s))) ?s0 s1"
    let ?s2 = "s1\<lparr>srv_pool := p\<rparr>"
    have more: "world.more s1 = world.more ?s0" using bes by (simp add: beside_def)
    note f = more_server_fields [OF more] more_server_flags [OF more]
    have lc: "loops ?s2 l = loops s l" "chans ?s2 c = chans s c" "chans ?s2 ch = chans s ch"
      using bes d(3-5) ns(1) by (simp_all add: beside_def)
    then have "EventLoop_runInLoop K tid (srv_loop ?s2) F_Acceptor_listen (Acceptor_listen K) ?s2 = Acceptor_listen K ?s2"
      using f(6) b base(1) by (simp add: EventLoop_runInLoop_def EventLoop_isInLoopThread_def loop_made_def)
    moreover have acc: "acc_chan ?s2 = ch" "acc_fd ?s2 = acc_fd s" using f b by simp_all
    moreover have "chans ?s2 (acc_chan ?s2) = Channel_setReadCallback H_Acceptor_handleRead (Channel_ctor l (acc_fd ?s2))"
      using lc(3) f b by simp
    note listen = Acceptor_listen_effect [OF this]
    ultimately show "aborts_or (\<lambda>s'. server_inv s' \<longrightarrow> server_up interest tid l place ns s')
        (EventLoop_runInLoop K tid (srv_loop ?s2) F_Acceptor_listen (Acceptor_listen K) ?s2)"
    proof (simp only:, intro aborts_or_mono [OF listen], elim conjE exE, intro impI)
      fix s' :: "('k, 'b) server_scheme" and a m
      assume inv: "server_inv s'" and s': "world.more s' = world.more (?s2\<lparr>acc_listenning := a\<rparr>)"
        "\<forall>n. n \<noteq> l \<longrightarrow> loops s' n = loops ?s2 n" "loops s' l = (loops ?s2 l)\<lparr>poller_channels := m\<rparr>"
        "\<forall>d. d \<noteq> acc_chan ?s2 \<longrightarrow> chans s' d = chans ?s2 d"
        "ch_readCallback (chans s' (acc_chan ?s2)) = Some H_Acceptor_handleRead" "\<not> ch_tied (chans s' (acc_chan ?s2))"
        "poller_channels (loops s' l) (acc_fd ?s2) = Some (acc_chan ?s2)"
        "interest (kern s') (epollfd (loops s' l)) (acc_fd ?s2) = Some (kReadEvent, acc_chan ?s2)"
      note g = more_server_fields [OF s'(1)] more_server_flags [OF s'(1)]
      have "all_made place ns s'"
        unfolding all_made_def
      proof
        fix n assume n: "n \<in> set ns"
        then have "loop_at place n \<noteq> l" "chan_at place n \<noteq> acc_chan ?s2"
          unfolding acc(1) using n d(3,5) by (metis imageI)+
        then show "loop_made (fst (place n)) (loop_at place n) (chan_at place n) s'"
          using n made ns(1) s'(2,4) by (auto simp: all_made_def loop_made_def wake_channel_def)
      qed
      moreover have "loop_made tid l (wakeupChannel (loops s' l)) s'"
        using base lc(1,2) s'(3,4) acc(1) by (auto simp: loop_made_def wake_channel_def)
      ultimately show "server_up interest tid l place ns s'"
        using inv s'(5-8) g f p b built(2,3) ns(1) by (simp add: server_up_def)
    qed
  qed
  moreover have "server_inv s'" if "TcpServer_start K tid (EventLoopThread_startLoop K False place) None s = Inr s'" for s'
    using TcpServer_start_inv [OF that startLoop_keeps] b by (simp add: init_keeps_def)
  ultimately show ?thesis by (cases "TcpServer_start K tid (EventLoopThread_startLoop K False place) None s") auto
qed

end

text \<open>With threads, the first connection goes to the first of them; without, it stays with the base loop.\<close>

lemma server_up_dispatches:
  assumes "server_up interest tid l place ns s" "ns = n # ms" "loop_at place n \<noteq> l" "fst (place n) \<noteq> tid"
  shows "server_dispatches l tid (loop_at place n) s" "wake_channel (loop_at place n) s"
  using assms by (auto simp: server_up_def server_dispatches_def all_made_def loop_made_def limit_defs
      EventLoopThreadPool_getNextLoop_def Let_def)

lemma server_up_listens: "server_up interest tid l place [] s \<Longrightarrow> server_listens l tid s"
  by (simp add: server_up_def server_listens_def loop_made_def limit_defs)

end
