(* ===== verification/Programs.thy ===== *)
theory Programs
  imports Http_Server Example_Echo Net_Startup
begin

text \<open>
  The two server programs of the repository up to the point where they enter their loop, and with this the
  conditions under which the theories on whole turns speak of them: the HTTP demonstration has four
  loop threads (\<open>server_dispatches\<close>), the echo server has none (\<open>server_listens\<close>).
\<close>

section \<open>Construction and start\<close>

text \<open>The names of the loop threads of the HTTP server.\<close>

definition http_threads :: "bytes list" where
  "http_threads = [''http-server0'', ''http-server1'', ''http-server2'', ''http-server3'']"

lemma first_digits: "digit 0 = CHR ''0''" "digit 1 = CHR ''1''" "digit 2 = CHR ''2''" "digit 3 = CHR ''3''"
  by code_simp+

lemma http_threads_names: "pool_name p = ''http-server'' \<Longrightarrow> pool_numThreads p = 4 \<Longrightarrow> pool_names p = http_threads"
  using first_digits by (simp add: pool_names_def http_threads_def pool_thread_name_def snprintf_to_def c_str_def show_int_def
      show_nat.simps NUL_def upt_conv_Cons)

lemma server_built_setters:
  "server_built l ch name s \<Longrightarrow> server_built l ch name (TcpServer_setConnectionCallback b s)"
  "server_built l ch name s \<Longrightarrow> server_built l ch name (TcpServer_setMessageCallback b s)"
  "server_built l ch name s \<Longrightarrow> server_built l ch name (TcpServer_setThreadNum n s)"
  using TcpServer_setters_inv [of s]
  by (simp_all add: server_built_def TcpServer_setConnectionCallback_def TcpServer_setMessageCallback_def TcpServer_setThreadNum_def
      EventLoopThreadPool_setThreadNum_def)

lemma setters_fields:
  "loops (TcpServer_setConnectionCallback b s) = loops s" "loops (TcpServer_setMessageCallback b s) = loops s"
  "loops (TcpServer_setThreadNum n s) = loops s" "chans (TcpServer_setConnectionCallback b s) = chans s"
  "chans (TcpServer_setMessageCallback b s) = chans s" "chans (TcpServer_setThreadNum n s) = chans s"
  "srv_hasConnectionCallback (TcpServer_setConnectionCallback b s) = b"
  "srv_hasConnectionCallback (TcpServer_setMessageCallback b s) = srv_hasConnectionCallback s"
  "srv_hasConnectionCallback (TcpServer_setThreadNum n s) = srv_hasConnectionCallback s"
  "srv_hasMessageCallback (TcpServer_setMessageCallback b s) = b"
  "srv_hasMessageCallback (TcpServer_setThreadNum n s) = srv_hasMessageCallback s"
  "srv_pool (TcpServer_setConnectionCallback b s) = srv_pool s" "srv_pool (TcpServer_setMessageCallback b s) = srv_pool s"
  "srv_pool (TcpServer_setThreadNum n s) = EventLoopThreadPool_setThreadNum n (srv_pool s)"
  by (simp_all add: TcpServer_setConnectionCallback_def TcpServer_setMessageCallback_def TcpServer_setThreadNum_def)

lemma loop_made_cong: "loops s' = loops s \<Longrightarrow> chans s' c = chans s c \<Longrightarrow> loop_made t l c s \<Longrightarrow> loop_made t l c s'"
  by (auto simp: loop_made_def wake_channel_def)

context epoll_kernel
begin

lemma HttpServer_ctor_effect:
  assumes "loop_made tid l c s" "c \<noteq> ch"
  shows "aborts_or (\<lambda>(cb, s'). server_built l ch name s' \<and> srv_hasConnectionCallback s' \<and> srv_hasMessageCallback s' \<and>
      loop_made tid l c s' \<and> pool_numThreads (srv_pool s') = 4)
    (HttpServer_ctor K (Some l) addr name opt ch s)"
  unfolding HttpServer_ctor_def
  by (rule aborts_or_rbind [OF TcpServer_ctor_effect])
    (use assms in \<open>auto simp: setters_fields EventLoopThreadPool_setThreadNum_def intro!: server_built_setters
       elim!: loop_made_cong [rotated 2]\<close>)

lemma EchoServer_ctor_effect:
  assumes "loop_made tid l c s" "c \<noteq> ch"
  shows "aborts_or (\<lambda>s'. server_built l ch name s' \<and> srv_hasConnectionCallback s' \<and> srv_hasMessageCallback s' \<and>
      loop_made tid l c s' \<and> pool_numThreads (srv_pool s') = 0)
    (EchoServer_ctor K (Some l) addr name ch s)"
  unfolding EchoServer_ctor_def
  by (rule aborts_or_rbind [OF TcpServer_ctor_effect])
    (use assms in \<open>auto simp: setters_fields intro!: server_built_setters
       elim!: loop_made_cong [rotated 2]\<close>)

end

text \<open>The environment variable that asks for another poller than epoll leaves the loop without any.\<close>

lemma EventLoop_ctor_use_poll: "\<exists>e. EventLoop_ctor K True t l c w = Inl e \<and> e \<in> {Aborted, NullDeref}"
proof -
  obtain r k where "sys_eventfd K (kern w) = (r, k)" by fastforce
  then show ?thesis
    by (cases r) (auto simp: EventLoop_ctor_def Poller_newDefaultPoller_def createEventfd_def)
qed

section \<open>The programs\<close>

context epoll_kernel
begin

lemma main_setup_effect:
  assumes "places_apart place http_threads 0 {0, 1}"
  shows "aborts_or (\<lambda>(cb, s'). cb = main_onRequest K localtime \<and> server_up interest tid 0 place http_threads s')
    (main_setup K False tid (EventLoopThread_startLoop K False place) localtime s)"
  unfolding main_setup_def
proof (rule aborts_or_rbind [OF EventLoop_ctor_effect], elim conjE)
  fix s1 :: "('k, 'b) server_scheme"
  assume made: "loop_made tid 0 0 s1"
  show "aborts_or (\<lambda>(cb, s'). cb = main_onRequest K localtime \<and> server_up interest tid 0 place http_threads s')
      (rbind (HttpServer_ctor K (Some 0) (InetAddress_ctor 8080 ''127.0.0.1'') ''http-server'' kNoReusePort 1 s1) (\<lambda>(cb, s2).
       rbind (HttpServer_start K tid (EventLoopThread_startLoop K False place) s2) (\<lambda>s3.
         Inr (HttpServer_setHttpCallback (main_onRequest K localtime) cb, s3))))"
  proof (rule aborts_or_rbind [OF HttpServer_ctor_effect [OF made]], simp, clarify)
    fix cb and s2 :: "('k, 'b) server_scheme"
    assume s2: "server_built 0 1 ''http-server'' s2" "srv_hasConnectionCallback s2" "srv_hasMessageCallback s2" "loop_made tid 0 0 s2"
      "pool_numThreads (srv_pool s2) = 4"
    have names: "http_threads = pool_names (srv_pool s2)"
      using s2(1,5) by (intro http_threads_names [symmetric]) (simp_all add: server_built_def)
    show "aborts_or (\<lambda>(cb, s'). cb = main_onRequest K localtime \<and> server_up interest tid 0 place http_threads s')
        (rbind (HttpServer_start K tid (EventLoopThread_startLoop K False place) s2) (\<lambda>s3.
           Inr (HttpServer_setHttpCallback (main_onRequest K localtime) cb, s3)))"
      unfolding HttpServer_start_def
      by (rule aborts_or_rbind [OF TcpServer_start_effect [OF s2(1-4) _ names assms]])
        (simp_all add: HttpServer_setHttpCallback_def)
  qed
qed

lemma echo_setup_effect:
  "aborts_or (server_up interest tid 0 place []) (echo_setup K False tid (EventLoopThread_startLoop K False place) s)"
  unfolding echo_setup_def
proof (rule aborts_or_rbind [OF EventLoop_ctor_effect], elim conjE)
  fix s1 :: "('k, 'b) server_scheme"
  assume made: "loop_made tid 0 0 s1"
  show "aborts_or (server_up interest tid 0 place [])
      (rbind (EchoServer_ctor K (Some 0) (InetAddress_ctor 8080 ''127.0.0.1'') ''EchoServer'' 1 s1)
        (EchoServer_start K tid (EventLoopThread_startLoop K False place)))"
  proof (rule aborts_or_rbind [OF EchoServer_ctor_effect [OF made]], simp, elim conjE)
    fix s2 :: "('k, 'b) server_scheme"
    assume s2: "server_built 0 1 ''EchoServer'' s2" "srv_hasConnectionCallback s2" "srv_hasMessageCallback s2" "loop_made tid 0 0 s2"
      "pool_numThreads (srv_pool s2) = 0"
    have "[] = pool_names (srv_pool s2)" using s2(5) by (simp add: pool_names_def)
    from TcpServer_start_effect [OF s2(1-4) _ this] show "aborts_or (server_up interest tid 0 place [])
        (EchoServer_start K tid (EventLoopThread_startLoop K False place) s2)"
      by (simp add: EchoServer_start_def places_apart_def)
  qed
qed

end

section \<open>Properties\<close>

text \<open>
  C9. The start of the HTTP server. If \<open>main\<close> gets as far as its loop, then the
  server is in order: the table is empty, there are four loop threads, each of whose loops has its own thread, nothing to do and a wake-up channel
  that reads the eventfd; the listening socket is registered with the poller of the base loop and with the kernel; and the next
  connection goes to the first of the threads, under the conditions from which \<open>TcpServer_threads_accept\<close> goes on. The
  only failure on the way is the abort of a refused system call. With
  \<open>MUDUO_USE_POLL\<close> in the environment, however, the program always ends before that: there is no other poller than
  epoll, and the constructor of the loop uses a null pointer. The new loops, threads and channels have to be different objects.
\<close>

theorem HttpServer_main_starts:
  assumes "epoll_kernel K interest" "places_apart place http_threads 0 {0, 1}" "fst (place ''http-server0'') \<noteq> tid"
  shows "aborts_or (\<lambda>(cb, s'). cb = main_onRequest K localtime \<and> server_inv s' \<and> srv_connections s' = Map.empty \<and>
      pool_loops (srv_pool s') = map (loop_at place) http_threads \<and>
      (\<forall>n \<in> set http_threads. loop_made (fst (place n)) (loop_at place n) (chan_at place n) s') \<and>
      poller_channels (loops s' 0) (acc_fd s') = Some (acc_chan s') \<and>
      interest (kern s') (epollfd (loops s' 0)) (acc_fd s') = Some (kReadEvent, acc_chan s') \<and>
      server_dispatches 0 tid (loop_at place ''http-server0'') s' \<and> wake_channel (loop_at place ''http-server0'') s')
    (main_setup K False tid (EventLoopThread_startLoop K False place) localtime s) \<and>
    (\<exists>e. main_setup K True tid startLoop localtime s = Inl e \<and> (e = Aborted \<or> e = NullDeref))"
proof
  have first: "loop_at place ''http-server0'' \<noteq> 0" using assms(2) by (auto simp: places_apart_def http_threads_def)
  show "aborts_or (\<lambda>(cb, s'). cb = main_onRequest K localtime \<and> server_inv s' \<and> srv_connections s' = Map.empty \<and>
      pool_loops (srv_pool s') = map (loop_at place) http_threads \<and>
      (\<forall>n \<in> set http_threads. loop_made (fst (place n)) (loop_at place n) (chan_at place n) s') \<and>
      poller_channels (loops s' 0) (acc_fd s') = Some (acc_chan s') \<and>
      interest (kern s') (epollfd (loops s' 0)) (acc_fd s') = Some (kReadEvent, acc_chan s') \<and>
      server_dispatches 0 tid (loop_at place ''http-server0'') s' \<and> wake_channel (loop_at place ''http-server0'') s')
    (main_setup K False tid (EventLoopThread_startLoop K False place) localtime s)"
  proof (rule aborts_or_mono [OF epoll_kernel.main_setup_effect [OF assms(1,2)]], clarify)
    fix s'
    assume up: "server_up interest tid 0 place http_threads s'"
    then show "main_onRequest K localtime = main_onRequest K localtime \<and> server_inv s' \<and> srv_connections s' = Map.empty \<and>
        pool_loops (srv_pool s') = map (loop_at place) http_threads \<and>
        (\<forall>n \<in> set http_threads. loop_made (fst (place n)) (loop_at place n) (chan_at place n) s') \<and>
        poller_channels (loops s' 0) (acc_fd s') = Some (acc_chan s') \<and>
        interest (kern s') (epollfd (loops s' 0)) (acc_fd s') = Some (kReadEvent, acc_chan s') \<and>
        server_dispatches 0 tid (loop_at place ''http-server0'') s' \<and> wake_channel (loop_at place ''http-server0'') s'"
      using server_up_dispatches [OF up http_threads_def first assms(3)] by (simp add: server_up_def all_made_def)
  qed
  show "\<exists>e. main_setup K True tid startLoop localtime s = Inl e \<and> (e = Aborted \<or> e = NullDeref)"
    using EventLoop_ctor_use_poll [of K tid 0 0 s] by (auto simp: main_setup_def)
qed

text \<open>A kernel that gives every epoll instance a new descriptor, and a place for every thread.\<close>

definition fresh_kernel :: "ref_state kernel" where
  "fresh_kernel = ref_kernel\<lparr>sys_epoll_create1 :=
     \<lambda>k. (Inr (100 + int (length (rk_shut k))), k\<lparr>rk_shut := 0 # rk_shut k\<rparr>)\<rparr>"

interpretation fk: epoll_kernel fresh_kernel rk_interest
  by unfold_locales (auto simp: fresh_kernel_def ref_defs split: if_splits ctl_op.splits)

definition sample_place :: placing where
  "sample_place n = (if n = ''http-server0'' then (200, 10, 10) else if n = ''http-server1'' then (201, 11, 11)
     else if n = ''http-server2'' then (202, 12, 12) else (203, 13, 13))"

definition sample_empty :: "ref_state server" where
  "sample_empty = sample_blank\<lparr>kern := ref_init, t_loopInThisThread := Map.empty\<rparr>"

lemma sample_places: "places_apart sample_place http_threads 0 {0, 1}"
  by (simp add: places_apart_def sample_place_def http_threads_def loop_at_def chan_at_def)

text \<open>With this kernel nothing is refused, as long as \<open>n\<close> loops have been made and the listening socket is new.\<close>

definition fresh_ok :: "nat \<Rightarrow> (ref_state, 'a) world_scheme \<Rightarrow> bool" where
  "fresh_ok n w \<longleftrightarrow> length (rk_shut (kern w)) = n \<and> (\<forall>ep. rk_interest (kern w) ep 3 = None) \<and>
     (\<forall>m \<ge> n. rk_interest (kern w) (100 + int m) = Map.empty)"

lemma fresh_ctor:
  assumes "fresh_ok n w" "t_loopInThisThread w t = None"
  shows "\<exists>w'. EventLoop_ctor fresh_kernel False t l c w = Inr w' \<and> fresh_ok (Suc n) w' \<and>
    t_loopInThisThread w' = (t_loopInThisThread w)(t \<mapsto> l)"
  using assms
  by (auto simp: EventLoop_ctor_def Poller_newDefaultPoller_def EpollPoller_ctor_def createEventfd_def fresh_kernel_def ref_defs
      fresh_ok_def Channel_enableReading_def Channel_update_def EventLoop_updateChannel_def EpollPoller_updateChannel_def
      EpollPoller_update_def Channel_ctor_def kNew_def kAdded_def kDeleted_def Let_def)

lemma fresh_threads:
  assumes "fresh_ok n w" "\<forall>i \<in> set is. t_loopInThisThread w (fst (place (pool_thread_name p i))) = None"
    and "distinct (map (\<lambda>i. fst (place (pool_thread_name p i))) is)"
  shows "\<exists>r. pool_start_threads (EventLoopThread_startLoop fresh_kernel False place) is p w = Inr r \<and> fresh_ok (n + length is) (snd r)"
  using assms
proof (induction "is" arbitrary: n p w)
  case (Cons i "is")
  let ?n = "pool_thread_name p i"
  obtain t l c where pl: "place ?n = (t, l, c)" by (metis prod_cases3)
  obtain w1 where w1: "EventLoop_ctor fresh_kernel False t l c w = Inr w1" "fresh_ok (Suc n) w1"
    "t_loopInThisThread w1 = (t_loopInThisThread w)(t \<mapsto> l)"
    using fresh_ctor [OF Cons.prems(1), of t l c] Cons.prems(2) pl by auto
  let ?p = "p\<lparr>pool_threads := pool_threads p @ [?n], pool_loops := pool_loops p @ [l]\<rparr>"
  have name: "pool_thread_name ?p = pool_thread_name p" by (rule pool_thread_name_cong) simp
  have "\<forall>j \<in> set is. t_loopInThisThread w1 (fst (place (pool_thread_name ?p j))) = None"
    using Cons.prems(2,3) pl unfolding name w1(3) by (auto simp: image_iff)
  from Cons.IH [OF w1(2) this] Cons.prems(3) show ?case
    unfolding name by (simp add: EventLoopThread_startLoop_def pl w1(1))
qed simp

lemma fresh_listen:
  assumes "fresh_ok n s" "chans s (acc_chan s) = Channel_setReadCallback H_Acceptor_handleRead (Channel_ctor l 3)"
  shows "\<exists>s'. Acceptor_listen fresh_kernel s = Inr s'"
  using assms
  by (simp add: Acceptor_listen_def Socket_listen_def fresh_kernel_def ref_defs fresh_ok_def Channel_enableReading_def Channel_update_def
      EventLoop_updateChannel_def EpollPoller_updateChannel_def EpollPoller_update_def Channel_ctor_def kNew_def kAdded_def
      kDeleted_def Let_def)

lemma fresh_server:
  fixes s :: "(ref_state, 'a) server_scheme"
  shows "\<exists>cb s'. HttpServer_ctor fresh_kernel (Some 0) addr name opt ch s = Inr (cb, s') \<and> kern s' = kern s \<and>
    t_loopInThisThread s' = t_loopInThisThread s \<and> acc_fd s' = 3"
proof -
  obtain ip where "InetAddress_toIpPort addr = Inr ip" using toIpPort_ok by blast
  then show ?thesis
    by (simp add: HttpServer_ctor_def TcpServer_ctor_def CheckLoopNotNull_def Acceptor_ctor_def createNonblocking_def fresh_kernel_def
        ref_defs Socket_bindAddress_def Socket_setReusePort_def Socket_setReuseAddr_def TcpServer_setThreadNum_def
        TcpServer_setMessageCallback_def TcpServer_setConnectionCallback_def)
qed

lemma fresh_setup_succeeds:
  "\<exists>r. main_setup fresh_kernel False 100 (EventLoopThread_startLoop fresh_kernel False sample_place) (\<lambda>_. epoch_tm) sample_empty = Inr r"
proof -
  have "fresh_ok 0 sample_empty" by (simp add: fresh_ok_def sample_empty_def ref_init_def)
  then obtain s1 where s1: "EventLoop_ctor fresh_kernel False 100 0 0 sample_empty = Inr s1" "fresh_ok 1 s1"
    "t_loopInThisThread s1 = [100 \<mapsto> 0]"
    using fresh_ctor [of 0 sample_empty 100 0 0] by (auto simp: sample_empty_def)
  obtain cb s2 where s2: "HttpServer_ctor fresh_kernel (Some 0) (InetAddress_ctor 8080 ''127.0.0.1'') ''http-server'' kNoReusePort 1 s1 =
      Inr (cb, s2)" "kern s2 = kern s1" "t_loopInThisThread s2 = t_loopInThisThread s1" "acc_fd s2 = 3"
    using fresh_server by blast
  have made: "loop_made 100 0 0 s1" using fk.EventLoop_ctor_effect [of 100 0 0 sample_empty] s1(1) by simp
  have b: "server_built 0 1 ''http-server'' s2" "pool_numThreads (srv_pool s2) = 4"
    using fk.HttpServer_ctor_effect [OF made, of 1 "''http-server''" "InetAddress_ctor 8080 ''127.0.0.1''" kNoReusePort] s2(1) by simp_all
  let ?s = "s2\<lparr>srv_started := int32 (srv_started s2 + 1)\<rparr>" and ?p = "(srv_pool s2)\<lparr>pool_started := True\<rparr>"
  have names: "map (pool_thread_name ?p) [0..<nat (pool_numThreads (srv_pool s2))] = http_threads"
    using http_threads_names [of "srv_pool s2"] b pool_thread_name_cong [of ?p "srv_pool s2"]
    by (simp add: server_built_def pool_names_def)
  have free: "\<forall>i \<in> set [0..<4]. t_loopInThisThread ?s (fst (sample_place (pool_thread_name ?p i))) = None"
  proof
    fix i :: nat assume "i \<in> set [0..<4]"
    then have "pool_thread_name ?p i \<in> set http_threads" using b(2) by (simp flip: names)
    then show "t_loopInThisThread ?s (fst (sample_place (pool_thread_name ?p i))) = None"
      using s1(3) s2(3) by (auto simp: http_threads_def sample_place_def)
  qed
  have "distinct (map (\<lambda>n. fst (sample_place n)) http_threads)" by (simp add: http_threads_def sample_place_def)
  then have dist: "distinct (map (\<lambda>i. fst (sample_place (pool_thread_name ?p i))) [0..<4])"
    using b(2) by (simp flip: names add: comp_def)
  have "fresh_ok 1 ?s" using s1(2) s2(2) by (simp add: fresh_ok_def)
  from fresh_threads [OF this free dist] obtain p s3 where
    s3: "pool_start_threads (EventLoopThread_startLoop fresh_kernel False sample_place) [0..<4] ?p ?s = Inr (p, s3)" "fresh_ok 5 s3"
    by (auto simp: eval_nat_numeral)
  then have pool: "EventLoopThreadPool_start (EventLoopThread_startLoop fresh_kernel False sample_place) None (srv_pool s2) ?s = Inr (p, s3)"
    using b(2) by (simp add: EventLoopThreadPool_start_def)
  have "pool_names (srv_pool s2) = http_threads" using http_threads_names b by (simp add: server_built_def)
  then have bes: "beside (loop_at sample_place ` set http_threads) (chan_at sample_place ` set http_threads) ?s s3"
    using fk.EventLoopThreadPool_start_made [of sample_place "srv_pool s2" ?s] pool sample_places by (simp add: places_apart_def)
  then have "acc_chan s3 = 1" "chans s3 1 = Channel_setReadCallback H_Acceptor_handleRead (Channel_ctor 0 3)"
    using more_server_flags(2) [of s3 ?s] b(1) s2(4)
    by (simp_all add: beside_def server_built_def chan_at_def http_threads_def sample_place_def)
  then obtain s4 where "Acceptor_listen fresh_kernel (s3\<lparr>srv_pool := p\<rparr>) = Inr s4"
    using fresh_listen [of 5 "s3\<lparr>srv_pool := p\<rparr>" 0] s3(2) by (auto simp: fresh_ok_def)
  then show ?thesis
    using s1(1) s2(1) pool b(1)
    by (simp add: main_setup_def HttpServer_start_def TcpServer_start_def Let_def EventLoop_runInLoop_def server_built_def)
qed

theorem HttpServer_main_starts_witness:
  "\<exists>s'. main_setup fresh_kernel False 100 (EventLoopThread_startLoop fresh_kernel False sample_place) (\<lambda>_. epoch_tm) sample_empty =
      Inr (main_onRequest fresh_kernel (\<lambda>_. epoch_tm), s') \<and>
    pool_loops (srv_pool s') = [10, 11, 12, 13] \<and> server_dispatches 0 100 10 s' \<and> wake_channel 10 s'"
proof -
  obtain r where r: "main_setup fresh_kernel False 100 (EventLoopThread_startLoop fresh_kernel False sample_place)
      (\<lambda>_. epoch_tm) sample_empty = Inr r"
    using fresh_setup_succeeds by blast
  have "fst (sample_place ''http-server0'') \<noteq> 100" by (simp add: sample_place_def)
  note starts = HttpServer_main_starts [OF fk.epoll_kernel_axioms sample_places this, of "\<lambda>_. epoch_tm" sample_empty, THEN conjunct1, unfolded r]
  have "map (loop_at sample_place) http_threads = [10, 11, 12, 13]" "loop_at sample_place ''http-server0'' = 10"
    by (simp_all add: loop_at_def sample_place_def http_threads_def)
  then show ?thesis using starts r by (cases r) simp
qed

text \<open>The echo server starts with the base loop alone.\<close>

theorem EchoServer_main_starts:
  assumes "epoll_kernel K interest"
  shows "aborts_or (\<lambda>s'. server_inv s' \<and> srv_connections s' = Map.empty \<and> server_listens 0 tid s' \<and>
      poller_channels (loops s' 0) (acc_fd s') = Some (acc_chan s') \<and>
      interest (kern s') (epollfd (loops s' 0)) (acc_fd s') = Some (kReadEvent, acc_chan s'))
    (echo_setup K False tid (EventLoopThread_startLoop K False place) s)"
  by (rule aborts_or_mono [OF epoll_kernel.echo_setup_effect [OF assms]]) (auto simp: server_up_listens server_up_def)

end
