(* ===== verification/Net_Closing.thy ===== *)
theory Net_Closing
  imports Net_Lifecycle
begin

text \<open>
  The calls that a connection makes when it ends. The callbacks of this theory keep a record of their calls in the state: which callback, on
  which connection, in which state and with which registered events. The close callback is that of a server, which also takes the
  connection out of its table.
\<close>

section \<open>Callbacks with a record\<close>

datatype conn_call = CalledConnection conn StateE "32 word" | CalledMessage conn | CalledClose conn

definition note_call :: "conn_call \<Rightarrow> ('k, conn_call list) server_scheme \<Rightarrow> ('k, conn_call list) server_scheme" where
  "note_call e s = s\<lparr>server.more := server.more s @ [e]\<rparr>"

definition traced_callbacks :: "'k kernel \<Rightarrow> int \<Rightarrow> ('k, conn_call list) server_scheme callbacks" where
  "traced_callbacks K tid = \<lparr>
     connectionCallback = (\<lambda>c s. Inr (note_call (CalledConnection c (conn_state (conns s c)) (ch_events (chan_of c s))) s)),
     messageCallback = (\<lambda>c t s. Inr (note_call (CalledMessage c) s)),
     closeCallback = (\<lambda>c s. TcpServer_removeConnection K tid c (note_call (CalledClose c) s))\<rparr>"

lemma note_call_simps [simp]:
  "kern (note_call e s) = kern s" "chans (note_call e s) = chans s" "loops (note_call e s) = loops s" "conns (note_call e s) = conns s"
  "srv_loop (note_call e s) = srv_loop s" "srv_connections (note_call e s) = srv_connections s"
  "server.more (note_call e s) = server.more s @ [e]"
  by (simp_all add: note_call_def)

lemma chan_ok_note_call [simp]: "chan_ok interest d (note_call e s) = chan_ok interest d s"
  by (simp add: chan_ok_def)

lemma more_server_more:
  fixes s s' :: "('k, 'a) server_scheme"
  assumes "world.more s' = world.more s"
  shows "server.more s' = server.more s"
proof -
  have "s' = s\<lparr>kern := kern s', chans := chans s', loops := loops s', conns := conns s', strings := strings s',
      t_loopInThisThread := t_loopInThisThread s', error_log := error_log s'\<rparr>" (is "_ = ?s")
    by (rule world.equality) (simp_all add: assms)
  moreover have "server.more ?s = server.more s" by simp
  ultimately show ?thesis by metis
qed

section \<open>What removing a connection from its server leaves\<close>

text \<open>
  In the thread of the server's loop the table entry is gone and the destruction is queued to the connection's loop; in another thread
  that is queued to the server's loop.
\<close>

definition removal_asked :: "int \<Rightarrow> conn \<Rightarrow> ('k, 'a) server_scheme \<Rightarrow> ('k, 'a) server_scheme \<Rightarrow> bool" where
  "removal_asked tid c s s' \<longleftrightarrow>
     (if threadId (loops s (srv_loop s)) = tid
      then srv_connections s' = (srv_connections s)(conn_name (conns s c) := None) \<and>
        pendingFunctors (loops s' (conn_loop (conns s c))) = pendingFunctors (loops s (conn_loop (conns s c))) @ [F_connectDestroyed c]
      else srv_connections s' = srv_connections s \<and>
        pendingFunctors (loops s' (srv_loop s)) = pendingFunctors (loops s (srv_loop s)) @ [F_removeConnectionInLoop c])"

context net_kernel
begin

lemma removeConnection_asks:
  fixes s :: "('k, 'b) server_scheme"
  shows "\<exists>s'. TcpServer_removeConnection K tid c s = Inr s' \<and> removal_asked tid c s s' \<and> server.more s' = server.more s \<and>
    conns s' = conns s \<and> chans s' = chans s \<and> (\<forall>d. chan_ok interest d s' = chan_ok interest d s) \<and>
    (\<forall>l. epollfd (loops s' l) = epollfd (loops s l))"
proof -
  define t F l where "t = (if threadId (loops s (srv_loop s)) = tid
      then s\<lparr>srv_connections := (srv_connections s)(conn_name (conns s c) := None)\<rparr> else s)"
    and "F = (if threadId (loops s (srv_loop s)) = tid then F_connectDestroyed c else F_removeConnectionInLoop c)"
    and "l = (if threadId (loops s (srv_loop s)) = tid then conn_loop (conns s c) else srv_loop s)"
  let ?s' = "EventLoop_queueInLoop K tid l F t"
  have run: "TcpServer_removeConnection K tid c s = Inr ?s'"
    by (simp add: TcpServer_removeConnection_def EventLoop_runInLoop_def EventLoop_isInLoopThread_def
        TcpServer_removeConnectionInLoop_def t_def F_def l_def)
  have "world.more ?s' = world.more t" using queueInLoop_keeps [of t] unfolding keeps_server_def by blast
  note more = more_server_fields(1) [OF this] more_server_more [OF this]
  have "chan_ok interest d t = chan_ok interest d s" for d by (simp add: t_def chan_ok_def)
  then have "chan_ok interest d ?s' = chan_ok interest d s" for d by simp
  moreover have "epollfd (loops ?s' m) = epollfd (loops s m)" "conns ?s' = conns s" "chans ?s' = chans s" for m
    by (simp_all add: queue_defs EventLoop_wakeup_def t_def split: prod.split)
  moreover have "removal_asked tid c s ?s'"
    unfolding removal_asked_def more(1) by (auto simp: queueInLoop_pending_at t_def F_def l_def)
  moreover have "server.more ?s' = server.more s" unfolding more(2) by (simp add: t_def)
  ultimately show ?thesis using run by (intro exI [of _ ?s']) simp
qed

lemma handleClose_calls:
  fixes s :: "('k, conn_call list) server_scheme"
  assumes ok: "chan_ok interest (conn_channel (conns s c)) s" "ch_index (chan_of c s) = kAdded"
    and cb: "conn_hasConnectionCallback (conns s c)" "conn_hasCloseCallback (conns s c)"
  obtains s' where "TcpConnection_handleClose K (traced_callbacks K tid) c s = Inr s'" "removal_asked tid c s s'"
    "server.more s' = server.more s @ [CalledConnection c kDisconnected kNoneEvent, CalledClose c]"
    "conns s' = conns (TcpConnection_setState kDisconnected c s)" "chan_ok interest (conn_channel (conns s c)) s'"
proof -
  let ?ch = "conn_channel (conns s c)"
  obtain s1 where s1: "Channel_disableAll K ?ch (TcpConnection_setState kDisconnected c s) = Inr s1"
    "chan_ok interest ?ch s1" "ch_index (chans s1 ?ch) = kDeleted" "ch_events (chans s1 ?ch) = kNoneEvent" "same_but_chan ?ch (TcpConnection_setState kDisconnected c s) s1"
    by (rule close_disables [OF ok])
  note fr = same_but_chan_fields [OF s1(5)]
  have more: "world.more s1 = world.more s" using fr(10) by (simp add: TcpConnection_setState_def)
  note srv = more_server_fields [OF more] more_server_more [OF more]
  have conns1: "conns s1 = conns (TcpConnection_setState kDisconnected c s)" by (rule fr(8))
  let ?s2 = "note_call (CalledClose c) (note_call (CalledConnection c kDisconnected kNoneEvent) s1)"
  obtain s' where s': "TcpServer_removeConnection K tid c ?s2 = Inr s'" "removal_asked tid c ?s2 s'" "server.more s' = server.more ?s2"
    "conns s' = conns ?s2" "\<forall>d. chan_ok interest d s' = chan_ok interest d ?s2"
    using removeConnection_asks [of tid c ?s2] by blast
  have "TcpConnection_handleClose K (traced_callbacks K tid) c s = Inr s'"
    using s1(1,4) s'(1) cb conns1
    by (simp add: TcpConnection_handleClose_def call_connection_def call_close_def traced_callbacks_def TcpConnection_setState_def)
  moreover have "removal_asked tid c s s'"
    using s'(2) fr(4,5) srv(1,6) conns1 by (auto simp: removal_asked_def TcpConnection_setState_def split: if_splits)
  ultimately show thesis using s'(3-5) s1(2) srv conns1 by (intro that [of s']) simp_all
qed

text \<open>The destruction calls the connection callback of a connection that is still connected.\<close>

lemma connectDestroyed_calls:
  fixes s :: "('k, conn_call list) server_scheme"
  assumes ok: "chan_ok interest (conn_channel (conns s c)) s"
    and live: "conn_state (conns s c) = kConnected \<Longrightarrow> ch_index (chan_of c s) = kAdded \<and> conn_hasConnectionCallback (conns s c)"
  obtains s' where "TcpConnection_connectDestroyed K (traced_callbacks K tid) c s = Inr s'"
    "server.more s' = server.more s @ (if conn_state (conns s c) = kConnected then [CalledConnection c kDisconnected kNoneEvent] else [])"
    "conn_state (conns s' c) = (if conn_state (conns s c) = kConnected then kDisconnected else conn_state (conns s c))"
    "srv_connections s' = srv_connections s" "conn_channel (conns s' c) = conn_channel (conns s c)"
    "chan_ok interest (conn_channel (conns s c)) s'" "ch_index (chans s' (conn_channel (conns s c))) = kNew"
proof -
  let ?ch = "conn_channel (conns s c)"
  let ?call = "if conn_state (conns s c) = kConnected then [CalledConnection c kDisconnected kNoneEvent] else []"
  obtain s1 where s1: "TcpConnection_connectDestroyed K (traced_callbacks K tid) c s = Channel_remove K ?ch s1"
    "chan_ok interest ?ch s1" "server.more s1 = server.more s @ ?call" "srv_connections s1 = srv_connections s"
    "conn_state (conns s1 c) = (if conn_state (conns s c) = kConnected then kDisconnected else conn_state (conns s c))"
    "conn_channel (conns s1 c) = ?ch"
  proof (cases "conn_state (conns s c) = kConnected")
    case True
    obtain s1 where s1: "Channel_disableAll K ?ch (TcpConnection_setState kDisconnected c s) = Inr s1"
      "chan_ok interest ?ch s1" "ch_index (chans s1 ?ch) = kDeleted" "ch_events (chans s1 ?ch) = kNoneEvent" "same_but_chan ?ch (TcpConnection_setState kDisconnected c s) s1"
      using close_disables [OF ok] live [OF True] by metis
    note fr = same_but_chan_fields [OF s1(5)]
    have more: "world.more s1 = world.more s" using fr(10) by (simp add: TcpConnection_setState_def)
    have conns1: "conns s1 = conns (TcpConnection_setState kDisconnected c s)" by (rule fr(8))
    show thesis
      using that [of "note_call (CalledConnection c kDisconnected kNoneEvent) s1"] s1(1-4) live [OF True] True conns1
        more_server_fields(1) [OF more] more_server_more [OF more]
      by (simp add: TcpConnection_connectDestroyed_def call_connection_def traced_callbacks_def TcpConnection_setState_def)
  next
    case False
    then show thesis using that [of s] ok by (simp add: TcpConnection_connectDestroyed_def)
  qed
  obtain s' where s': "Channel_remove K ?ch s1 = Inr s'" using Channel_remove_succeeds by blast
  note rem = remove_ok [OF s1(2) s']
  note fr = same_but_chan_fields [OF rem(3)]
  show thesis
    using s1 s' rem fr(8) more_server_fields(1) [OF fr(10)] more_server_more [OF fr(10)] by (intro that [of s']) simp_all
qed

end

section \<open>Properties\<close>

text \<open>
  C30. Closing and destroying a connection of a server. \<open>handleClose\<close>, in a thread \<open>tid\<close>, calls the connection callback once, when the connection is marked
  disconnected and its channel has no events, and then the close callback once, which asks the server to remove the connection: in the thread of the server's loop
  the table entry is gone and \<open>connectDestroyed\<close> is queued to the connection's loop, otherwise that is queued to the server's loop. The
  \<open>connectDestroyed\<close> that follows calls nothing, takes the channel out of the poller and the kernel, and the connection takes no bytes any more. A
  \<open>connectDestroyed\<close> without a \<open>handleClose\<close> calls the connection callback once if the connection is connected, and else nothing; it never calls the close callback.
\<close>

theorem TcpConnection_close_then_destroy:
  fixes s :: "('k, conn_call list) server_scheme"
  assumes "net_kernel K interest sent" "chan_ok interest (conn_channel (conns s c)) s" "ch_index (chan_of c s) = kAdded"
    and "conn_hasConnectionCallback (conns s c)" "conn_hasCloseCallback (conns s c)"
  shows "(\<exists>s1 s2. TcpConnection_handleClose K (traced_callbacks K tid) c s = Inr s1 \<and>
      server.more s1 = server.more s @ [CalledConnection c kDisconnected kNoneEvent, CalledClose c] \<and> removal_asked tid c s s1 \<and>
      TcpConnection_connectDestroyed K (traced_callbacks K tid) c s1 = Inr s2 \<and> server.more s2 = server.more s1 \<and>
      srv_connections s2 = srv_connections s1 \<and> conn_state (conns s2 c) = kDisconnected \<and> ch_index (chan_of c s2) = kNew \<and>
      interest (kern s2) (epollfd (loops s2 (ch_loop (chan_of c s2)))) (ch_fd (chan_of c s2)) = None \<and>
      poller_channels (loops s2 (ch_loop (chan_of c s2))) (ch_fd (chan_of c s2)) = None \<and>
      send_taken K tid c data s2 = []) \<and>
    (\<exists>s3. TcpConnection_connectDestroyed K (traced_callbacks K tid) c s = Inr s3 \<and> ch_index (chan_of c s3) = kNew \<and>
      server.more s3 = server.more s @
        (if conn_state (conns s c) = kConnected then [CalledConnection c kDisconnected kNoneEvent] else []))"
proof
  note calls = net_kernel.connectDestroyed_calls [OF assms(1)]
  obtain s1 where s1: "TcpConnection_handleClose K (traced_callbacks K tid) c s = Inr s1" "removal_asked tid c s s1"
    "server.more s1 = server.more s @ [CalledConnection c kDisconnected kNoneEvent, CalledClose c]"
    "conns s1 = conns (TcpConnection_setState kDisconnected c s)" "chan_ok interest (conn_channel (conns s c)) s1"
    by (rule net_kernel.handleClose_calls [OF assms])
  then have c1: "conn_state (conns s1 c) = kDisconnected" "conn_channel (conns s1 c) = conn_channel (conns s c)"
    by (simp_all add: TcpConnection_setState_def)
  obtain s2 where s2: "TcpConnection_connectDestroyed K (traced_callbacks K tid) c s1 = Inr s2" "server.more s2 = server.more s1"
    "conn_state (conns s2 c) = kDisconnected" "srv_connections s2 = srv_connections s1" "conn_channel (conns s2 c) = conn_channel (conns s1 c)"
    "chan_ok interest (conn_channel (conns s1 c)) s2" "ch_index (chans s2 (conn_channel (conns s1 c))) = kNew"
    using calls [of s1 c tid] s1(5) c1 by auto
  have "interest (kern s2) (epollfd (loops s2 (ch_loop (chan_of c s2)))) (ch_fd (chan_of c s2)) = None \<and>
      poller_channels (loops s2 (ch_loop (chan_of c s2))) (ch_fd (chan_of c s2)) = None"
    using s2(5-7) by (auto simp: chan_ok_def Let_def kNew_def kAdded_def kDeleted_def)
  with s1 s2 show "\<exists>s1 s2. TcpConnection_handleClose K (traced_callbacks K tid) c s = Inr s1 \<and>
      server.more s1 = server.more s @ [CalledConnection c kDisconnected kNoneEvent, CalledClose c] \<and> removal_asked tid c s s1 \<and>
      TcpConnection_connectDestroyed K (traced_callbacks K tid) c s1 = Inr s2 \<and> server.more s2 = server.more s1 \<and>
      srv_connections s2 = srv_connections s1 \<and> conn_state (conns s2 c) = kDisconnected \<and> ch_index (chan_of c s2) = kNew \<and>
      interest (kern s2) (epollfd (loops s2 (ch_loop (chan_of c s2)))) (ch_fd (chan_of c s2)) = None \<and>
      poller_channels (loops s2 (ch_loop (chan_of c s2))) (ch_fd (chan_of c s2)) = None \<and>
      send_taken K tid c data s2 = []"
    by (intro exI [of _ s1] exI [of _ s2]) (simp add: send_taken_def)
  obtain s3 where "TcpConnection_connectDestroyed K (traced_callbacks K tid) c s = Inr s3"
    "server.more s3 = server.more s @ (if conn_state (conns s c) = kConnected then [CalledConnection c kDisconnected kNoneEvent] else [])"
    "conn_channel (conns s3 c) = conn_channel (conns s c)" "ch_index (chans s3 (conn_channel (conns s c))) = kNew"
    using calls [OF assms(2), of tid] assms(3,4) by metis
  then show "\<exists>s3. TcpConnection_connectDestroyed K (traced_callbacks K tid) c s = Inr s3 \<and> ch_index (chan_of c s3) = kNew \<and>
      server.more s3 = server.more s @
        (if conn_state (conns s c) = kConnected then [CalledConnection c kDisconnected kNoneEvent] else [])"
    by auto
qed

text \<open>A connection of the thread of the server's loop, which is in the table, before any call.\<close>

definition sample_recorded :: "(ref_state, conn_call list) server_scheme" where
  "sample_recorded = \<lparr>kern = kern sample_world, chans = chans sample_world, loops = loops sample_world,
     conns = conns sample_world, strings = strings sample_world, t_loopInThisThread = t_loopInThisThread sample_world,
     error_log = [], acc_loop = 0, acc_fd = 3, acc_chan = 2, acc_hasNewConnectionCallback = True, acc_listenning = True,
     srv_loop = 0, srv_ipPort = [], srv_name = [], srv_pool = EventLoopThreadPool_ctor 0 [],
     srv_hasConnectionCallback = True, srv_hasMessageCallback = True, srv_hasWriteCompleteCallback = False,
     srv_started = 1, srv_nextConnId = 2, srv_connections = [''c'' \<mapsto> 1], \<dots> = []\<rparr>"

theorem TcpConnection_close_then_destroy_witness:
  "(\<exists>s1 s2. TcpConnection_handleClose ref_kernel (traced_callbacks ref_kernel 100) 1 sample_recorded = Inr s1 \<and>
      server.more s1 = [CalledConnection 1 kDisconnected kNoneEvent, CalledClose 1] \<and> srv_connections s1 = Map.empty \<and>
      TcpConnection_connectDestroyed ref_kernel (traced_callbacks ref_kernel 100) 1 s1 = Inr s2 \<and>
      server.more s2 = [CalledConnection 1 kDisconnected kNoneEvent, CalledClose 1] \<and> ch_index (chan_of 1 s2) = kNew) \<and>
   (\<exists>s3. TcpConnection_connectDestroyed ref_kernel (traced_callbacks ref_kernel 100) 1 sample_recorded = Inr s3 \<and>
      server.more s3 = [CalledConnection 1 kDisconnected kNoneEvent])"
proof -
  have c: "chan_ok rk_interest (conn_channel (conns sample_recorded 1)) sample_recorded" "ch_index (chan_of 1 sample_recorded) = kAdded"
    "conn_hasConnectionCallback (conns sample_recorded 1)" "conn_hasCloseCallback (conns sample_recorded 1)"
    "conn_state (conns sample_recorded 1) = kConnected" "server.more sample_recorded = []"
    using sample_chan_ok by (simp_all add: sample_recorded_def sample_defs chan_ok_def)
  have gone: "removal_asked 100 1 sample_recorded s1 \<Longrightarrow> srv_connections s1 = Map.empty" for s1 :: "(ref_state, conn_call list) server_scheme"
    by (simp add: removal_asked_def sample_recorded_def sample_defs)
  show ?thesis
    using TcpConnection_close_then_destroy [OF rk.net_kernel_axioms c(1-4), of 100] c(5,6) gone by fastforce
qed

end
