(* ===== verification/Log_Stream.thy ===== *)
theory Log_Stream
  imports Prelude "HOL-Library.Signed_Division"
begin

text \<open>
  The text stream of the logger: the fixed-size character array of \<open>src/logger/FixedBuffer.h\<close> and
  the insertion operators of \<open>src/logger/LogStream.h\<close> and \<open>src/logger/LogStream.cc\<close>. The size of a
  \<open>FixedBuffer<SIZE>\<close> is the length of its array; its initial content is a parameter, because the
  constructor leaves the array uninitialised.
\<close>

section \<open>FixedBuffer\<close>

definition kSmallBuffer :: nat where "kSmallBuffer = 4000"
definition kLargeBuffer :: nat where "kLargeBuffer = 4000 * 1000"

record fixed_buffer =
  fb_data :: bytes
  fb_cur :: nat

definition FixedBuffer_ctor :: "bytes \<Rightarrow> fixed_buffer" where
  "FixedBuffer_ctor garbage = \<lparr>fb_data = garbage, fb_cur = 0\<rparr>"

definition FixedBuffer_avail :: "fixed_buffer \<Rightarrow> int" where
  "FixedBuffer_avail b = int32 (int (length (fb_data b)) - int (fb_cur b))"

definition FixedBuffer_length :: "fixed_buffer \<Rightarrow> int" where
  "FixedBuffer_length b = int32 (int (length (fb_data b)))"

definition FixedBuffer_append :: "bytes \<Rightarrow> fixed_buffer \<Rightarrow> fixed_buffer res" where
  "FixedBuffer_append buf b =
     (if size_t (FixedBuffer_avail b) > length buf
      then (if fb_cur b + length buf \<le> length (fb_data b)
            then Inr (b\<lparr>fb_data := write_at (fb_data b) (fb_cur b) buf, fb_cur := fb_cur b + length buf\<rparr>)
            else Inl OutOfBounds)
      else Inr b)"

definition FixedBuffer_add :: "nat \<Rightarrow> fixed_buffer \<Rightarrow> fixed_buffer" where
  "FixedBuffer_add len b = b\<lparr>fb_cur := fb_cur b + len\<rparr>"

definition FixedBuffer_reset :: "fixed_buffer \<Rightarrow> fixed_buffer" where
  "FixedBuffer_reset b = b\<lparr>fb_cur := 0\<rparr>"

definition FixedBuffer_bzero :: "fixed_buffer \<Rightarrow> fixed_buffer" where
  "FixedBuffer_bzero b = b\<lparr>fb_data := replicate (length (fb_data b)) NUL\<rparr>"

text \<open>\<open>std::string (data_, length ())\<close>; a negative length is a huge one, which throws.\<close>

definition FixedBuffer_toString :: "fixed_buffer \<Rightarrow> bytes res" where
  "FixedBuffer_toString b =
     (if FixedBuffer_length b < 0 then Inl LengthError
      else Inr (take (nat (FixedBuffer_length b)) (fb_data b)))"

text \<open>The characters written since the last reset, and the invariant of the array.\<close>

definition fb_text :: "fixed_buffer \<Rightarrow> bytes" where
  "fb_text b = take (fb_cur b) (fb_data b)"

definition fb_ok :: "fixed_buffer \<Rightarrow> bool" where
  "fb_ok b \<longleftrightarrow> fb_cur b \<le> length (fb_data b) \<and> length (fb_data b) < 2 ^ 31"

named_theorems fb_simps \<open>accessors of a well-formed fixed buffer\<close>

lemma FixedBuffer_avail_ok [fb_simps]: "fb_ok b \<Longrightarrow> FixedBuffer_avail b = int (length (fb_data b) - fb_cur b)"
  by (auto simp: fb_ok_def FixedBuffer_avail_def conv_simps)

lemma FixedBuffer_length_ok [fb_simps]: "fb_ok b \<Longrightarrow> FixedBuffer_length b = int (length (fb_data b))"
  by (auto simp: fb_ok_def FixedBuffer_length_def conv_simps)

lemma size_t_avail [fb_simps]: "fb_ok b \<Longrightarrow> size_t (FixedBuffer_avail b) = length (fb_data b) - fb_cur b"
  by (auto simp: FixedBuffer_avail_ok fb_ok_def conv_simps)

lemma write_at_take: "i + length ys \<le> length xs \<Longrightarrow> take (i + length ys) (write_at xs i ys) = take i xs @ ys"
  by (simp add: write_at_def)

lemma FixedBuffer_append_ok:
  assumes "fb_ok b"
  shows "\<exists>b'. FixedBuffer_append buf b = Inr b' \<and> fb_ok b' \<and> length (fb_data b') = length (fb_data b) \<and>
    fb_text b' = fb_text b @ (if fb_cur b + length buf < length (fb_data b) then buf else [])"
  using assms by (auto simp: FixedBuffer_append_def size_t_avail fb_ok_def fb_text_def write_at_take)

section \<open>LogStream\<close>

text \<open>
  A stream is its buffer, a \<open>FixedBuffer<kSmallBuffer>\<close>. \<open>formatInteger\<close> writes the digits of
  its argument from the last to the first, with the remainders of a division that truncates
  towards zero as indices into a table around the zero digit, and reverses them in place.
\<close>

definition kMaxNumericSize :: nat where "kMaxNumericSize = 48"

definition digits_table :: bytes where
  "digits_table = ''9876543210123456789''"

function format_loop :: "int \<Rightarrow> bytes" where
  "format_loop num =
     (let c = digits_table ! nat (9 + num smod 10); num' = num sdiv 10
      in if num' \<noteq> 0 then c # format_loop num' else [c])"
  by pat_completeness auto
termination
  by (relation "measure (\<lambda>num. nat \<bar>num\<bar>)") (auto simp: signed_divide_int_def sgn_if split: if_splits)

declare format_loop.simps [simp del]

definition LogStream_formatInteger :: "int \<Rightarrow> fixed_buffer \<Rightarrow> fixed_buffer res" where
  "LogStream_formatInteger num b =
     (if FixedBuffer_avail b \<ge> int kMaxNumericSize
      then (let chars = format_loop num @ (if num < 0 then [CHR ''-''] else [])
            in if fb_cur b + length chars < length (fb_data b)
               then Inr (FixedBuffer_add (length chars)
                      (b\<lparr>fb_data := write_at (write_at (fb_data b) (fb_cur b) (chars @ [NUL]))
                           (fb_cur b) (rev chars)\<rparr>))
               else Inl OutOfBounds)
      else Inr b)"

definition LogStream_append :: "bytes \<Rightarrow> fixed_buffer \<Rightarrow> fixed_buffer res" where
  "LogStream_append data b = FixedBuffer_append data b"

definition LogStream_resetBuffer :: "fixed_buffer \<Rightarrow> fixed_buffer" where
  "LogStream_resetBuffer b = FixedBuffer_reset b"

text \<open>
  The insertion operators. The integer ones convert their argument to the type that
  \<open>formatInteger\<close> is instantiated at, which keeps its value.
\<close>

datatype stream_arg =
    A_short int | A_ushort int | A_int int | A_uint int | A_long int | A_ulong int
  | A_longlong int | A_ulonglong int
  | A_float bytes | A_double bytes
  | A_char char
  | A_cstr "bytes option"
  | A_void "bytes option"
  | A_ucstr "bytes option"
  | A_string bytes
  | A_buffer fixed_buffer
  | A_general bytes int

text \<open>\<open>operator<< (double)\<close>: \<open>text\<close> is what the directive \<open>%.12g\<close> yields for the number.\<close>

definition LogStream_double :: "bytes \<Rightarrow> fixed_buffer \<Rightarrow> fixed_buffer res" where
  "LogStream_double text b =
     (if FixedBuffer_avail b \<ge> int kMaxNumericSize
      then (let stored = snprintf_to kMaxNumericSize text @ [NUL]
            in if fb_cur b + length stored \<le> length (fb_data b)
               then Inr (FixedBuffer_add (length text) (b\<lparr>fb_data := write_at (fb_data b) (fb_cur b) stored\<rparr>))
               else Inl OutOfBounds)
      else Inl MissingReturn)"

text \<open>\<open>operator<< (const char *)\<close>: the characters in front of the null byte, \<open>None\<close> a null pointer.\<close>

definition LogStream_cstr :: "bytes option \<Rightarrow> fixed_buffer \<Rightarrow> fixed_buffer res" where
  "LogStream_cstr str b =
     (case str of Some s \<Rightarrow> FixedBuffer_append (c_str s) b | None \<Rightarrow> FixedBuffer_append ''(null)'' b)"

text \<open>
  \<open>operator<< (const GeneralTemplate &)\<close>: \<open>len\<close> bytes from the array \<open>data\<close>; the length is converted
  to \<open>size_t\<close>, and reading beyond the array is invalid.
\<close>

definition LogStream_general :: "bytes \<Rightarrow> int \<Rightarrow> fixed_buffer \<Rightarrow> fixed_buffer res" where
  "LogStream_general data len b =
     (if size_t (FixedBuffer_avail b) > size_t len
      then (if size_t len \<le> length data then FixedBuffer_append (take (size_t len) data) b else Inl OutOfBounds)
      else Inr b)"

fun LogStream_put :: "stream_arg \<Rightarrow> fixed_buffer \<Rightarrow> fixed_buffer res" where
  "LogStream_put (A_short v) b = LogStream_formatInteger v b"
| "LogStream_put (A_ushort v) b = LogStream_formatInteger v b"
| "LogStream_put (A_int v) b = LogStream_formatInteger v b"
| "LogStream_put (A_uint v) b = LogStream_formatInteger v b"
| "LogStream_put (A_long v) b = LogStream_formatInteger v b"
| "LogStream_put (A_ulong v) b = LogStream_formatInteger v b"
| "LogStream_put (A_longlong v) b = LogStream_formatInteger v b"
| "LogStream_put (A_ulonglong v) b = LogStream_formatInteger v b"
| "LogStream_put (A_float v) b = LogStream_double v b"
| "LogStream_put (A_double v) b = LogStream_double v b"
| "LogStream_put (A_char c) b = FixedBuffer_append [c] b"
| "LogStream_put (A_void p) b = LogStream_cstr p b"
| "LogStream_put (A_cstr s) b = LogStream_cstr s b"
| "LogStream_put (A_ucstr s) b = LogStream_cstr s b"
| "LogStream_put (A_string s) b = FixedBuffer_append s b"
| "LogStream_put (A_buffer buf) b = rbind (FixedBuffer_toString buf) (\<lambda>s. FixedBuffer_append s b)"
| "LogStream_put (A_general data len) b = LogStream_general data len b"


section \<open>Integers\<close>

lemma digits_table_nth: "d < 10 \<Longrightarrow> digits_table ! (9 + d) = digit d" "d < 10 \<Longrightarrow> digits_table ! (9 - d) = digit d"
proof -
  have "\<forall>d \<in> {0..<10}. digits_table ! (9 + d) = digit d \<and> digits_table ! (9 - d) = digit d" by code_simp
  then show "d < 10 \<Longrightarrow> digits_table ! (9 + d) = digit d" "d < 10 \<Longrightarrow> digits_table ! (9 - d) = digit d"
    by simp_all
qed

lemma format_loop_show: "format_loop num = rev (show_nat (nat \<bar>num\<bar>))"
proof (induction num rule: format_loop.induct)
  case (1 num)
  let ?n = "nat \<bar>num\<bar>"
  have q: "nat \<bar>num sdiv 10\<bar> = ?n div 10" "num sdiv 10 = 0 \<longleftrightarrow> ?n < 10"
    by (auto simp: signed_divide_int_def sgn_if nat_div_distrib)
  have c: "digits_table ! nat (9 + num smod 10) = digit (?n mod 10)"
  proof (cases "num < 0")
    case True
    then have "num smod 10 = - int (?n mod 10)" by (simp add: signed_modulo_int_def zmod_int)
    then have "nat (9 + num smod 10) = 9 - ?n mod 10" by linarith
    then show ?thesis using digits_table_nth(2) [of "?n mod 10"] by simp
  next
    case False
    then have "num smod 10 = int (?n mod 10)" by (cases "num = 0") (simp_all add: signed_modulo_int_def zmod_int)
    then have "nat (9 + num smod 10) = 9 + ?n mod 10" by linarith
    then show ?thesis using digits_table_nth(1) [of "?n mod 10"] by simp
  qed
  show ?case
    using 1 [OF refl refl] q c by (simp add: format_loop.simps [of num] show_nat.simps [of ?n] Let_def)
qed

lemma formatInteger_chars: "rev (format_loop num @ (if num < 0 then [CHR ''-''] else [])) = show_int num"
  by (simp add: format_loop_show show_int_def)

lemma length_show_int64:
  assumes "- (2 ^ 63) \<le> num" "num < 2 ^ 64"
  shows "length (show_int num) \<le> 21"
proof -
  have "nat \<bar>num\<bar> < 10 ^ Suc 19" using assms by auto
  then have "length (show_nat (nat \<bar>num\<bar>)) \<le> Suc 19" by (rule length_show_nat_le)
  then show ?thesis by (auto simp: show_int_def)
qed

lemma formatInteger_ok:
  assumes "fb_ok b" "- (2 ^ 63) \<le> num" "num < 2 ^ 64"
  shows "\<exists>b'. LogStream_formatInteger num b = Inr b' \<and> fb_ok b' \<and> length (fb_data b') = length (fb_data b) \<and>
    fb_text b' = fb_text b @ (if fb_cur b + kMaxNumericSize \<le> length (fb_data b) then show_int num else [])"
proof (cases "fb_cur b + kMaxNumericSize \<le> length (fb_data b)")
  case False
  then show ?thesis
    using assms(1) by (auto simp: LogStream_formatInteger_def FixedBuffer_avail_ok fb_ok_def)
next
  case True
  define chars where "chars = format_loop num @ (if num < 0 then [CHR ''-''] else [])"
  have rev: "rev chars = show_int num" unfolding chars_def by (rule formatInteger_chars)
  then have len: "length chars = length (show_int num)" by (metis length_rev)
  then have fits: "fb_cur b + length chars < length (fb_data b)"
    using length_show_int64 [OF assms(2,3)] True by (simp add: kMaxNumericSize_def)
  let ?d = "write_at (write_at (fb_data b) (fb_cur b) (chars @ [NUL])) (fb_cur b) (rev chars)"
  let ?b' = "FixedBuffer_add (length chars) (b\<lparr>fb_data := ?d\<rparr>)"
  have run: "LogStream_formatInteger num b = Inr ?b'"
    using assms(1) True fits by (auto simp: LogStream_formatInteger_def FixedBuffer_avail_ok Let_def chars_def)
  have dl: "length ?d = length (fb_data b)" using fits by simp
  have "take (fb_cur b + length (rev chars)) ?d
      = take (fb_cur b) (write_at (fb_data b) (fb_cur b) (chars @ [NUL])) @ rev chars"
    using fits by (intro write_at_take) simp
  also have "take (fb_cur b) (write_at (fb_data b) (fb_cur b) (chars @ [NUL])) = take (fb_cur b) (fb_data b)"
    using fits by (simp add: write_at_def)
  finally have "fb_text ?b' = fb_text b @ show_int num"
    by (simp add: rev len fb_text_def FixedBuffer_add_def)
  moreover have "fb_ok ?b'" using assms(1) fits dl by (simp add: fb_ok_def FixedBuffer_add_def)
  ultimately show ?thesis using run dl True by (simp add: FixedBuffer_add_def)
qed

section \<open>Every insertion is all or nothing\<close>

text \<open>The text an argument stands for, and when an argument is one that C++ code can pass.\<close>

fun arg_text :: "stream_arg \<Rightarrow> bytes" where
  "arg_text (A_short v) = show_int v"
| "arg_text (A_ushort v) = show_int v"
| "arg_text (A_int v) = show_int v"
| "arg_text (A_uint v) = show_int v"
| "arg_text (A_long v) = show_int v"
| "arg_text (A_ulong v) = show_int v"
| "arg_text (A_longlong v) = show_int v"
| "arg_text (A_ulonglong v) = show_int v"
| "arg_text (A_float t) = t"
| "arg_text (A_double t) = t"
| "arg_text (A_char c) = [c]"
| "arg_text (A_void p) = (case p of Some s \<Rightarrow> c_str s | None \<Rightarrow> ''(null)'')"
| "arg_text (A_cstr p) = (case p of Some s \<Rightarrow> c_str s | None \<Rightarrow> ''(null)'')"
| "arg_text (A_ucstr p) = (case p of Some s \<Rightarrow> c_str s | None \<Rightarrow> ''(null)'')"
| "arg_text (A_string s) = s"
| "arg_text (A_buffer f) = fb_data f"
| "arg_text (A_general data len) = take (nat len) data"

fun arg_ok :: "stream_arg \<Rightarrow> bool" where
  "arg_ok (A_short v) = (- (2 ^ 15) \<le> v \<and> v < 2 ^ 15)"
| "arg_ok (A_ushort v) = (0 \<le> v \<and> v < 2 ^ 16)"
| "arg_ok (A_int v) = (- (2 ^ 31) \<le> v \<and> v < 2 ^ 31)"
| "arg_ok (A_uint v) = (0 \<le> v \<and> v < 2 ^ 32)"
| "arg_ok (A_long v) = (- (2 ^ 63) \<le> v \<and> v < 2 ^ 63)"
| "arg_ok (A_ulong v) = (0 \<le> v \<and> v < 2 ^ 64)"
| "arg_ok (A_longlong v) = (- (2 ^ 63) \<le> v \<and> v < 2 ^ 63)"
| "arg_ok (A_ulonglong v) = (0 \<le> v \<and> v < 2 ^ 64)"
| "arg_ok (A_float t) = (length t < kMaxNumericSize)"
| "arg_ok (A_double t) = (length t < kMaxNumericSize)"
| "arg_ok (A_buffer f) = fb_ok f"
| "arg_ok (A_general data len) = (0 \<le> len \<and> len \<le> int (length data) \<and> len < 2 ^ 31)"
| "arg_ok _ = True"

fun is_number :: "stream_arg \<Rightarrow> bool" where
  "is_number (A_char c) = False"
| "is_number (A_void p) = False"
| "is_number (A_cstr p) = False"
| "is_number (A_ucstr p) = False"
| "is_number (A_string s) = False"
| "is_number (A_buffer f) = False"
| "is_number (A_general d n) = False"
| "is_number _ = True"

text \<open>Room for an argument: a number asks for 48 characters, everything else for its length and one more.\<close>

definition arg_fits :: "stream_arg \<Rightarrow> fixed_buffer \<Rightarrow> bool" where
  "arg_fits a b \<longleftrightarrow> (if is_number a then fb_cur b + kMaxNumericSize \<le> length (fb_data b)
     else fb_cur b + length (arg_text a) < length (fb_data b))"

definition put_post :: "bytes \<Rightarrow> bool \<Rightarrow> fixed_buffer \<Rightarrow> fixed_buffer res \<Rightarrow> bool" where
  "put_post text fits b r \<longleftrightarrow> (\<exists>b'. r = Inr b' \<and> fb_ok b' \<and> length (fb_data b') = length (fb_data b) \<and>
     fb_text b' = fb_text b @ (if fits then text else []))"

lemma put_append: "fb_ok b \<Longrightarrow> put_post s (fb_cur b + length s < length (fb_data b)) b (FixedBuffer_append s b)"
  unfolding put_post_def by (rule FixedBuffer_append_ok)

lemma put_literal:
  "fb_ok b \<Longrightarrow> put_post [c] (Suc (fb_cur b) < length (fb_data b)) b (FixedBuffer_append [c] b)"
  "fb_ok b \<Longrightarrow> put_post ''(null)'' (Suc (Suc (Suc (Suc (Suc (Suc (fb_cur b)))))) < length (fb_data b)) b
     (FixedBuffer_append ''(null)'' b)"
  using put_append [of b "[c]"] put_append [of b "''(null)''"] by simp_all

lemma put_integer:
  assumes "fb_ok b" "- (2 ^ 63) \<le> num" "num < 2 ^ 64"
  shows "put_post (show_int num) (fb_cur b + kMaxNumericSize \<le> length (fb_data b)) b (LogStream_formatInteger num b)"
  unfolding put_post_def by (rule formatInteger_ok [OF assms])

lemma put_double:
  assumes "fb_ok b" "length t < kMaxNumericSize" "fb_cur b + kMaxNumericSize \<le> length (fb_data b)"
  shows "put_post t True b (LogStream_double t b)"
  using assms
  by (auto simp: put_post_def LogStream_double_def FixedBuffer_avail_ok snprintf_to_def kMaxNumericSize_def
      fb_ok_def fb_text_def FixedBuffer_add_def write_at_def)

lemma put_general:
  assumes "fb_ok b" "0 \<le> len" "len \<le> int (length data)" "len < 2 ^ 31"
  shows "put_post (take (nat len) data) (fb_cur b + nat len < length (fb_data b)) b (LogStream_general data len b)"
proof -
  have st: "size_t len = nat len" using assms(2,4) by (simp add: conv_simps)
  have len: "length (take (nat len) data) = nat len" using assms(3) by simp
  show ?thesis
    using put_append [OF assms(1), of "take (nat len) data"] assms(1,3) unfolding len
    by (auto simp: LogStream_general_def st size_t_avail put_post_def)
qed

lemma LogStream_put_post:
  assumes ok: "fb_ok b" "arg_ok a" and double: "\<And>t. a \<in> {A_float t, A_double t} \<Longrightarrow> arg_fits a b"
  shows "put_post (arg_text a) (arg_fits a b) b (LogStream_put a b)"
proof (cases a)
  case (A_float t)
  then show ?thesis using put_double [OF ok(1)] ok(2) double [of t] by (simp add: arg_fits_def)
next
  case (A_double t)
  then show ?thesis using put_double [OF ok(1)] ok(2) double [of t] by (simp add: arg_fits_def)
next
  case (A_buffer f)
  then show ?thesis
    using put_append [OF ok(1), of "fb_data f"] ok(2)
    by (simp add: arg_fits_def FixedBuffer_toString_def FixedBuffer_length_ok)
next
  case (A_general data len)
  then have "min (length data) (nat len) = nat len" using ok(2) by auto
  then show ?thesis using A_general put_general [OF ok(1), of len data] ok(2) by (simp add: arg_fits_def)
qed (use ok in \<open>auto simp: arg_fits_def LogStream_cstr_def intro: put_append put_literal put_integer split: option.split\<close>)

section \<open>Properties\<close>

text \<open>
  C27. \<open>formatInteger\<close> writes the decimal representation of every value of a signed or unsigned
  64-bit type, the smallest negative one included, although it divides before it looks at the
  sign; it stays inside the array, terminates, and writes nothing when fewer than 48 characters
  are left.
\<close>

theorem LogStream_formatInteger_correct:
  assumes "fb_ok b" "- (2 ^ 63) \<le> num" "num < 2 ^ 64"
  shows "\<exists>b'. LogStream_formatInteger num b = Inr b' \<and> fb_ok b' \<and>
    fb_text b' = fb_text b @ (if fb_cur b + kMaxNumericSize \<le> length (fb_data b) then show_int num else [])"
  using formatInteger_ok [OF assms] by blast

definition sample_stream :: fixed_buffer where
  "sample_stream = \<lparr>fb_data = replicate 60 (CHR ''#''), fb_cur = 2\<rparr>"

lemma sample_stream_ok: "fb_ok sample_stream"
  by (simp add: fb_ok_def sample_stream_def)

theorem LogStream_formatInteger_correct_witness:
  "\<exists>b'. LogStream_formatInteger (- (2 ^ 63)) sample_stream = Inr b' \<and> fb_ok b' \<and>
     fb_text b' = ''##-9223372036854775808''"
proof -
  have "show_int (- (2 ^ 63)) = ''-9223372036854775808''"
    by (simp add: show_int_def show_nat.simps)
  then show ?thesis
    using LogStream_formatInteger_correct [OF sample_stream_ok, of "- (2 ^ 63)"]
    by (simp add: sample_stream_def kMaxNumericSize_def fb_text_def numeral_2_eq_2)
qed

text \<open>
  C40. Every insertion operator either appends the whole text of its argument or, when there is not
  enough room, nothing at all; it never writes outside the array and never changes text that was
  written before. (A floating-point number is the exception: without room its operator ends
  without returning a value.)
\<close>

theorem LogStream_put_all_or_nothing:
  assumes "fb_ok b" "arg_ok a" "arg_fits a b \<or> (\<forall>t. a \<noteq> A_float t \<and> a \<noteq> A_double t)"
  shows "\<exists>b'. LogStream_put a b = Inr b' \<and> fb_ok b' \<and> length (fb_data b') = length (fb_data b) \<and>
    fb_text b' = fb_text b @ (if arg_fits a b then arg_text a else [])"
  using LogStream_put_post [OF assms(1,2)] assms(3) by (auto simp: put_post_def)

theorem LogStream_put_all_or_nothing_witness:
  "\<exists>b'. LogStream_put (A_general ''2024/01/02 03:04:05'' 17) sample_stream = Inr b' \<and> fb_ok b' \<and>
     fb_text b' = ''##2024/01/02 03:04:''"
  using LogStream_put_all_or_nothing [OF sample_stream_ok, of "A_general ''2024/01/02 03:04:05'' 17"]
  by (simp add: sample_stream_def arg_fits_def fb_text_def numeral_2_eq_2) blast

end
