(* ===== verification/Log_Logging.thy ===== *)
theory Log_Logging
  imports Log_Stream Base_Time
begin

text \<open>
  Log statements (\<open>src/logger/Logging.h\<close>, \<open>src/logger/Logging.cc\<close>): a \<open>Logger\<close> object collects one
  line in its stream and hands it to the output function when it is destroyed. The clock and
  \<open>localtime\<close> are parameters, as are the initial contents of the stream's array (\<open>garbage\<close>) and of
  the thread-local time array; the output and flush functions act on an arbitrary state.
\<close>

section \<open>Levels and source files\<close>

datatype LogLevel = TRACE | DEBUG | INFO | WARN | ERROR | FATAL

fun level_index :: "LogLevel \<Rightarrow> nat" where
  "level_index TRACE = 0"
| "level_index DEBUG = 1"
| "level_index INFO = 2"
| "level_index WARN = 3"
| "level_index ERROR = 4"
| "level_index FATAL = 5"

lemma level_index_inject [simp]: "level_index a = level_index b \<longleftrightarrow> a = b"
  by (cases a; cases b; simp)

instantiation LogLevel :: linorder
begin

definition less_eq_LogLevel :: "LogLevel \<Rightarrow> LogLevel \<Rightarrow> bool" where
  "less_eq_LogLevel a b \<longleftrightarrow> level_index a \<le> level_index b"

definition less_LogLevel :: "LogLevel \<Rightarrow> LogLevel \<Rightarrow> bool" where
  "less_LogLevel a b \<longleftrightarrow> level_index a < level_index b"

instance
  by standard (auto simp: less_eq_LogLevel_def less_LogLevel_def)

end

fun getLevelName :: "LogLevel \<Rightarrow> bytes" where
  "getLevelName TRACE = ''TRACE ''"
| "getLevelName DEBUG = ''DEBUG ''"
| "getLevelName INFO = ''INFO  ''"
| "getLevelName WARN = ''WARN  ''"
| "getLevelName ERROR = ''ERROR ''"
| "getLevelName FATAL = ''FATAL ''"

definition initLogLevel :: LogLevel where
  "initLogLevel = INFO"

text \<open>Which of the macros \<open>LOG_DEBUG\<close>, \<open>LOG_INFO\<close>, \<dots> make a log line at the global level \<open>g\<close>; there is none for \<open>TRACE\<close>.\<close>

fun log_enabled :: "LogLevel \<Rightarrow> LogLevel \<Rightarrow> bool" where
  "log_enabled g DEBUG = (g \<le> DEBUG)"
| "log_enabled g INFO = (g \<le> INFO)"
| "log_enabled g _ = True"

text \<open>\<open>SourceFile\<close>: what follows the last slash of the file name.\<close>

definition SourceFile_ctor :: "bytes \<Rightarrow> bytes" where
  "SourceFile_ctor filename =
     (let s = c_str filename
      in if CHR ''/'' \<in> set s then rev (takeWhile (\<lambda>c. c \<noteq> CHR ''/'') (rev s)) else s)"


section \<open>A log line\<close>

record logger =
  impl_stream :: fixed_buffer
  impl_level :: LogLevel
  impl_line :: int
  impl_basename :: bytes

text \<open>The array \<open>t_time\<close> after \<open>snprintf\<close>, and the 32-byte array with the microseconds.\<close>

definition store_text :: "bytes \<Rightarrow> bytes \<Rightarrow> bytes" where
  "store_text arr text = write_at arr 0 (snprintf_to (length arr) text @ [NUL])"

definition Logger_formatTime ::
    "(int \<Rightarrow> tm) \<Rightarrow> int \<Rightarrow> bytes \<Rightarrow> fixed_buffer \<Rightarrow> (fixed_buffer \<times> bytes) res" where
  "Logger_formatTime localtime now t_time s =
     (let seconds = now sdiv kMicroSecondsPerSecond;
          microseconds = int32 (now smod kMicroSecondsPerSecond);
          t_time' = store_text t_time (date_time_text (localtime seconds));
          buf = store_text (replicate 32 NUL) (printf_0d 6 microseconds @ '' '')
      in rbind (LogStream_put (A_general t_time' 17) s) (\<lambda>s1.
         rbind (LogStream_put (A_general buf 7) s1) (\<lambda>s2. Inr (s2, t_time'))))"

definition Logger_Impl_ctor ::
    "(int \<Rightarrow> tm) \<Rightarrow> int \<Rightarrow> (int \<Rightarrow> bytes) \<Rightarrow> bytes \<Rightarrow> bytes \<Rightarrow> LogLevel \<Rightarrow> int \<Rightarrow> bytes \<Rightarrow> int
      \<Rightarrow> (logger \<times> bytes) res" where
  "Logger_Impl_ctor localtime now getErrnoMsg garbage t_time level savedErrno file line =
     rbind (Logger_formatTime localtime now t_time (FixedBuffer_ctor garbage)) (\<lambda>(s1, t_time').
     rbind (LogStream_put (A_general (getLevelName level) 6) s1) (\<lambda>s2.
     rbind (if savedErrno \<noteq> 0
            then res_iter LogStream_put [A_cstr (Some (getErrnoMsg savedErrno)), A_cstr (Some '' (errno=''),
                   A_int savedErrno, A_cstr (Some '') '')] s2
            else Inr s2) (\<lambda>s3.
       Inr (\<lparr>impl_stream = s3, impl_level = level, impl_line = line, impl_basename = SourceFile_ctor file\<rparr>,
            t_time'))))"

definition Logger_Impl_finish :: "logger \<Rightarrow> logger res" where
  "Logger_Impl_finish lg =
     rbind (res_iter LogStream_put [A_cstr (Some '' - ''),
              A_general (impl_basename lg) (int (length (impl_basename lg))), A_char (CHR '':''),
              A_int (impl_line lg), A_char LF] (impl_stream lg))
       (\<lambda>s. Inr (lg\<lparr>impl_stream := s\<rparr>))"

text \<open>The three constructors of \<open>Logger\<close>; none passes an error number on.\<close>

definition Logger_ctor2 ::
    "(int \<Rightarrow> tm) \<Rightarrow> int \<Rightarrow> (int \<Rightarrow> bytes) \<Rightarrow> bytes \<Rightarrow> bytes \<Rightarrow> bytes \<Rightarrow> int \<Rightarrow> (logger \<times> bytes) res" where
  "Logger_ctor2 localtime now errmsg garbage t_time file line =
     Logger_Impl_ctor localtime now errmsg garbage t_time INFO 0 file line"

definition Logger_ctor3 ::
    "(int \<Rightarrow> tm) \<Rightarrow> int \<Rightarrow> (int \<Rightarrow> bytes) \<Rightarrow> bytes \<Rightarrow> bytes \<Rightarrow> bytes \<Rightarrow> int \<Rightarrow> LogLevel \<Rightarrow> (logger \<times> bytes) res" where
  "Logger_ctor3 localtime now errmsg garbage t_time file line level =
     Logger_Impl_ctor localtime now errmsg garbage t_time level 0 file line"

definition Logger_ctor4 ::
    "(int \<Rightarrow> tm) \<Rightarrow> int \<Rightarrow> (int \<Rightarrow> bytes) \<Rightarrow> bytes \<Rightarrow> bytes \<Rightarrow> bytes \<Rightarrow> int \<Rightarrow> LogLevel \<Rightarrow> bytes
      \<Rightarrow> (logger \<times> bytes) res" where
  "Logger_ctor4 localtime now errmsg garbage t_time file line level func =
     rbind (Logger_Impl_ctor localtime now errmsg garbage t_time level 0 file line) (\<lambda>(lg, t_time').
     rbind (res_iter LogStream_put [A_cstr (Some func), A_char (CHR '' '')] (impl_stream lg)) (\<lambda>s.
       Inr (lg\<lparr>impl_stream := s\<rparr>, t_time')))"

text \<open>
  The destructor: \<open>g_output\<close> gets \<open>data()\<close> and \<open>length()\<close>, that is, the characters in front of
  \<open>length()\<close>.
\<close>

definition Logger_dtor ::
    "(bytes \<Rightarrow> 's \<Rightarrow> 's res) \<Rightarrow> ('s \<Rightarrow> 's res) \<Rightarrow> logger \<Rightarrow> 's \<Rightarrow> 's res" where
  "Logger_dtor g_output g_flush lg st =
     rbind (Logger_Impl_finish lg) (\<lambda>lg'.
     rbind (FixedBuffer_toString (impl_stream lg')) (\<lambda>line.
     rbind (g_output line st) (\<lambda>st1.
       if impl_level lg' = FATAL then rbind (g_flush st1) (\<lambda>st2. Inl Aborted) else Inr st1)))"

text \<open>The global configuration, with the default output to standard output (a list of characters).\<close>

record 's logging_globals =
  g_logLevel :: LogLevel
  g_output :: "bytes \<Rightarrow> 's \<Rightarrow> 's res"
  g_flush :: "'s \<Rightarrow> 's res"

definition Logger_setLogLevel :: "LogLevel \<Rightarrow> 's logging_globals \<Rightarrow> 's logging_globals" where
  "Logger_setLogLevel level g = g\<lparr>g_logLevel := level\<rparr>"

definition Logger_setOutput :: "(bytes \<Rightarrow> 's \<Rightarrow> 's res) \<Rightarrow> 's logging_globals \<Rightarrow> 's logging_globals" where
  "Logger_setOutput out g = g\<lparr>g_output := out\<rparr>"

definition Logger_setFlush :: "('s \<Rightarrow> 's res) \<Rightarrow> 's logging_globals \<Rightarrow> 's logging_globals" where
  "Logger_setFlush flush g = g\<lparr>g_flush := flush\<rparr>"

definition defaultOutput :: "bytes \<Rightarrow> bytes \<Rightarrow> bytes res" where
  "defaultOutput data stdout = Inr (stdout @ data)"

definition defaultFlush :: "bytes \<Rightarrow> bytes res" where
  "defaultFlush stdout = Inr stdout"

definition initial_globals :: "bytes logging_globals" where
  "initial_globals = \<lparr>g_logLevel = initLogLevel, g_output = defaultOutput, g_flush = defaultFlush\<rparr>"

text \<open>
  The constructor that a macro calls: \<open>LOG_DEBUG\<close> passes the name of the function, \<open>LOG_INFO\<close> takes the
  default level, the others pass their level.
\<close>

definition LOG_ctor ::
    "(int \<Rightarrow> tm) \<Rightarrow> int \<Rightarrow> bytes \<Rightarrow> bytes \<Rightarrow> bytes \<Rightarrow> int \<Rightarrow> bytes \<Rightarrow> LogLevel \<Rightarrow> (logger \<times> bytes) res" where
  "LOG_ctor localtime now garbage t_time file line func level =
     (case level of
        DEBUG \<Rightarrow> Logger_ctor4 localtime now (\<lambda>_. []) garbage t_time file line DEBUG func
      | INFO \<Rightarrow> Logger_ctor2 localtime now (\<lambda>_. []) garbage t_time file line
      | _ \<Rightarrow> Logger_ctor3 localtime now (\<lambda>_. []) garbage t_time file line level)"

text \<open>
  A whole statement such as \<open>LOG_ERROR << a << b\<close>: it is skipped when the level is too low; otherwise the
  temporary object is constructed, the values are inserted, and the object is destroyed. The thread-local
  time array is returned with the state of the output.
\<close>

definition log_statement ::
    "'s logging_globals \<Rightarrow> (int \<Rightarrow> tm) \<Rightarrow> int \<Rightarrow> bytes \<Rightarrow> bytes \<Rightarrow> bytes \<Rightarrow> int \<Rightarrow> bytes \<Rightarrow> LogLevel
      \<Rightarrow> stream_arg list \<Rightarrow> 's \<Rightarrow> ('s \<times> bytes) res" where
  "log_statement g localtime now garbage t_time file line func level args st =
     (if log_enabled (g_logLevel g) level
      then rbind (LOG_ctor localtime now garbage t_time file line func level) (\<lambda>(lg, t_time').
           rbind (res_iter LogStream_put args (impl_stream lg)) (\<lambda>s.
           rbind (Logger_dtor (g_output g) (g_flush g) (lg\<lparr>impl_stream := s\<rparr>) st) (\<lambda>st'.
             Inr (st', t_time'))))
      else Inr (st, t_time))"


section \<open>The text of a line\<close>

lemma fb_text_length: "fb_ok b \<Longrightarrow> length (fb_text b) = fb_cur b"
  by (simp add: fb_text_def fb_ok_def)

definition puts_text :: "stream_arg list \<Rightarrow> bytes" where
  "puts_text args = concat (map arg_text args)"

lemma puts_fit:
  assumes "fb_ok b" "list_all arg_ok args"
    and "fb_cur b + length (puts_text args) + kMaxNumericSize \<le> length (fb_data b)"
  shows "\<exists>b'. res_iter LogStream_put args b = Inr b' \<and> fb_ok b' \<and> length (fb_data b') = length (fb_data b) \<and>
    fb_text b' = fb_text b @ puts_text args"
  using assms
proof (induction args arbitrary: b)
  case Nil
  then show ?case by (simp add: puts_text_def)
next
  case (Cons a args)
  have "arg_fits a b" using Cons.prems(3) by (auto simp: arg_fits_def puts_text_def kMaxNumericSize_def)
  then obtain c where c: "LogStream_put a b = Inr c" "fb_ok c" "length (fb_data c) = length (fb_data b)"
    "fb_text c = fb_text b @ arg_text a"
    using LogStream_put_post [of b a] Cons.prems(1,2) by (auto simp: put_post_def)
  have "fb_cur c = fb_cur b + length (arg_text a)"
    using fb_text_length [OF c(2)] fb_text_length [OF Cons.prems(1)] c(4) by simp
  then have "fb_cur c + length (puts_text args) + kMaxNumericSize \<le> length (fb_data c)"
    using Cons.prems(3) c(3) by (simp add: puts_text_def)
  then obtain b' where "res_iter LogStream_put args c = Inr b'" "fb_ok b'"
    "length (fb_data b') = length (fb_data c)" "fb_text b' = fb_text c @ puts_text args"
    using Cons.IH [OF c(2)] Cons.prems(2) by auto
  then show ?case using c by (simp add: puts_text_def)
qed

text \<open>All insertions of a log statement, in order.\<close>

definition time_args :: "(int \<Rightarrow> tm) \<Rightarrow> int \<Rightarrow> bytes \<Rightarrow> stream_arg list" where
  "time_args localtime now t_time =
     [A_general (store_text t_time (date_time_text (localtime (now sdiv kMicroSecondsPerSecond)))) 17,
      A_general (store_text (replicate 32 NUL) (printf_0d 6 (int32 (now smod kMicroSecondsPerSecond)) @ '' '')) 7]"

definition line_args :: "(int \<Rightarrow> tm) \<Rightarrow> int \<Rightarrow> bytes \<Rightarrow> bytes \<Rightarrow> int \<Rightarrow> LogLevel \<Rightarrow> stream_arg list \<Rightarrow> stream_arg list" where
  "line_args localtime now t_time file line level args =
     time_args localtime now t_time @ [A_general (getLevelName level) 6] @ args @
     [A_cstr (Some '' - ''), A_general (SourceFile_ctor file) (int (length (SourceFile_ctor file))),
      A_char (CHR '':''), A_int line, A_char LF]"

text \<open>\<open>LOG_DEBUG\<close> puts the name of the function and a space in front of the values.\<close>

definition body_args :: "bytes \<Rightarrow> LogLevel \<Rightarrow> stream_arg list \<Rightarrow> stream_arg list" where
  "body_args func level args = (if level = DEBUG then [A_cstr (Some func), A_char (CHR '' '')] else []) @ args"

lemma log_statement_puts:
  assumes "log_enabled (g_logLevel g) level"
  shows "log_statement g localtime now garbage t_time file line func level args st =
     rbind (res_iter LogStream_put (line_args localtime now t_time file line level (body_args func level args))
       (FixedBuffer_ctor garbage)) (\<lambda>s.
     rbind (FixedBuffer_toString s) (\<lambda>l. rbind (g_output g l st) (\<lambda>st1.
       if level = FATAL then rbind (g_flush g st1) (\<lambda>_. Inl Aborted)
       else Inr (st1, store_text t_time (date_time_text (localtime (now sdiv kMicroSecondsPerSecond)))))))"
  using assms
  by (cases level)
    (simp_all add: log_statement_def LOG_ctor_def Logger_ctor2_def Logger_ctor3_def Logger_ctor4_def Logger_Impl_ctor_def
      Logger_formatTime_def Let_def rbind_assoc Logger_dtor_def Logger_Impl_finish_def line_args_def body_args_def
      time_args_def res_iter_append del: LogStream_put.simps)

text \<open>
  The line a reader expects, with the time stamp as the code writes it: the first 17 characters of
  the date and time.
\<close>

definition log_line :: "(int \<Rightarrow> tm) \<Rightarrow> int \<Rightarrow> bytes \<Rightarrow> int \<Rightarrow> LogLevel \<Rightarrow> stream_arg list \<Rightarrow> bytes" where
  "log_line localtime now file line level args =
     minute_text (localtime (now div kMicroSecondsPerSecond)) @
     printf_0d 6 (now mod kMicroSecondsPerSecond) @ '' '' @ getLevelName level @ puts_text args @
     '' - '' @ SourceFile_ctor file @ '':'' @ show_int line @ [LF]"

lemma length_getLevelName: "length (getLevelName level) = 6"
  by (cases level) simp_all

lemma store_text_take:
  assumes "length text < length arr" "n \<le> length text"
  shows "take n (store_text arr text) = take n text"
  using assms by (simp add: store_text_def snprintf_to_def write_at_def)

lemma SourceFile_no_NUL: "c_str (SourceFile_ctor f) = SourceFile_ctor f"
proof -
  have "\<forall>c \<in> set (c_str f). c \<noteq> NUL" by (auto simp: c_str_def dest: set_takeWhileD)
  then have "\<forall>c \<in> set (SourceFile_ctor f). c \<noteq> NUL"
    by (auto simp: SourceFile_ctor_def Let_def dest!: set_takeWhileD)
  then show ?thesis by (simp add: c_str_def)
qed

lemma time_args_text:
  assumes "0 \<le> now" "tm_ok (localtime (now div kMicroSecondsPerSecond))" "length t_time = 64"
  shows "puts_text (time_args localtime now t_time) = minute_text (localtime (now div kMicroSecondsPerSecond)) @
      printf_0d 6 (now mod kMicroSecondsPerSecond) @ '' ''" (is ?text)
    and "list_all arg_ok (time_args localtime now t_time)" (is ?ok)
proof -
  let ?t = "localtime (now div kMicroSecondsPerSecond)"
  have dm: "now sdiv kMicroSecondsPerSecond = now div kMicroSecondsPerSecond"
    "now smod kMicroSecondsPerSecond = now mod kMicroSecondsPerSecond"
    using assms(1) by (simp_all add: kMicroSecondsPerSecond_def signed_division_nonneg)
  have us: "0 \<le> now mod kMicroSecondsPerSecond" "now mod kMicroSecondsPerSecond < 1000000"
    by (simp_all add: kMicroSecondsPerSecond_def)
  then have i32: "int32 (now mod kMicroSecondsPerSecond) = now mod kMicroSecondsPerSecond" by (simp add: int32_id)
  note l6 = length_printf_06d [OF us]
  have "take 17 (store_text t_time (date_time_text ?t)) = minute_text ?t"
    using length_date_time_text [OF assms(2)] length_minute_text [OF assms(2)] assms(3)
    by (simp add: store_text_take) (simp add: date_time_text_def)
  moreover have "take 7 (store_text (replicate 32 NUL) (printf_0d 6 (now mod kMicroSecondsPerSecond) @ '' ''))
      = printf_0d 6 (now mod kMicroSecondsPerSecond) @ '' ''"
    using l6 by (simp add: store_text_take)
  ultimately show ?text by (simp add: puts_text_def time_args_def dm i32)
  have "length (store_text t_time (date_time_text ?t)) = 64" "length (store_text (replicate 32 NUL) s) = 32" for s
    using assms(3) length_date_time_text [OF assms(2)] by (simp_all add: store_text_def snprintf_to_def write_at_def)
  then show ?ok by (simp add: time_args_def dm)
qed

lemma line_args_text:
  assumes "0 \<le> now" "tm_ok (localtime (now div kMicroSecondsPerSecond))" "length t_time = 64"
  shows "puts_text (line_args localtime now t_time file line level args) = log_line localtime now file line level args"
  using time_args_text(1) [where localtime = localtime, OF assms] length_getLevelName [of level]
  by (simp add: puts_text_def line_args_def log_line_def c_str_def NUL_def)

lemma line_args_ok:
  assumes "0 \<le> now" "tm_ok (localtime (now div kMicroSecondsPerSecond))" "length t_time = 64"
    and "list_all arg_ok args" "- (2 ^ 31) \<le> line" "line < 2 ^ 31" "length (SourceFile_ctor file) < 2 ^ 31"
  shows "list_all arg_ok (line_args localtime now t_time file line level args)"
  using time_args_text(2) [where localtime = localtime, OF assms(1-3)] assms(4-7) length_getLevelName [of level]
  by (simp add: line_args_def)


lemma log_statement_line:
  assumes "length garbage = kSmallBuffer" "length t_time = 64"
    and "0 \<le> now" "tm_ok (localtime (now div kMicroSecondsPerSecond))"
    and "list_all arg_ok (body_args func level args)" "- (2 ^ 31) \<le> line" "line < 2 ^ 31"
    and "length (log_line localtime now file line level (body_args func level args)) + kMaxNumericSize \<le> kSmallBuffer"
    and "log_enabled (g_logLevel g) level"
  shows "\<exists>rest t_time'. length (log_line localtime now file line level (body_args func level args) @ rest) = kSmallBuffer \<and>
    length t_time' = 64 \<and>
    log_statement g localtime now garbage t_time file line func level args st =
      rbind (g_output g (log_line localtime now file line level (body_args func level args) @ rest) st)
        (\<lambda>st1. if level = FATAL then rbind (g_flush g st1) (\<lambda>_. Inl Aborted) else Inr (st1, t_time'))"
proof -
  let ?as = "line_args localtime now t_time file line level (body_args func level args)"
  let ?l = "log_line localtime now file line level (body_args func level args)"
  let ?t = "localtime (now sdiv kMicroSecondsPerSecond)"
  have tx: "puts_text ?as = ?l" by (rule line_args_text [where localtime = localtime, OF assms(3,4,2)])
  have ok: "fb_ok (FixedBuffer_ctor garbage)"
    using assms(1) by (simp add: fb_ok_def FixedBuffer_ctor_def kSmallBuffer_def)
  have "length (SourceFile_ctor file) < 2 ^ 31"
    using assms(8) by (simp add: log_line_def kSmallBuffer_def)
  then have aok: "list_all arg_ok ?as"
    using assms(2-7) by (intro line_args_ok)
  obtain b where b: "res_iter LogStream_put ?as (FixedBuffer_ctor garbage) = Inr b" "fb_ok b"
    "length (fb_data b) = kSmallBuffer" "fb_text b = ?l"
    using puts_fit [OF ok aok] assms(1,8) unfolding tx by (auto simp: FixedBuffer_ctor_def fb_text_def)
  have "fb_data b = ?l @ drop (fb_cur b) (fb_data b)"
    using b(4) append_take_drop_id [of "fb_cur b" "fb_data b"] by (simp add: fb_text_def)
  moreover have "tm_ok ?t" using assms(3,4) by (simp add: kMicroSecondsPerSecond_def signed_division_nonneg)
  then have "length (store_text t_time (date_time_text ?t)) = 64"
    using assms(2) length_date_time_text [of ?t] by (simp add: store_text_def snprintf_to_def write_at_def)
  ultimately show ?thesis
    using b(1,2,3)
    by (intro exI [of _ "drop (fb_cur b) (fb_data b)"] exI [of _ "store_text t_time (date_time_text ?t)"])
      (simp add: log_statement_puts [OF assms(9)] FixedBuffer_toString_def FixedBuffer_length_ok)
qed


section \<open>Properties\<close>

text \<open>
  C33. A log statement that fits the 4000-character array: a \<open>DEBUG\<close> or \<open>INFO\<close> statement below the global level
  does nothing; of any other, what the output function receives begins
  with the line (time stamp, level, for \<open>DEBUG\<close> the function, the inserted values, file and line number, line feed), but it
  is always the whole array, 4000 characters, because \<open>FixedBuffer::length\<close> is the size of the
  array and not of the text: the rest is whatever the array held. A \<open>FATAL\<close> statement flushes
  and aborts after the output, every other one returns.
\<close>

theorem log_statement_output:
  assumes "length garbage = kSmallBuffer" "length t_time = 64"
    and "0 \<le> now" "tm_ok (localtime (now div kMicroSecondsPerSecond))"
    and "list_all arg_ok (body_args func level args)" "- (2 ^ 31) \<le> line" "line < 2 ^ 31"
    and "length (log_line localtime now file line level (body_args func level args)) + kMaxNumericSize \<le> kSmallBuffer"
  shows "if log_enabled (g_logLevel g) level
    then \<exists>rest t_time'. length (log_line localtime now file line level (body_args func level args) @ rest) = kSmallBuffer \<and>
      length t_time' = 64 \<and>
      log_statement g localtime now garbage t_time file line func level args st =
        rbind (g_output g (log_line localtime now file line level (body_args func level args) @ rest) st)
          (\<lambda>st1. if level = FATAL then rbind (g_flush g st1) (\<lambda>_. Inl Aborted) else Inr (st1, t_time'))
    else log_statement g localtime now garbage t_time file line func level args st = Inr (st, t_time)"
  using log_statement_line [OF assms, where g = g and st = st] by (simp add: log_statement_def)

definition sample_tm :: tm where
  "sample_tm = \<lparr>tm_year = 124, tm_mon = 0, tm_mday = 2, tm_hour = 3, tm_min = 4, tm_sec = 5\<rparr>"

theorem log_statement_output_witness:
  "\<exists>rest t_time'. length (log_line (\<lambda>_. sample_tm) 1704164645000042 ''src/net/a.cc'' 7 ERROR [A_string ''fail''] @ rest) = kSmallBuffer \<and>
    length t_time' = 64 \<and>
    log_statement initial_globals (\<lambda>_. sample_tm) 1704164645000042 (replicate kSmallBuffer NUL)
        (replicate 64 NUL) ''src/net/a.cc'' 7 ''f'' ERROR [A_string ''fail''] [] =
      rbind (g_output initial_globals (log_line (\<lambda>_. sample_tm) 1704164645000042 ''src/net/a.cc'' 7 ERROR [A_string ''fail''] @ rest) [])
        (\<lambda>st1. if ERROR = FATAL then rbind (g_flush initial_globals st1) (\<lambda>_. Inl Aborted) else Inr (st1, t_time'))"
proof -
  have tm: "tm_ok ((\<lambda>_. sample_tm) (1704164645000042 div kMicroSecondsPerSecond))"
    by (simp add: tm_ok_def sample_tm_def)
  then have "length (minute_text sample_tm) = 17" by (simp add: length_minute_text)
  moreover have "length (printf_0d 6 (1704164645000042 mod kMicroSecondsPerSecond)) = 6"
    by (rule length_printf_06d) (simp_all add: kMicroSecondsPerSecond_def)
  moreover have "length (SourceFile_ctor ''src/net/a.cc'') = 4"
    by (simp add: SourceFile_ctor_def c_str_def NUL_def)
  moreover have "length (show_int 7) = 1" by (simp add: show_int_def show_nat.simps)
  ultimately have "length (log_line (\<lambda>_. sample_tm) 1704164645000042 ''src/net/a.cc'' 7 ERROR
      (body_args ''f'' ERROR [A_string ''fail''])) + kMaxNumericSize \<le> kSmallBuffer"
    by (simp add: log_line_def body_args_def puts_text_def kMaxNumericSize_def kSmallBuffer_def)
  from log_statement_output [OF _ _ _ tm _ _ _ this, of "replicate kSmallBuffer NUL" "replicate 64 NUL" initial_globals "[]"]
  show ?thesis by (simp add: body_args_def)
qed

text \<open>
  The time stamp of a log line has no seconds: \<open>formatTime\<close> puts 17 of the 19 characters of
  the date and time, which end with the colon behind the minutes, and then the microseconds. Two
  lines that differ only in the second carry the same stamp.
\<close>

theorem formatTime_drops_seconds:
  assumes "length t_time = 64" "0 \<le> now" "fb_ok s" "fb_cur s + 72 \<le> length (fb_data s)"
    and "tm_ok (localtime (now div kMicroSecondsPerSecond))"
  shows "\<exists>s' t_time'. Logger_formatTime localtime now t_time s = Inr (s', t_time') \<and>
    fb_text s' = fb_text s @ minute_text (localtime (now div kMicroSecondsPerSecond)) @
      printf_0d 6 (now mod kMicroSecondsPerSecond) @ '' '' \<and>
    (\<forall>sec. minute_text (localtime (now div kMicroSecondsPerSecond)) =
           minute_text ((localtime (now div kMicroSecondsPerSecond))\<lparr>tm_sec := sec\<rparr>))"
proof -
  note ta = time_args_text [where localtime = localtime, OF assms(2,5,1)]
  have "length (printf_0d 6 (now mod kMicroSecondsPerSecond)) = 6"
    by (rule length_printf_06d) (simp_all add: kMicroSecondsPerSecond_def)
  then have "length (puts_text (time_args localtime now t_time)) = 24"
    using ta(1) length_minute_text [OF assms(5)] by simp
  then obtain s' where "res_iter LogStream_put (time_args localtime now t_time) s = Inr s'"
    "fb_text s' = fb_text s @ puts_text (time_args localtime now t_time)"
    using puts_fit [OF assms(3) ta(2)] assms(4) by (auto simp: kMaxNumericSize_def)
  then show ?thesis
    using ta(1) by (auto simp: Logger_formatTime_def Let_def time_args_def minute_text_def rbind_eq_Inr_iff
        simp del: LogStream_put.simps)
qed

theorem formatTime_drops_seconds_witness:
  "\<exists>s' t_time'. Logger_formatTime (\<lambda>_. sample_tm) 1704164645000042 (replicate 64 NUL)
       (FixedBuffer_ctor (replicate 100 NUL)) = Inr (s', t_time') \<and>
     fb_text s' = ''2024/01/02 03:04:000042 ''"
proof -
  have r4: "replicate 4 (CHR ''0'') = ''0000''" by (simp add: eval_nat_numeral)
  have "minute_text sample_tm @ printf_0d 6 (1704164645000042 mod kMicroSecondsPerSecond) @ '' '' = ''2024/01/02 03:04:000042 ''"
    by (simp add: minute_text_def sample_tm_def printf_0d_def printf_d_def show_int_def show_padded_def
        show_nat.simps kMicroSecondsPerSecond_def r4)
  moreover have "tm_ok ((\<lambda>_. sample_tm) (1704164645000042 div kMicroSecondsPerSecond))"
    by (simp add: tm_ok_def sample_tm_def)
  ultimately show ?thesis
    using formatTime_drops_seconds [of "replicate 64 NUL" 1704164645000042 "FixedBuffer_ctor (replicate 100 NUL)" "\<lambda>_. sample_tm"]
    by (auto simp: fb_ok_def FixedBuffer_ctor_def fb_text_def)
qed

end
