(* ===== verification/Log_File.thy ===== *)
theory Log_File
  imports Base_Time
begin

text \<open>
  Log files (\<open>src/logger/FileUtil.h\<close>, \<open>src/logger/FileUtil.cc\<close>, \<open>src/logger/LogFile.h\<close>,
  \<open>src/logger/LogFile.cc\<close>). The C library is a parameter: a record \<open>'e file_env\<close> of the calls the
  code makes, on an unknown state \<open>'e\<close>. What a file has been given is recorded per file name; a
  file opened for appending continues what is there. A call that retries for ever does not return:
  \<open>None\<close>.
\<close>

section \<open>FileUtil\<close>

record 'e file_env =
  env_fopen :: "bytes \<Rightarrow> 'e \<Rightarrow> bool \<times> 'e"
  env_fwrite :: "bytes \<Rightarrow> bytes \<Rightarrow> 'e \<Rightarrow> nat \<times> 'e"
  env_fflush :: "bytes \<Rightarrow> 'e \<Rightarrow> 'e"
  env_fclose :: "bytes \<Rightarrow> 'e \<Rightarrow> 'e"
  env_time :: "'e \<Rightarrow> int \<times> 'e"
  env_strftime :: "int \<Rightarrow> bytes"

record 'e log_io =
  io_env :: 'e
  io_files :: "bytes \<Rightarrow> bytes"

record file_util =
  fu_name :: bytes
  fu_writtenBytes :: int

text \<open>The constructor opens the file and sets its buffer; the latter fails on a null stream.\<close>

definition FileUtil_ctor :: "'e file_env \<Rightarrow> bytes \<Rightarrow> 'e log_io \<Rightarrow> (file_util \<times> 'e log_io) res" where
  "FileUtil_ctor E fileName io =
     (case env_fopen E (c_str fileName) (io_env io) of (ok, e') \<Rightarrow>
        if ok then Inr (\<lparr>fu_name = c_str fileName, fu_writtenBytes = 0\<rparr>, io\<lparr>io_env := e'\<rparr>)
        else Inl NullDeref)"

definition FileUtil_dtor :: "'e file_env \<Rightarrow> file_util \<Rightarrow> 'e log_io \<Rightarrow> 'e log_io" where
  "FileUtil_dtor E fu io = io\<lparr>io_env := env_fclose E (fu_name fu) (io_env io)\<rparr>"

definition FileUtil_write :: "'e file_env \<Rightarrow> file_util \<Rightarrow> bytes \<Rightarrow> 'e log_io \<Rightarrow> nat \<times> 'e log_io" where
  "FileUtil_write E fu data io =
     (case env_fwrite E (fu_name fu) data (io_env io) of (n, e') \<Rightarrow>
        (n, io\<lparr>io_env := e', io_files := (io_files io)(fu_name fu := io_files io (fu_name fu) @ take n data)\<rparr>))"

partial_function (option) FileUtil_append_loop ::
    "'e file_env \<Rightarrow> file_util \<Rightarrow> bytes \<Rightarrow> nat \<Rightarrow> 'e log_io \<Rightarrow> (nat \<times> 'e log_io) option" where
  "FileUtil_append_loop E fu data written io =
     (if written = length data then Some (written, io)
      else (case FileUtil_write E fu (drop written data) io of (n, io') \<Rightarrow>
              FileUtil_append_loop E fu data (size_t (int written + int n)) io'))"

definition FileUtil_append ::
    "'e file_env \<Rightarrow> bytes \<Rightarrow> file_util \<Rightarrow> 'e log_io \<Rightarrow> (file_util \<times> 'e log_io) option" where
  "FileUtil_append E data fu io =
     (case FileUtil_append_loop E fu data 0 io of
        None \<Rightarrow> None
      | Some (written, io') \<Rightarrow> Some (fu\<lparr>fu_writtenBytes := fu_writtenBytes fu + int written\<rparr>, io'))"

definition FileUtil_flush :: "'e file_env \<Rightarrow> file_util \<Rightarrow> 'e log_io \<Rightarrow> 'e log_io" where
  "FileUtil_flush E fu io = io\<lparr>io_env := env_fflush E (fu_name fu) (io_env io)\<rparr>"


section \<open>LogFile\<close>

definition kRollPerSeconds :: int where "kRollPerSeconds = 60 * 60 * 24"

record log_file =
  lf_basename :: bytes
  lf_rollSize :: int
  lf_flushInterval :: int
  lf_checkEveryN :: int
  lf_count :: int
  lf_startOfPeriod :: int
  lf_lastRoll :: int
  lf_lastFlush :: int
  lf_file :: "file_util option"

definition LogFile_getLogFileName :: "'e file_env \<Rightarrow> bytes \<Rightarrow> int \<Rightarrow> bytes" where
  "LogFile_getLogFileName E basename now = basename @ env_strftime E now @ ''.log''"

definition period_of :: "int \<Rightarrow> int" where
  "period_of now = now sdiv kRollPerSeconds * kRollPerSeconds"

definition LogFile_rollFile :: "'e file_env \<Rightarrow> log_file \<Rightarrow> 'e log_io \<Rightarrow> (bool \<times> log_file \<times> 'e log_io) res" where
  "LogFile_rollFile E lf io =
     (case env_time E (io_env io) of (now, e') \<Rightarrow>
        (let io1 = io\<lparr>io_env := e'\<rparr>;
             filename = LogFile_getLogFileName E (lf_basename lf) now;
             start = period_of now
         in if now > lf_lastRoll lf
            then rbind (FileUtil_ctor E filename io1) (\<lambda>(fu, io2).
                   Inr (True, lf\<lparr>lf_lastRoll := now, lf_lastFlush := now, lf_startOfPeriod := start, lf_file := Some fu\<rparr>,
                        (case lf_file lf of None \<Rightarrow> io2 | Some old \<Rightarrow> FileUtil_dtor E old io2)))
            else Inr (False, lf, io1)))"

definition LogFile_ctor ::
    "'e file_env \<Rightarrow> bytes \<Rightarrow> int \<Rightarrow> int \<Rightarrow> int \<Rightarrow> 'e log_io \<Rightarrow> (log_file \<times> 'e log_io) res" where
  "LogFile_ctor E basename rollSize flushInterval checkEveryN io =
     rbind (LogFile_rollFile E \<lparr>lf_basename = basename, lf_rollSize = rollSize, lf_flushInterval = flushInterval,
        lf_checkEveryN = checkEveryN, lf_count = 0, lf_startOfPeriod = 0, lf_lastRoll = 0, lf_lastFlush = 0,
        lf_file = None\<rparr> io) (\<lambda>(rolled, lf, io'). Inr (lf, io'))"

text \<open>What follows the write in \<open>appendInLock\<close>: rolling by size, by day, and flushing.\<close>

definition appendInLock_check ::
    "'e file_env \<Rightarrow> file_util \<Rightarrow> log_file \<Rightarrow> 'e log_io \<Rightarrow> (log_file \<times> 'e log_io) res" where
  "appendInLock_check E fu lf io =
     (if fu_writtenBytes fu > lf_rollSize lf
      then rbind (LogFile_rollFile E lf io) (\<lambda>(rolled, lf1, io1). Inr (lf1, io1))
      else (let count = lf_count lf + 1
            in if count \<ge> lf_checkEveryN lf
               then (case env_time E (io_env io) of (now, e') \<Rightarrow>
                      (let lf1 = lf\<lparr>lf_count := 0\<rparr>; io1 = io\<lparr>io_env := e'\<rparr>
                       in if period_of now \<noteq> lf_startOfPeriod lf1
                          then rbind (LogFile_rollFile E lf1 io1) (\<lambda>(rolled, lf2, io2). Inr (lf2, io2))
                          else if now - lf_lastFlush lf1 > lf_flushInterval lf1
                          then Inr (lf1\<lparr>lf_lastFlush := now\<rparr>, FileUtil_flush E fu io1)
                          else Inr (lf1, io1)))
               else Inr (lf\<lparr>lf_count := count\<rparr>, io)))"

definition LogFile_appendInLock ::
    "'e file_env \<Rightarrow> bytes \<Rightarrow> log_file \<Rightarrow> 'e log_io \<Rightarrow> (log_file \<times> 'e log_io) res option" where
  "LogFile_appendInLock E data lf io =
     (case lf_file lf of
        None \<Rightarrow> Some (Inl NullDeref)
      | Some fu \<Rightarrow>
          (case FileUtil_append E data fu io of
             None \<Rightarrow> None
           | Some (fu', io1) \<Rightarrow> Some (appendInLock_check E fu' (lf\<lparr>lf_file := Some fu'\<rparr>) io1)))"

text \<open>The bytes are a list: its length stands for the parameter \<open>len\<close>, an \<open>int\<close>, and is below \<open>2 ^ 31\<close> for every caller.\<close>

definition LogFile_append ::
    "'e file_env \<Rightarrow> bytes \<Rightarrow> log_file \<Rightarrow> 'e log_io \<Rightarrow> (log_file \<times> 'e log_io) res option" where
  "LogFile_append E data lf io = LogFile_appendInLock E data lf io"

definition LogFile_flush :: "'e file_env \<Rightarrow> log_file \<Rightarrow> 'e log_io \<Rightarrow> 'e log_io res" where
  "LogFile_flush E lf io =
     (case lf_file lf of None \<Rightarrow> Inl NullDeref | Some fu \<Rightarrow> Inr (FileUtil_flush E fu io))"


section \<open>What the code relies on of \<open>fwrite\<close>\<close>

text \<open>
  A write transfers at most what it is given (fwrite(3)); \<open>progress\<close> adds that it transfers
  something, that is, that errors do not persist for ever.
\<close>

locale stdio =
  fixes E :: "'e file_env"
  assumes fwrite_bound: "env_fwrite E name data e = (n, e') \<Longrightarrow> n \<le> length data"

locale stdio_progress = stdio +
  assumes fwrite_progress: "env_fwrite E name data e = (n, e') \<Longrightarrow> data \<noteq> [] \<Longrightarrow> 0 < n"
begin

lemma append_loop_complete:
  assumes "written \<le> length data" "length data < 2 ^ 64"
  shows "\<exists>io'. FileUtil_append_loop E fu data written io = Some (length data, io') \<and>
    io_files io' = (io_files io)(fu_name fu := io_files io (fu_name fu) @ drop written data)"
  using assms(1)
proof (induction "length data - written" arbitrary: written io rule: less_induct)
  case less
  show ?case
  proof (cases "written = length data")
    case True
    then show ?thesis by (simp add: FileUtil_append_loop.simps)
  next
    case False
    obtain n e' where n: "env_fwrite E (fu_name fu) (drop written data) (io_env io) = (n, e')" by fastforce
    have bounds: "0 < n" "n \<le> length data - written"
      using fwrite_progress [OF n] fwrite_bound [OF n] False less.prems by auto
    let ?io = "io\<lparr>io_env := e', io_files := (io_files io)(fu_name fu := io_files io (fu_name fu) @ take n (drop written data))\<rparr>"
    have "size_t (int written + int n) = written + n"
      using bounds less.prems assms(2) by (intro size_t_sum) simp
    then have step: "FileUtil_append_loop E fu data written io = FileUtil_append_loop E fu data (written + n) ?io"
      using False n by (simp add: FileUtil_append_loop.simps [of E fu data written io] FileUtil_write_def)
    have "length data - (written + n) < length data - written" "written + n \<le> length data"
      using bounds less.prems False by simp_all
    then obtain io' where "FileUtil_append_loop E fu data (written + n) ?io = Some (length data, io')"
      "io_files io' = (io_files ?io)(fu_name fu := io_files ?io (fu_name fu) @ drop (written + n) data)"
      using less.hyps [of "written + n" ?io] by blast
    moreover have "take n (drop written data) @ drop (written + n) data = drop written data"
      by (metis add.commute append_take_drop_id drop_drop)
    ultimately show ?thesis using step by (simp flip: append_assoc) (simp add: append_assoc)
  qed
qed

lemma append_complete:
  assumes "length data < 2 ^ 64"
  shows "\<exists>io'. FileUtil_append E data fu io
      = Some (fu\<lparr>fu_writtenBytes := fu_writtenBytes fu + int (length data)\<rparr>, io') \<and>
    io_files io' = (io_files io)(fu_name fu := io_files io (fu_name fu) @ data)"
  using append_loop_complete [of 0 data fu io] assms by (auto simp: FileUtil_append_def)

end

text \<open>Storage on which files can be opened as well: every append to an open log succeeds.\<close>

locale log_storage = stdio_progress +
  assumes fopen_ok: "fst (env_fopen E name e)"
begin

lemma rollFile_keeps:
  assumes "lf_file lf \<noteq> None"
  shows "\<exists>rolled lf' io'. LogFile_rollFile E lf io = Inr (rolled, lf', io') \<and> io_files io' = io_files io \<and> lf_file lf' \<noteq> None"
proof -
  obtain now e1 where e1: "env_time E (io_env io) = (now, e1)" by fastforce
  obtain e2 where "env_fopen E (c_str (LogFile_getLogFileName E (lf_basename lf) now)) e1 = (True, e2)"
    using fopen_ok [of "c_str (LogFile_getLogFileName E (lf_basename lf) now)" e1] by (metis prod.collapse)
  then show ?thesis
    using e1 assms by (auto simp: LogFile_rollFile_def Let_def FileUtil_ctor_def FileUtil_dtor_def)
qed

lemma check_keeps:
  assumes "lf_file lf \<noteq> None"
  shows "\<exists>lf' io'. appendInLock_check E fu lf io = Inr (lf', io') \<and> io_files io' = io_files io \<and> lf_file lf' \<noteq> None"
proof -
  obtain now e1 where e1: "env_time E (io_env io) = (now, e1)" by fastforce
  show ?thesis
    using e1 assms rollFile_keeps [OF assms, of io] rollFile_keeps [of "lf\<lparr>lf_count := 0\<rparr>" "io\<lparr>io_env := e1\<rparr>"]
    by (auto simp: appendInLock_check_def Let_def FileUtil_flush_def)
qed

lemma append_delivers:
  assumes "lf_file lf = Some fu" "length data < 2 ^ 64"
  shows "\<exists>lf' io'. LogFile_append E data lf io = Some (Inr (lf', io')) \<and> lf_file lf' \<noteq> None \<and>
    io_files io' = (io_files io)(fu_name fu := io_files io (fu_name fu) @ data)"
proof -
  obtain io1 where io1: "FileUtil_append E data fu io
      = Some (fu\<lparr>fu_writtenBytes := fu_writtenBytes fu + int (length data)\<rparr>, io1)"
    "io_files io1 = (io_files io)(fu_name fu := io_files io (fu_name fu) @ data)"
    using append_complete [OF assms(2)] by blast
  let ?fu = "fu\<lparr>fu_writtenBytes := fu_writtenBytes fu + int (length data)\<rparr>"
  show ?thesis
    using check_keeps [of "lf\<lparr>lf_file := Some ?fu\<rparr>" ?fu io1] io1 assms(1)
    by (auto simp: LogFile_append_def LogFile_appendInLock_def)
qed

end

text \<open>An executable C library: writes go through in pieces of three bytes, the clock is the state.\<close>

definition ref_env :: "int file_env" where
  "ref_env = \<lparr>env_fopen = (\<lambda>name e. (True, e)), env_fwrite = (\<lambda>name data e. (min 3 (length data), e)),
     env_fflush = (\<lambda>name e. e), env_fclose = (\<lambda>name e. e), env_time = (\<lambda>e. (e, e + 1)),
     env_strftime = (\<lambda>t. CHR ''.'' # show_int t)\<rparr>"

interpretation re: log_storage ref_env
  by unfold_locales (auto simp: ref_env_def)

text \<open>A write that never transfers anything is repeated for ever.\<close>

lemma append_loop_stuck:
  assumes "\<And>d e. \<exists>e'. env_fwrite E (fu_name fu) d e = (0, e')" "written < length data" "length data < 2 ^ 64"
  shows "FileUtil_append_loop E fu data written io = None"
proof (rule ccontr)
  assume "FileUtil_append_loop E fu data written io \<noteq> None"
  then obtain r where r: "FileUtil_append_loop E fu data written io = Some r" by blast
  have "E = E \<and> fu = fu \<and> data = data \<and> written < 2 ^ 64 \<longrightarrow> length data \<le> written"
  proof (rule FileUtil_append_loop.raw_induct
      [where P = "\<lambda>E' fu' d wr io r. E' = E \<and> fu' = fu \<and> d = data \<and> wr < 2 ^ 64 \<longrightarrow> length data \<le> wr", OF _ r])
    fix f E' fu' d wr io r
    assume IH: "\<And>E' fu' d wr io r. f E' fu' d wr io = Some r \<Longrightarrow>
        E' = E \<and> fu' = fu \<and> d = data \<and> wr < 2 ^ 64 \<longrightarrow> length data \<le> wr"
      and step: "(if wr = length d then Some (wr, io)
        else case FileUtil_write E' fu' (drop wr d) io of (n, io') \<Rightarrow>
          f E' fu' d (size_t (int wr + int n)) io') = Some r"
    show "E' = E \<and> fu' = fu \<and> d = data \<and> wr < 2 ^ 64 \<longrightarrow> length data \<le> wr"
    proof (intro impI, elim conjE)
      assume eq: "E' = E" "fu' = fu" "d = data" "wr < 2 ^ 64"
      obtain io' where "FileUtil_write E fu (drop wr data) io = (0, io')"
        using assms(1) [of "drop wr data" "io_env io"] by (auto simp: FileUtil_write_def)
      then show "length data \<le> wr"
        using step eq IH [of E fu data wr io' r] by (auto simp: conv_simps split: if_splits)
    qed
  qed
  then show False using assms(2,3) by simp
qed

text \<open>Rolling and the checks after a write, at a fixed time and when files can be opened.\<close>

definition rolled_at :: "'e file_env \<Rightarrow> int \<Rightarrow> log_file \<Rightarrow> log_file" where
  "rolled_at E now lf = lf\<lparr>lf_lastRoll := now, lf_lastFlush := now, lf_startOfPeriod := period_of now,
     lf_file := Some \<lparr>fu_name = c_str (lf_basename lf @ env_strftime E now @ ''.log''), fu_writtenBytes = 0\<rparr>\<rparr>"

lemma LogFile_rollFile_ok:
  assumes "\<And>e. fst (env_time E e) = now" "\<And>name e. fst (env_fopen E name e)"
  shows "\<exists>io'. LogFile_rollFile E lf io =
      Inr (now > lf_lastRoll lf, if now > lf_lastRoll lf then rolled_at E now lf else lf, io') \<and> io_files io' = io_files io"
proof -
  obtain e1 where e1: "env_time E (io_env io) = (now, e1)" using assms(1) [of "io_env io"] by (metis prod.collapse)
  obtain e2 where "env_fopen E (c_str (lf_basename lf @ env_strftime E now @ ''.log'')) e1 = (True, e2)"
    using assms(2) [of "c_str (lf_basename lf @ env_strftime E now @ ''.log'')" e1] by (metis prod.collapse)
  then show ?thesis
    using e1 by (auto simp: LogFile_rollFile_def Let_def FileUtil_ctor_def LogFile_getLogFileName_def FileUtil_dtor_def
        rolled_at_def split: option.split)
qed

lemma appendInLock_check_ok:
  assumes "\<And>e. fst (env_time E e) = now" "\<And>name e. fst (env_fopen E name e)"
  shows "\<exists>io'. appendInLock_check E fu lf io = Inr
      (let full = fu_writtenBytes fu > lf_rollSize lf; check = lf_count lf + 1 \<ge> lf_checkEveryN lf;
           lf1 = (if full then lf else lf\<lparr>lf_count := (if check then 0 else lf_count lf + 1)\<rparr>)
       in if full \<or> check \<and> period_of now \<noteq> lf_startOfPeriod lf then (if now > lf_lastRoll lf then rolled_at E now lf1 else lf1)
          else if check \<and> now - lf_lastFlush lf > lf_flushInterval lf then lf1\<lparr>lf_lastFlush := now\<rparr> else lf1, io') \<and>
    io_files io' = io_files io"
proof -
  note roll = LogFile_rollFile_ok [OF assms]
  obtain e1 where e1: "env_time E (io_env io) = (now, e1)" using assms(1) [of "io_env io"] by (metis prod.collapse)
  show ?thesis
    using e1 roll [of lf io] roll [of "lf\<lparr>lf_count := 0\<rparr>" "io\<lparr>io_env := e1\<rparr>"]
    by (auto simp: appendInLock_check_def Let_def FileUtil_flush_def)
qed


section \<open>Properties\<close>

text \<open>
  \<open>FileUtil::append\<close> writes everything: if each \<open>fwrite\<close> transfers at least one and at most
  the requested number of bytes, the retry loop ends, the file has received exactly the data, in
  order and once, no other file changed, and the byte count grew by the length of the data.
\<close>

theorem FileUtil_append_complete:
  assumes "stdio_progress E" "length data < 2 ^ 64"
  shows "\<exists>io'. FileUtil_append E data fu io
      = Some (fu\<lparr>fu_writtenBytes := fu_writtenBytes fu + int (length data)\<rparr>, io') \<and>
    io_files io' = (io_files io)(fu_name fu := io_files io (fu_name fu) @ data)"
  by (rule stdio_progress.append_complete [OF assms])

definition sample_io :: "int log_io" where
  "sample_io = \<lparr>io_env = 100, io_files = (\<lambda>_. [])\<rparr>"

definition sample_fu :: file_util where
  "sample_fu = \<lparr>fu_name = ''a.log'', fu_writtenBytes = 0\<rparr>"

theorem FileUtil_append_complete_witness:
  "\<exists>io'. FileUtil_append ref_env ''seven b'' sample_fu sample_io
      = Some (sample_fu\<lparr>fu_writtenBytes := 7\<rparr>, io') \<and> io_files io' ''a.log'' = ''seven b''"
  using FileUtil_append_complete [OF re.stdio_progress_axioms, of "''seven b''" sample_fu sample_io]
  by (auto simp: sample_fu_def sample_io_def)

text \<open>
  C38. \<open>FileUtil::append\<close> does not return when writing fails persistently: the loop reports each
  failure and tries again, without a bound. A full disk hangs the thread that logs.
\<close>

theorem FileUtil_append_hangs:
  assumes "\<And>d e. \<exists>e'. env_fwrite E (fu_name fu) d e = (0, e')" "data \<noteq> []" "length data < 2 ^ 64"
  shows "FileUtil_append E data fu io = None"
  using append_loop_stuck [of E fu 0 data io] assms by (simp add: FileUtil_append_def)

theorem FileUtil_append_hangs_witness:
  "FileUtil_append (ref_env\<lparr>env_fwrite := (\<lambda>name data e. (0, e))\<rparr>) ''x'' sample_fu sample_io = None"
  by (rule FileUtil_append_hangs) simp_all

text \<open>
  C32. \<open>LogFile::append\<close>, while the clock shows \<open>now\<close>: the data goes, complete and in order, to the file that is open when the
  call is made. Afterwards a new file is opened exactly when the byte count exceeds the roll size,
  or when this was the \<open>checkEveryN\<close>-th append since the last check and the day has changed, and
  the clock has moved past the second of the last roll; the new file is named after the base name
  and the time. A roll records its second, its day and its time as those of the last roll, period and flush, so that no further
  append rolls before the clock moves on. In every other case the same file stays open, with the byte count increased. The
  counter starts again at a check and stands still when the file is full; the time of the last flush moves at a check in the same day, when the flush interval is
  over.
\<close>

theorem LogFile_append_correct:
  assumes "stdio_progress E" "length data < 2 ^ 31" "lf_file lf = Some fu"
    and "\<And>e. fst (env_time E e) = now" "\<And>name e. fst (env_fopen E name e)"
  shows "\<exists>lf' io'. LogFile_append E data lf io = Some (Inr (lf', io')) \<and>
    io_files io' = (io_files io)(fu_name fu := io_files io (fu_name fu) @ data) \<and>
    (let full = fu_writtenBytes fu + int (length data) > lf_rollSize lf;
         check = lf_count lf + 1 \<ge> lf_checkEveryN lf;
         rolls = ((full \<or> check \<and> period_of now \<noteq> lf_startOfPeriod lf) \<and> now > lf_lastRoll lf);
         flushes = (\<not> full \<and> check \<and> period_of now = lf_startOfPeriod lf \<and> now - lf_lastFlush lf > lf_flushInterval lf)
     in lf' = lf\<lparr>
          lf_file := Some (if rolls
            then \<lparr>fu_name = c_str (lf_basename lf @ env_strftime E now @ ''.log''), fu_writtenBytes = 0\<rparr>
            else fu\<lparr>fu_writtenBytes := fu_writtenBytes fu + int (length data)\<rparr>),
          lf_lastRoll := (if rolls then now else lf_lastRoll lf),
          lf_startOfPeriod := (if rolls then period_of now else lf_startOfPeriod lf),
          lf_lastFlush := (if rolls \<or> flushes then now else lf_lastFlush lf),
          lf_count := (if full then lf_count lf else if check then 0 else lf_count lf + 1)\<rparr>)"
proof -
  let ?fu = "fu\<lparr>fu_writtenBytes := fu_writtenBytes fu + int (length data)\<rparr>"
  obtain io1 where io1: "FileUtil_append E data fu io = Some (?fu, io1)"
    "io_files io1 = (io_files io)(fu_name fu := io_files io (fu_name fu) @ data)"
    using stdio_progress.append_complete [OF assms(1), of data fu io] assms(2) by auto
  have "LogFile_append E data lf io = Some (appendInLock_check E ?fu (lf\<lparr>lf_file := Some ?fu\<rparr>) io1)"
    using io1(1) assms(3) by (simp add: LogFile_append_def LogFile_appendInLock_def)
  moreover obtain io' where "io_files io' = io_files io1" "appendInLock_check E ?fu (lf\<lparr>lf_file := Some ?fu\<rparr>) io1 = Inr
      (let full = fu_writtenBytes ?fu > lf_rollSize lf; check = lf_count lf + 1 \<ge> lf_checkEveryN lf; lf0 = lf\<lparr>lf_file := Some ?fu\<rparr>;
           lf1 = (if full then lf0 else lf0\<lparr>lf_count := (if check then 0 else lf_count lf + 1)\<rparr>)
       in if full \<or> check \<and> period_of now \<noteq> lf_startOfPeriod lf then (if now > lf_lastRoll lf then rolled_at E now lf1 else lf1)
          else if check \<and> now - lf_lastFlush lf > lf_flushInterval lf then lf1\<lparr>lf_lastFlush := now\<rparr> else lf1, io')"
    using appendInLock_check_ok [OF assms(4,5), of ?fu "lf\<lparr>lf_file := Some ?fu\<rparr>" io1] by (auto simp: Let_def)
  ultimately show ?thesis
    using io1(2) by (simp add: Let_def rolled_at_def)
qed

definition sample_lf :: log_file where
  "sample_lf = \<lparr>lf_basename = ''a'', lf_rollSize = 3, lf_flushInterval = 0, lf_checkEveryN = 1024, lf_count = 0,
     lf_startOfPeriod = 0, lf_lastRoll = 1, lf_lastFlush = 1, lf_file = Some sample_fu\<rparr>"

text \<open>Two appends that exceed the roll size within one second: the first opens a new file, the second does not.\<close>

definition sample_clock :: "int file_env" where
  "sample_clock = ref_env\<lparr>env_time := (\<lambda>e. (9, e))\<rparr>"

theorem LogFile_append_correct_witness:
  "\<exists>lf1 io1 lf2 io2. LogFile_append sample_clock ''seven b'' sample_lf sample_io = Some (Inr (lf1, io1)) \<and>
     lf_file lf1 = Some \<lparr>fu_name = ''a.9.log'', fu_writtenBytes = 0\<rparr> \<and> lf_lastRoll lf1 = 9 \<and> lf_lastFlush lf1 = 9 \<and>
     LogFile_append sample_clock ''eight by'' lf1 io1 = Some (Inr (lf2, io2)) \<and>
     lf_file lf2 = Some \<lparr>fu_name = ''a.9.log'', fu_writtenBytes = 8\<rparr> \<and>
     io_files io2 ''a.log'' = ''seven b'' \<and> io_files io2 ''a.9.log'' = ''eight by''"
proof -
  have E: "stdio_progress sample_clock" by unfold_locales (auto simp: sample_clock_def ref_env_def)
  have simps: "fst (env_time sample_clock e) = 9" "fst (env_fopen sample_clock name e)"
    "c_str (''a'' @ env_strftime sample_clock 9 @ ''.log'') = ''a.9.log''" for e name
    by (simp_all add: sample_clock_def ref_env_def show_int_def show_nat.simps c_str_def NUL_def)
  obtain lf1 io1 where 1: "LogFile_append sample_clock ''seven b'' sample_lf sample_io = Some (Inr (lf1, io1))"
    "lf1 = sample_lf\<lparr>lf_file := Some \<lparr>fu_name = ''a.9.log'', fu_writtenBytes = 0\<rparr>, lf_lastRoll := 9, lf_lastFlush := 9\<rparr>"
    "io_files io1 = (io_files sample_io)(''a.log'' := ''seven b'')"
    using LogFile_append_correct [OF E _ _ simps(1,2), of "''seven b''" sample_lf sample_fu sample_io] simps(3)
    by (auto simp: sample_lf_def sample_fu_def sample_io_def period_of_def kRollPerSeconds_def)
  obtain lf2 io2 where "LogFile_append sample_clock ''eight by'' lf1 io1 = Some (Inr (lf2, io2))"
    "lf_file lf2 = Some \<lparr>fu_name = ''a.9.log'', fu_writtenBytes = 8\<rparr>"
    "io_files io2 = (io_files io1)(''a.9.log'' := io_files io1 ''a.9.log'' @ ''eight by'')"
    using LogFile_append_correct [OF E _ _ simps(1,2), of "''eight by''" lf1 "\<lparr>fu_name = ''a.9.log'', fu_writtenBytes = 0\<rparr>" io1]
    by (auto simp: 1(2) sample_lf_def)
  with 1 show ?thesis by (simp add: sample_io_def)
qed

end
