(* ===== verification/Log_Async.thy ===== *)
theory Log_Async
  imports Log_Stream Log_File Net_Thread
begin

text \<open>
  The asynchronous logger (\<open>src/logger/AsyncLogging.h\<close>, \<open>src/logger/AsyncLogging.cc\<close>): front-end
  threads append lines to the current buffer under a mutex; a back-end thread swaps the filled
  buffers out and writes them to the log file. Buffer pointers are options (\<open>None\<close> is the null
  pointer), the two critical sections are single steps, and the log file is a sink with a state of
  its own. A newly allocated buffer has an arbitrary content of the right size, given as an
  argument.
\<close>

section \<open>Front end and back end\<close>

record async_log =
  al_flushInterval :: int
  al_running :: bool
  al_basename :: bytes
  al_rollSize :: int
  al_thread :: thread
  al_current :: "fixed_buffer option"
  al_next :: "fixed_buffer option"
  al_buffers :: "fixed_buffer option list"

record backend =
  bk_new1 :: "fixed_buffer option"
  bk_new2 :: "fixed_buffer option"
  bk_toWrite :: "fixed_buffer option list"

text \<open>
  The constructor; \<open>numCreated\<close> is the counter of the class \<open>Thread\<close>, \<open>g1\<close> and \<open>g2\<close> are the contents of
  the two new buffers before they are cleared.
\<close>

definition AsyncLogging_ctor :: "int \<Rightarrow> bytes \<Rightarrow> bytes \<Rightarrow> bytes \<Rightarrow> int \<Rightarrow> int \<Rightarrow> async_log" where
  "AsyncLogging_ctor numCreated g1 g2 basename rollSize flushInterval =
     \<lparr>al_flushInterval = flushInterval, al_running = False, al_basename = basename, al_rollSize = rollSize,
      al_thread = fst (Thread_ctor numCreated ''Logging''), al_current = Some (FixedBuffer_bzero (FixedBuffer_ctor g1)),
      al_next = Some (FixedBuffer_bzero (FixedBuffer_ctor g2)), al_buffers = []\<rparr>"

text \<open>
  \<open>gettid\<close> is the id of the new thread. \<open>stop\<close> clears the flag, wakes the back end (a wait may end at any
  time in this model) and joins it; \<open>stop_request\<close> is the part before the join.
\<close>

definition AsyncLogging_start :: "int \<Rightarrow> async_log \<Rightarrow> async_log" where
  "AsyncLogging_start gettid a = a\<lparr>al_running := True, al_thread := Thread_start gettid (al_thread a)\<rparr>"

definition stop_request :: "async_log \<Rightarrow> async_log" where
  "stop_request a = a\<lparr>al_running := False\<rparr>"

definition AsyncLogging_stop :: "async_log \<Rightarrow> async_log res" where
  "AsyncLogging_stop a =
     (let a1 = stop_request a in rbind (Thread_join (al_thread a1)) (\<lambda>th. Inr (a1\<lparr>al_thread := th\<rparr>)))"

definition AsyncLogging_dtor :: "async_log \<Rightarrow> async_log res" where
  "AsyncLogging_dtor a = (if al_running a then AsyncLogging_stop a else Inr a)"

text \<open>\<open>append\<close>: \<open>garbage\<close> is the content of the buffer that is allocated when no spare is left.\<close>

definition AsyncLogging_append :: "bytes \<Rightarrow> bytes \<Rightarrow> async_log \<Rightarrow> async_log res" where
  "AsyncLogging_append garbage logline a =
     (case al_current a of
        None \<Rightarrow> Inl NullDeref
      | Some cur \<Rightarrow>
          if FixedBuffer_avail cur > int (length logline)
          then rbind (FixedBuffer_append logline cur) (\<lambda>cur'. Inr (a\<lparr>al_current := Some cur'\<rparr>))
          else (let fresh = (case al_next a of Some b \<Rightarrow> b | None \<Rightarrow> FixedBuffer_ctor garbage)
                in rbind (FixedBuffer_append logline fresh) (\<lambda>cur'.
                     Inr (a\<lparr>al_buffers := al_buffers a @ [Some cur], al_next := None, al_current := Some cur'\<rparr>))))"

text \<open>The local variables of \<open>threadFunc\<close> before its loop.\<close>

definition threadFunc_init :: "bytes \<Rightarrow> bytes \<Rightarrow> backend" where
  "threadFunc_init g1 g2 = \<lparr>bk_new1 = Some (FixedBuffer_bzero (FixedBuffer_ctor g1)),
     bk_new2 = Some (FixedBuffer_bzero (FixedBuffer_ctor g2)), bk_toWrite = []\<rparr>"

text \<open>The critical section of a round, after the wait.\<close>

definition threadFunc_swap :: "async_log \<Rightarrow> backend \<Rightarrow> async_log \<times> backend" where
  "threadFunc_swap a bk =
     (let buffers1 = al_buffers a @ [al_current a];
          a1 = a\<lparr>al_current := bk_new1 bk, al_buffers := bk_toWrite bk\<rparr>;
          bk1 = bk\<lparr>bk_new1 := None, bk_toWrite := buffers1\<rparr>
      in if al_next a1 = None then (a1\<lparr>al_next := bk_new2 bk1\<rparr>, bk1\<lparr>bk_new2 := None\<rparr>) else (a1, bk1))"

text \<open>The characters \<open>data ()\<close> to \<open>data () + length ()\<close> are those that \<open>toString\<close> returns.\<close>

definition threadFunc_write_one :: "(bytes \<Rightarrow> 's \<Rightarrow> 's res) \<Rightarrow> fixed_buffer option \<Rightarrow> 's \<Rightarrow> 's res" where
  "threadFunc_write_one output buffer st =
     (case buffer of None \<Rightarrow> Inl NullDeref
      | Some b \<Rightarrow> rbind (FixedBuffer_toString b) (\<lambda>data. output data st))"

text \<open>Giving one buffer back: \<open>back()\<close> and \<open>pop_back()\<close> need a non-empty vector, \<open>reset()\<close> a buffer.\<close>

definition take_back :: "fixed_buffer option list \<Rightarrow> (fixed_buffer option \<times> fixed_buffer option list) res" where
  "take_back bufs =
     (if bufs = [] then Inl OutOfBounds
      else (case last bufs of None \<Rightarrow> Inl NullDeref | Some b \<Rightarrow> Inr (Some (FixedBuffer_reset b), butlast bufs)))"

definition threadFunc_recycle :: "backend \<Rightarrow> backend res" where
  "threadFunc_recycle bk =
     (let bufs = (if length (bk_toWrite bk) > 2 then take 2 (bk_toWrite bk) else bk_toWrite bk)
      in rbind (if bk_new1 bk = None then take_back bufs else Inr (bk_new1 bk, bufs)) (\<lambda>(new1, bufs1).
         rbind (if bk_new2 bk = None then take_back bufs1 else Inr (bk_new2 bk, bufs1)) (\<lambda>(new2, bufs2).
           Inr \<lparr>bk_new1 = new1, bk_new2 = new2, bk_toWrite = []\<rparr>)))"

text \<open>What a round does after the critical section.\<close>

definition threadFunc_write :: "(bytes \<Rightarrow> 's \<Rightarrow> 's res) \<Rightarrow> ('s \<Rightarrow> 's res) \<Rightarrow> backend \<Rightarrow> 's \<Rightarrow> (backend \<times> 's) res" where
  "threadFunc_write output flush bk st =
     rbind (res_iter (threadFunc_write_one output) (bk_toWrite bk) st) (\<lambda>st1.
     rbind (threadFunc_recycle bk) (\<lambda>bk1. rbind (flush st1) (\<lambda>st2. Inr (bk1, st2))))"


text \<open>
  The log file of the back end. The third argument of its constructor, \<open>false\<close>, is the flush interval, and
  \<open>checkEveryN\<close> has its default value. \<open>output.append\<close> may fail to return. \<open>output.flush\<close> is called at the
  end of every round and once more behind the loop.
\<close>

definition threadFunc_output :: "'e file_env \<Rightarrow> async_log \<Rightarrow> 'e log_io \<Rightarrow> (log_file \<times> 'e log_io) res" where
  "threadFunc_output E a io = LogFile_ctor E (al_basename a) (al_rollSize a) 0 1024 io"

definition output_append :: "'e file_env \<Rightarrow> bytes \<Rightarrow> log_file \<times> 'e log_io \<Rightarrow> (log_file \<times> 'e log_io) res" where
  "output_append E data st =
     (case LogFile_append E data (fst st) (snd st) of None \<Rightarrow> Inl Diverges | Some r \<Rightarrow> r)"

definition output_flush :: "'e file_env \<Rightarrow> log_file \<times> 'e log_io \<Rightarrow> (log_file \<times> 'e log_io) res" where
  "output_flush E st = rbind (LogFile_flush E (fst st) (snd st)) (\<lambda>io. Inr (fst st, io))"

text \<open>One round of the loop on the log file, without interference by the front end.\<close>

definition threadFunc_round ::
    "'e file_env \<Rightarrow> async_log \<times> backend \<times> log_file \<times> 'e log_io \<Rightarrow> (async_log \<times> backend \<times> log_file \<times> 'e log_io) res" where
  "threadFunc_round E st =
     (case st of (a, bk, out) \<Rightarrow> (case threadFunc_swap a bk of (a1, bk1) \<Rightarrow>
        rbind (threadFunc_write (output_append E) (output_flush E) bk1 out) (\<lambda>(bk2, out2). Inr (a1, bk2, out2))))"


section \<open>Interleavings\<close>

text \<open>
  The back end is about to enter its loop (\<open>Starting\<close>), waits for or takes the buffers (\<open>Collecting\<close>), writes what it took (\<open>Writing\<close>), or
  has left its loop (\<open>Done\<close>). The sink, a list, is the state that \<open>threadFunc_write\<close> changes: the chunks given to \<open>output.append\<close>.
  \<open>as_accepted\<close> records the lines given to \<open>append\<close>, without those as long as a whole buffer. \<open>N\<close> is the size of a
  buffer.
\<close>

datatype back_phase = Starting | Collecting | Writing | Done

record async_state =
  as_log :: async_log
  as_back :: backend
  as_phase :: back_phase
  as_chunks :: "bytes list"
  as_accepted :: bytes

definition record_chunk :: "bytes \<Rightarrow> bytes list \<Rightarrow> bytes list res" where
  "record_chunk data chunks = Inr (chunks @ [data])"

definition text_of :: "fixed_buffer option \<Rightarrow> bytes" where
  "text_of p = (case p of None \<Rightarrow> [] | Some b \<Rightarrow> fb_text b)"

definition texts :: "fixed_buffer option list \<Rightarrow> bytes" where
  "texts ps = concat (map text_of ps)"

inductive async_step :: "nat \<Rightarrow> async_state \<Rightarrow> async_state \<Rightarrow> bool" for N :: nat where
  front_append: "length garbage = N \<Longrightarrow> length line < 2 ^ 31 \<Longrightarrow> AsyncLogging_append garbage line (as_log s) = Inr a \<Longrightarrow>
    async_step N s (s\<lparr>as_log := a, as_accepted := as_accepted s @ (if length line < N then line else [])\<rparr>)"
| back_swap: "as_phase s = Collecting \<Longrightarrow> threadFunc_swap (as_log s) (as_back s) = (a, bk) \<Longrightarrow>
    async_step N s (s\<lparr>as_log := a, as_back := bk, as_phase := Writing\<rparr>)"
| back_write: "as_phase s = Writing \<Longrightarrow> threadFunc_write record_chunk Inr (as_back s) (as_chunks s) = Inr (bk, chunks) \<Longrightarrow>
    async_step N s (s\<lparr>as_back := bk, as_chunks := chunks,
      as_phase := (if al_running (as_log s) then Collecting else Done)\<rparr>)"
| back_enter: "as_phase s = Starting \<Longrightarrow>
    async_step N s (s\<lparr>as_phase := (if al_running (as_log s) then Collecting else Done)\<rparr>)"
| front_stop: "async_step N s (s\<lparr>as_log := stop_request (as_log s)\<rparr>)"

inductive async_reach :: "nat \<Rightarrow> async_state \<Rightarrow> async_state \<Rightarrow> bool" for N :: nat and s0 :: async_state where
  async_init: "async_reach N s0 s0"
| async_next: "async_reach N s0 s \<Longrightarrow> async_step N s t \<Longrightarrow> async_reach N s0 t"

definition async_start :: "nat \<Rightarrow> async_state \<Rightarrow> bool" where
  "async_start N s \<longleftrightarrow> (\<exists>tid num basename rollSize flushInterval g1 g2 g3 g4. length g1 = N \<and> length g2 = N \<and> length g3 = N \<and> length g4 = N \<and>
     s = \<lparr>as_log = AsyncLogging_start tid (AsyncLogging_ctor num g1 g2 basename rollSize flushInterval), as_back = threadFunc_init g3 g4,
          as_phase = Starting, as_chunks = [], as_accepted = []\<rparr>)"


section \<open>The invariant\<close>

definition buf_ok :: "nat \<Rightarrow> fixed_buffer option \<Rightarrow> bool" where
  "buf_ok N p \<longleftrightarrow> (case p of None \<Rightarrow> False | Some b \<Rightarrow> fb_ok b \<and> length (fb_data b) = N)"

definition buf_empty :: "nat \<Rightarrow> fixed_buffer option \<Rightarrow> bool" where
  "buf_empty N p \<longleftrightarrow> buf_ok N p \<and> text_of p = []"

text \<open>
  The pointers: the front end always has a current buffer; a missing spare means that a filled
  buffer is waiting. The back end has both of its spares while it collects; while it writes, it
  has given away the first, and the second only together with at least two buffers to write.
\<close>

definition front_inv :: "nat \<Rightarrow> async_log \<Rightarrow> bool" where
  "front_inv N a \<longleftrightarrow> buf_ok N (al_current a) \<and> list_all (buf_ok N) (al_buffers a) \<and>
     (al_next a = None \<longrightarrow> al_buffers a \<noteq> []) \<and> (al_next a \<noteq> None \<longrightarrow> buf_empty N (al_next a))"

definition back_inv :: "nat \<Rightarrow> back_phase \<Rightarrow> backend \<Rightarrow> bool" where
  "back_inv N ph bk \<longleftrightarrow>
     (if ph = Writing
      then bk_new1 bk = None \<and> bk_toWrite bk \<noteq> [] \<and> list_all (buf_ok N) (bk_toWrite bk) \<and>
        (if bk_new2 bk = None then 2 \<le> length (bk_toWrite bk) else buf_empty N (bk_new2 bk))
      else buf_empty N (bk_new1 bk) \<and> buf_empty N (bk_new2 bk) \<and> bk_toWrite bk = [])"

definition pending_text :: "async_state \<Rightarrow> bytes" where
  "pending_text s = texts (bk_toWrite (as_back s)) @ texts (al_buffers (as_log s)) @ text_of (al_current (as_log s))"

text \<open>A chunk of the size of a buffer that begins with the text \<open>w\<close>.\<close>

definition chunk_holds :: "nat \<Rightarrow> bytes \<Rightarrow> bytes \<Rightarrow> bool" where
  "chunk_holds N w c \<longleftrightarrow> length c = N \<and> take (length w) c = w"

text \<open>The chunks written hold the lines that are no longer in the buffers.\<close>

definition chunks_hold :: "nat \<Rightarrow> bytes list \<Rightarrow> bytes \<Rightarrow> bytes \<Rightarrow> bool" where
  "chunks_hold N cs accepted pending \<longleftrightarrow> (\<exists>ws. list_all2 (chunk_holds N) ws cs \<and> accepted = concat ws @ pending)"

definition async_inv :: "nat \<Rightarrow> async_state \<Rightarrow> bool" where
  "async_inv N s \<longleftrightarrow> front_inv N (as_log s) \<and> back_inv N (as_phase s) (as_back s) \<and>
     chunks_hold N (as_chunks s) (as_accepted s) (pending_text s)"

lemma chunks_hold_start [simp]: "chunks_hold N [] w w"
  by (simp add: chunks_hold_def)

lemma chunks_hold_more: "chunks_hold N cs w p \<Longrightarrow> chunks_hold N cs (w @ v) (p @ v)"
  by (auto simp: chunks_hold_def)

lemma chunks_hold_write:
  "chunks_hold N cs w (texts ps @ rest) \<Longrightarrow> list_all2 (chunk_holds N) (map text_of ps) ds \<Longrightarrow> chunks_hold N (cs @ ds) w rest"
  unfolding chunks_hold_def texts_def by (metis append_assoc concat_append list_all2_appendI)

lemma chunk_holds_text: "length (fb_data b) = N \<Longrightarrow> chunk_holds N (fb_text b) (fb_data b)"
  by (simp add: chunk_holds_def fb_text_def min_def)

lemma texts_simps [simp]: "texts [] = []" "texts (p # ps) = text_of p @ texts ps" "texts (ps @ qs) = texts ps @ texts qs"
  by (simp_all add: texts_def)

lemma text_of_Some [simp]: "text_of (Some b) = fb_text b"
  by (simp add: text_of_def)

lemma buf_ok_Some [simp]: "buf_ok N (Some b) \<longleftrightarrow> fb_ok b \<and> length (fb_data b) = N"
  by (simp add: buf_ok_def)

lemma buf_ok_None [simp]: "\<not> buf_ok N None"
  by (simp add: buf_ok_def)

lemma buf_okE: "buf_ok N p \<Longrightarrow> (\<And>b. p = Some b \<Longrightarrow> fb_ok b \<Longrightarrow> length (fb_data b) = N \<Longrightarrow> thesis) \<Longrightarrow> thesis"
  by (cases p) (auto simp: buf_ok_def)

lemma fresh_ok: "length g = N \<Longrightarrow> N < 2 ^ 31 \<Longrightarrow> buf_empty N (Some (FixedBuffer_ctor g))"
  "length g = N \<Longrightarrow> N < 2 ^ 31 \<Longrightarrow> buf_empty N (Some (FixedBuffer_bzero (FixedBuffer_ctor g)))"
  by (simp_all add: buf_empty_def fb_ok_def FixedBuffer_ctor_def FixedBuffer_bzero_def fb_text_def)

lemma reset_empty: "buf_ok N (Some b) \<Longrightarrow> buf_empty N (Some (FixedBuffer_reset b))"
  by (simp add: buf_empty_def fb_ok_def FixedBuffer_reset_def fb_text_def)

lemma empty_append:
  assumes "buf_empty N (Some b)" "length line < 2 ^ 31"
  shows "\<exists>b'. FixedBuffer_append line b = Inr b' \<and> buf_ok N (Some b') \<and> fb_text b' = (if length line < N then line else [])"
proof -
  have "fb_ok b" "length (fb_data b) = N" "fb_text b = []" using assms(1) by (auto simp: buf_empty_def)
  moreover from this have "fb_cur b = 0 \<or> N = 0" by (auto simp: fb_text_def)
  ultimately show ?thesis using FixedBuffer_append_ok [of b line] by (auto simp: fb_ok_def)
qed

lemma front_append_ok:
  assumes inv: "front_inv N a" and g: "length garbage = N" "N < 2 ^ 31" and len: "length line < 2 ^ 31"
  shows "\<exists>a'. AsyncLogging_append garbage line a = Inr a' \<and> front_inv N a' \<and> al_running a' = al_running a \<and>
    texts (al_buffers a') @ text_of (al_current a') =
      texts (al_buffers a) @ text_of (al_current a) @ (if length line < N then line else [])"
proof -
  obtain cur where cur: "al_current a = Some cur" "fb_ok cur" "length (fb_data cur) = N"
    using inv unfolding front_inv_def by (auto elim: buf_okE)
  show ?thesis
  proof (cases "FixedBuffer_avail cur > int (length line)")
    case True
    then have "fb_cur cur + length line < N" using cur by (simp add: FixedBuffer_avail_ok)
    then obtain cur' where "FixedBuffer_append line cur = Inr cur'" "fb_ok cur'" "length (fb_data cur') = N"
      "fb_text cur' = fb_text cur @ line"
      using FixedBuffer_append_ok [OF cur(2), of line] cur(3) by auto
    then show ?thesis
      using True cur inv \<open>fb_cur cur + length line < N\<close> by (auto simp: AsyncLogging_append_def front_inv_def)
  next
    case False
    define fresh where "fresh = (case al_next a of Some b \<Rightarrow> b | None \<Rightarrow> FixedBuffer_ctor garbage)"
    have "buf_empty N (Some fresh)"
      using inv fresh_ok(1) [OF g] by (cases "al_next a") (auto simp: fresh_def front_inv_def)
    from empty_append [OF this len] show ?thesis
      using False cur inv by (auto simp: AsyncLogging_append_def fresh_def [symmetric] front_inv_def)
  qed
qed

lemma swap_ok:
  assumes "front_inv N a" "back_inv N Collecting bk" "threadFunc_swap a bk = (a', bk')"
  shows "front_inv N a'" "back_inv N Writing bk'"
    "texts (bk_toWrite bk') @ texts (al_buffers a') @ text_of (al_current a') = texts (al_buffers a) @ text_of (al_current a)"
  using assms
  by (auto simp: threadFunc_swap_def Let_def front_inv_def back_inv_def buf_empty_def Suc_le_eq split: if_splits)

lemma write_all_ok:
  assumes "list_all (buf_ok N) ps"
  shows "res_iter (threadFunc_write_one record_chunk) ps chunks = Inr (chunks @ map (fb_data \<circ> the) ps)"
    "list_all2 (chunk_holds N) (map text_of ps) (map (fb_data \<circ> the) ps)"
proof -
  show "res_iter (threadFunc_write_one record_chunk) ps chunks = Inr (chunks @ map (fb_data \<circ> the) ps)"
    using assms
  proof (induction ps arbitrary: chunks)
    case (Cons p ps)
    then obtain b where b: "p = Some b" "fb_ok b" by (auto elim: buf_okE)
    then have "threadFunc_write_one record_chunk p chunks = Inr (chunks @ [fb_data b])"
      by (simp add: threadFunc_write_one_def record_chunk_def FixedBuffer_toString_def FixedBuffer_length_ok)
    then show ?case using Cons b(1) by simp
  qed simp
  show "list_all2 (chunk_holds N) (map text_of ps) (map (fb_data \<circ> the) ps)"
    using assms by (induction ps) (auto simp: chunk_holds_text elim: buf_okE)
qed

lemma take_back_ok:
  assumes "list_all (buf_ok N) ps" "ps \<noteq> []"
  shows "\<exists>b. take_back ps = Inr (b, butlast ps) \<and> buf_empty N b"
proof -
  have "buf_ok N (last ps)" using assms by (simp add: list_all_iff)
  then obtain b where "last ps = Some b" "buf_ok N (Some b)" by (auto elim: buf_okE)
  then show ?thesis using assms(2) reset_empty [of N b] by (simp add: take_back_def)
qed

lemma recycle_ok:
  assumes "back_inv N Writing bk"
  shows "\<exists>bk'. threadFunc_recycle bk = Inr bk' \<and> back_inv N Collecting bk'"
proof -
  define bufs where "bufs = (if length (bk_toWrite bk) > 2 then take 2 (bk_toWrite bk) else bk_toWrite bk)"
  have bufs: "list_all (buf_ok N) bufs" "bufs \<noteq> []" "bk_new2 bk = None \<longrightarrow> length bufs = 2"
    using assms by (auto simp: back_inv_def bufs_def list_all_iff dest: in_set_takeD split: if_splits)
  obtain b1 where b1: "take_back bufs = Inr (b1, butlast bufs)" "buf_empty N b1"
    using take_back_ok [OF bufs(1,2)] by blast
  have "list_all (buf_ok N) (butlast bufs)" using bufs(1) by (auto simp: list_all_iff dest: in_set_butlastD)
  then have "\<exists>b2. take_back (butlast bufs) = Inr (b2, butlast (butlast bufs)) \<and> buf_empty N b2" if "bk_new2 bk = None"
    using bufs(3) that by (intro take_back_ok) (auto simp flip: length_greater_0_conv)
  then show ?thesis
    using assms b1 by (auto simp: threadFunc_recycle_def bufs_def [symmetric] Let_def back_inv_def)
qed

lemma write_ok:
  assumes "back_inv N Writing bk"
  shows "\<exists>bk'. threadFunc_write record_chunk Inr bk chunks = Inr (bk', chunks @ map (fb_data \<circ> the) (bk_toWrite bk)) \<and>
    back_inv N Collecting bk' \<and> bk_toWrite bk' = []"
    "list_all2 (chunk_holds N) (map text_of (bk_toWrite bk)) (map (fb_data \<circ> the) (bk_toWrite bk))"
proof -
  have bufs: "list_all (buf_ok N) (bk_toWrite bk)" using assms by (simp add: back_inv_def)
  obtain bk' where "threadFunc_recycle bk = Inr bk'" "back_inv N Collecting bk'" using recycle_ok [OF assms] by blast
  then show "\<exists>bk'. threadFunc_write record_chunk Inr bk chunks = Inr (bk', chunks @ map (fb_data \<circ> the) (bk_toWrite bk)) \<and>
      back_inv N Collecting bk' \<and> bk_toWrite bk' = []"
    by (simp add: threadFunc_write_def back_inv_def write_all_ok(1) [OF bufs])
  show "list_all2 (chunk_holds N) (map text_of (bk_toWrite bk)) (map (fb_data \<circ> the) (bk_toWrite bk))"
    by (rule write_all_ok(2) [OF bufs])
qed

lemma async_step_inv:
  assumes "async_step N s t" "async_inv N s" "N < 2 ^ 31"
  shows "async_inv N t"
  using assms(1)
proof (cases rule: async_step.cases)
  case (front_append garbage line a)
  have inv: "front_inv N (as_log s)" "back_inv N (as_phase s) (as_back s)"
    "chunks_hold N (as_chunks s) (as_accepted s) (pending_text s)"
    using assms(2) by (simp_all add: async_inv_def)
  have "front_inv N a" "pending_text t = pending_text s @ (if length line < N then line else [])"
    using front_append_ok [OF inv(1) front_append(2) assms(3) front_append(3)] front_append(1,4) by (auto simp: pending_text_def)
  then show ?thesis
    using inv(2) chunks_hold_more [OF inv(3)] front_append(1) by (simp add: async_inv_def)
next
  case (back_swap a bk)
  then show ?thesis
    using swap_ok [of N "as_log s" "as_back s" a bk] assms(2) by (auto simp: async_inv_def pending_text_def back_inv_def)
next
  case (back_write bk chunks)
  have inv: "front_inv N (as_log s)" "back_inv N Writing (as_back s)"
    "chunks_hold N (as_chunks s) (as_accepted s) (pending_text s)"
    using assms(2) back_write(2) by (simp_all add: async_inv_def)
  have new: "chunks = as_chunks s @ map (fb_data \<circ> the) (bk_toWrite (as_back s))" "back_inv N Collecting bk" "bk_toWrite bk = []"
    using write_ok(1) [OF inv(2), of "as_chunks s"] back_write(3) by auto
  have "pending_text s = texts (bk_toWrite (as_back s)) @ pending_text t"
    using back_write(1) new(3) by (simp add: pending_text_def)
  with inv(3) have "chunks_hold N chunks (as_accepted s) (pending_text t)"
    using chunks_hold_write [OF _ write_ok(2) [OF inv(2)]] new(1) by simp
  then show ?thesis
    using back_write(1) inv(1) new(2) by (simp add: async_inv_def back_inv_def)
qed (use assms(2) in \<open>auto simp: async_inv_def pending_text_def back_inv_def front_inv_def stop_request_def\<close>)

lemma async_start_inv: "async_start N s \<Longrightarrow> N < 2 ^ 31 \<Longrightarrow> async_inv N s"
  by (auto simp: async_start_def async_inv_def front_inv_def back_inv_def pending_text_def AsyncLogging_start_def
      AsyncLogging_ctor_def threadFunc_init_def fresh_ok)
    (use fresh_ok(2) in \<open>auto simp: buf_empty_def\<close>)

lemma async_reach_inv:
  assumes "async_reach N s0 s" "async_start N s0" "N < 2 ^ 31"
  shows "async_inv N s"
  using assms by (induction rule: async_reach.induct) (auto intro: async_start_inv async_step_inv)


section \<open>The log file as the sink\<close>

text \<open>What a log has received: each chunk went, whole, to one file.\<close>

fun write_chunks :: "(bytes \<times> bytes) list \<Rightarrow> (bytes \<Rightarrow> bytes) \<Rightarrow> bytes \<Rightarrow> bytes" where
  "write_chunks [] files = files"
| "write_chunks ((name, chunk) # ps) files = write_chunks ps (files(name := files name @ chunk))"

text \<open>The appends of these chunks succeed one after the other, each on the file that is open by then.\<close>

fun appends_to :: "'e file_env \<Rightarrow> (bytes \<times> bytes) list \<Rightarrow> log_file \<times> 'e log_io \<Rightarrow> bool" where
  "appends_to E [] st \<longleftrightarrow> True"
| "appends_to E ((name, chunk) # ps) st \<longleftrightarrow> map_option fu_name (lf_file (fst st)) = Some name \<and>
     (case output_append E chunk st of Inl e \<Rightarrow> False | Inr st' \<Rightarrow> appends_to E ps st')"

context log_storage
begin

text \<open>The log is open when the loop begins, and is flushed without a delay.\<close>

lemma output_opens:
  assumes "0 < fst (env_time E (io_env io))"
  shows "\<exists>lf io'. threadFunc_output E a io = Inr (lf, io') \<and> lf_file lf \<noteq> None \<and> lf_flushInterval lf = 0 \<and>
    io_files io' = io_files io"
proof -
  obtain now e1 where e1: "env_time E (io_env io) = (now, e1)" by fastforce
  obtain e2 where "env_fopen E (c_str (LogFile_getLogFileName E (al_basename a) now)) e1 = (True, e2)"
    using fopen_ok [of "c_str (LogFile_getLogFileName E (al_basename a) now)" e1] by (metis prod.collapse)
  then show ?thesis
    using assms e1 by (simp add: threadFunc_output_def LogFile_ctor_def LogFile_rollFile_def Let_def FileUtil_ctor_def)
qed

lemma output_append_ok:
  assumes "lf_file (fst st) = Some fu" "length data < 2 ^ 64"
  shows "\<exists>st'. output_append E data st = Inr st' \<and> lf_file (fst st') \<noteq> None \<and>
    io_files (snd st') = write_chunks [(fu_name fu, data)] (io_files (snd st))"
  using append_delivers [OF assms, of "snd st"] by (auto simp: output_append_def)

lemma write_one_ok:
  assumes "buf_ok N p" "N < 2 ^ 31" "lf_file (fst st) = Some fu"
  shows "\<exists>data st'. threadFunc_write_one record_chunk p chunks = Inr (chunks @ [data]) \<and>
    threadFunc_write_one (output_append E) p st = Inr st' \<and> output_append E data st = Inr st' \<and> lf_file (fst st') \<noteq> None \<and>
    io_files (snd st') = write_chunks [(fu_name fu, data)] (io_files (snd st))"
proof -
  obtain b where b: "p = Some b" "fb_ok b" "length (fb_data b) = N" using assms(1) by (rule buf_okE)
  then have "FixedBuffer_toString b = Inr (fb_data b)" by (simp add: FixedBuffer_toString_def FixedBuffer_length_ok)
  then show ?thesis
    using output_append_ok [OF assms(3), of "fb_data b"] assms(2) b by (auto simp: threadFunc_write_one_def record_chunk_def)
qed

lemma write_all_files:
  assumes "list_all (buf_ok N) ps" "N < 2 ^ 31" "lf_file (fst st) \<noteq> None"
  shows "\<exists>ncs st'. res_iter (threadFunc_write_one record_chunk) ps chunks = Inr (chunks @ map snd ncs) \<and>
    res_iter (threadFunc_write_one (output_append E)) ps st = Inr st' \<and> lf_file (fst st') \<noteq> None \<and> appends_to E ncs st \<and>
    io_files (snd st') = write_chunks ncs (io_files (snd st))"
  using assms(1,3)
proof (induction ps arbitrary: chunks st)
  case Nil
  then show ?case by (intro exI [of _ "[]"]) simp
next
  case (Cons p ps)
  then obtain fu where fu: "lf_file (fst st) = Some fu" by blast
  obtain data st1 where one: "threadFunc_write_one record_chunk p chunks = Inr (chunks @ [data])"
    "threadFunc_write_one (output_append E) p st = Inr st1" "output_append E data st = Inr st1" "lf_file (fst st1) \<noteq> None"
    "io_files (snd st1) = write_chunks [(fu_name fu, data)] (io_files (snd st))"
    using write_one_ok [OF _ assms(2) fu, of p chunks] Cons.prems(1) by auto
  obtain ncs st' where "res_iter (threadFunc_write_one record_chunk) ps (chunks @ [data]) = Inr ((chunks @ [data]) @ map snd ncs)"
    "res_iter (threadFunc_write_one (output_append E)) ps st1 = Inr st'" "lf_file (fst st') \<noteq> None" "appends_to E ncs st1"
    "io_files (snd st') = write_chunks ncs (io_files (snd st1))"
    using Cons.IH [OF _ one(4), of "chunks @ [data]"] Cons.prems(1) by auto
  then show ?case using one fu by (intro exI [of _ "(fu_name fu, data) # ncs"] exI [of _ st']) simp
qed

text \<open>The back end on the log file does what it does on the list of chunks.\<close>

lemma write_refines:
  assumes "back_inv N Writing bk" "N < 2 ^ 31" "lf_file (fst st) \<noteq> None"
  shows "\<exists>bk' ncs st'. threadFunc_write record_chunk Inr bk chunks = Inr (bk', chunks @ map snd ncs) \<and>
    threadFunc_write (output_append E) (output_flush E) bk st = Inr (bk', st') \<and> lf_file (fst st') \<noteq> None \<and>
    appends_to E ncs st \<and> io_files (snd st') = write_chunks ncs (io_files (snd st))"
proof -
  obtain bk' where "threadFunc_recycle bk = Inr bk'" using recycle_ok [OF assms(1)] by blast
  moreover obtain ncs st1 where "res_iter (threadFunc_write_one record_chunk) (bk_toWrite bk) chunks = Inr (chunks @ map snd ncs)"
    "res_iter (threadFunc_write_one (output_append E)) (bk_toWrite bk) st = Inr st1" "lf_file (fst st1) \<noteq> None" "appends_to E ncs st"
    "io_files (snd st1) = write_chunks ncs (io_files (snd st))"
    using write_all_files [of N "bk_toWrite bk" st chunks] assms by (auto simp: back_inv_def)
  ultimately show ?thesis
    by (auto simp: threadFunc_write_def output_flush_def LogFile_flush_def FileUtil_flush_def intro!: exI [of _ ncs])
qed

end


section \<open>Properties\<close>

text \<open>
  C22. The asynchronous logger never follows a null pointer and never pops an empty vector: in every
  state that any interleaving of appends, of the back end's rounds and of a stop can reach, an
  append succeeds, and a back end that has buffers to write can write them and recycle two of them.
\<close>

theorem async_never_fails:
  assumes "async_start N s0" "N < 2 ^ 31" "async_reach N s0 s" "length garbage = N" "length line < 2 ^ 31"
  shows "(\<exists>a. AsyncLogging_append garbage line (as_log s) = Inr a) \<and>
    (as_phase s = Writing \<longrightarrow> (\<exists>bk chunks. threadFunc_write record_chunk Inr (as_back s) (as_chunks s) = Inr (bk, chunks)))"
  using async_reach_inv [OF assms(3,1,2)] front_append_ok [of N "as_log s" garbage line]
    write_ok(1) [of N "as_back s" "as_chunks s"] assms(2,4,5)
  by (auto simp: async_inv_def)

definition sample_async :: async_state where
  "sample_async = \<lparr>as_log = AsyncLogging_start 7 (AsyncLogging_ctor 0 ''????'' ''????'' ''app'' 1000 3),
     as_back = threadFunc_init ''????'' ''????'', as_phase = Starting, as_chunks = [], as_accepted = []\<rparr>"

lemma sample_async_start: "async_start 4 sample_async"
  unfolding async_start_def sample_async_def
  by (intro exI [of _ 7] exI [of _ 0] exI [of _ "''app''"] exI [of _ 1000] exI [of _ 3] exI [of _ "''????''"]) simp

lemma sample_async_writing: "\<exists>s. async_reach 4 sample_async s \<and> as_phase s = Writing"
proof -
  let ?s1 = "sample_async\<lparr>as_phase := (if al_running (as_log sample_async) then Collecting else Done)\<rparr>"
  have "async_reach 4 sample_async ?s1"
    by (rule async_next [OF async_init]) (rule back_enter, simp add: sample_async_def)
  moreover obtain a bk where "threadFunc_swap (as_log ?s1) (as_back ?s1) = (a, bk)" by fastforce
  then have "async_step 4 ?s1 (?s1\<lparr>as_log := a, as_back := bk, as_phase := Writing\<rparr>)"
    by (intro back_swap) (simp_all add: sample_async_def AsyncLogging_start_def)
  ultimately show ?thesis by (auto intro: async_next)
qed

theorem async_never_fails_witness:
  "\<exists>s. async_reach 4 sample_async s \<and> as_phase s = Writing \<and>
     (\<exists>a. AsyncLogging_append ''????'' ''ab'' (as_log s) = Inr a) \<and>
     (\<exists>bk chunks. threadFunc_write record_chunk Inr (as_back s) (as_chunks s) = Inr (bk, chunks))"
proof -
  obtain s where s: "async_reach 4 sample_async s" "as_phase s = Writing" using sample_async_writing by blast
  then show ?thesis
    using async_never_fails [OF sample_async_start _ s(1), of "''????''" "''ab''"] by auto
qed

text \<open>
  A run of the sample: the line \<open>ab\<close> is appended, and the back end enters its loop, takes the buffer and writes it.
\<close>

definition sample_appended :: async_state where
  "sample_appended = sample_async\<lparr>as_accepted := ''ab'',
     as_log := (as_log sample_async)\<lparr>al_current := Some \<lparr>fb_data = ''ab'' @ [NUL, NUL], fb_cur = 2\<rparr>\<rparr>\<rparr>"

definition sample_collecting :: async_state where
  "sample_collecting = sample_appended\<lparr>as_phase := Collecting\<rparr>"

lemma sample_appended_reach: "async_reach 4 sample_async sample_appended"
proof -
  have "AsyncLogging_append ''????'' ''ab'' (as_log sample_async) = Inr (as_log sample_appended)"
    by (simp add: sample_appended_def sample_async_def AsyncLogging_start_def AsyncLogging_ctor_def AsyncLogging_append_def
        FixedBuffer_ctor_def FixedBuffer_bzero_def FixedBuffer_avail_def FixedBuffer_append_def write_at_def conv_simps eval_nat_numeral)
  from async_next [OF async_init front_append [where N = 4, OF _ _ this]] show ?thesis
    by (simp add: sample_appended_def sample_async_def)
qed

lemma sample_collecting_reach: "async_reach 4 sample_async sample_collecting"
  using async_next [OF sample_appended_reach back_enter]
  by (simp add: sample_collecting_def sample_appended_def sample_async_def AsyncLogging_start_def)

lemma sample_written:
  "\<exists>s. async_reach 4 sample_async s \<and> as_accepted s = ''ab'' \<and> as_chunks s = [''ab'' @ [NUL, NUL]]"
proof -
  obtain a bk where swap: "threadFunc_swap (as_log sample_collecting) (as_back sample_collecting) = (a, bk)" by fastforce
  let ?u = "sample_collecting\<lparr>as_log := a, as_back := bk, as_phase := Writing\<rparr>"
  have u: "async_reach 4 sample_async ?u"
    by (rule async_next [OF sample_collecting_reach back_swap [OF _ swap]]) (simp add: sample_collecting_def)
  have "back_inv 4 Writing bk" using async_reach_inv [OF u sample_async_start] by (simp add: async_inv_def)
  then obtain bk' where w: "threadFunc_write record_chunk Inr bk (as_chunks ?u) = Inr (bk', as_chunks ?u @ map (fb_data \<circ> the) (bk_toWrite bk))"
    using write_ok(1) by blast
  have "bk_toWrite bk = [Some \<lparr>fb_data = ''ab'' @ [NUL, NUL], fb_cur = 2\<rparr>]" "as_chunks ?u = []" "as_accepted ?u = ''ab''"
    using swap by (auto simp: threadFunc_swap_def sample_collecting_def sample_appended_def sample_async_def AsyncLogging_start_def
        AsyncLogging_ctor_def split: if_splits)
  with async_next [OF u back_write [of ?u bk' _ 4]] w show ?thesis by fastforce
qed

text \<open>
  C21. Lines are neither lost nor reordered while the logger runs. At every moment, in every interleaving, the chunks that the back end has
  given to \<open>output.append\<close> are whole arrays of \<open>N\<close> characters that begin with texts \<open>ws\<close>, and these texts in the order of the chunks, followed by the text of the
  buffers being written, of the filled buffers and of the current buffer, are the concatenation of all lines given to \<open>append\<close> (a line
  is dropped only if it is as long as a whole buffer). What stands behind the text in a chunk is stale.
\<close>

theorem async_text_in_order:
  assumes "async_start N s0" "N < 2 ^ 31" "async_reach N s0 s"
  shows "\<exists>ws. list_all2 (chunk_holds N) ws (as_chunks s) \<and>
    as_accepted s = concat ws @ texts (bk_toWrite (as_back s)) @ texts (al_buffers (as_log s)) @ text_of (al_current (as_log s))"
  using async_reach_inv [OF assms(3,1,2)] by (simp add: async_inv_def pending_text_def chunks_hold_def)

theorem async_text_in_order_witness:
  "\<exists>s ws. async_reach 4 sample_async s \<and> as_accepted s = ''ab'' \<and> as_chunks s = [''ab'' @ [NUL, NUL]] \<and>
     list_all2 (chunk_holds 4) ws (as_chunks s) \<and>
     as_accepted s = concat ws @ texts (bk_toWrite (as_back s)) @ texts (al_buffers (as_log s)) @ text_of (al_current (as_log s))"
proof -
  obtain s where s: "async_reach 4 sample_async s" "as_accepted s = ''ab''" "as_chunks s = [''ab'' @ [NUL, NUL]]"
    using sample_written by blast
  then show ?thesis using async_text_in_order [OF sample_async_start _ s(1)] by fastforce
qed

lemma done_stays:
  assumes "async_reach N s t" "as_phase s = Done"
  shows "as_phase t = Done \<and> as_chunks t = as_chunks s"
  using assms by (induction rule: async_reach.induct) (auto elim: async_step.cases)

lemma sample_stopped: "\<exists>s. async_reach 4 sample_async s \<and> as_phase s = Done \<and> as_accepted s = ''ab'' \<and> as_chunks s = []"
proof -
  let ?s2 = "sample_appended\<lparr>as_log := stop_request (as_log sample_appended)\<rparr>"
  let ?s3 = "?s2\<lparr>as_phase := (if al_running (as_log ?s2) then Collecting else Done)\<rparr>"
  have "async_reach 4 sample_async ?s2" by (rule async_next [OF sample_appended_reach front_stop])
  then have "async_reach 4 sample_async ?s3" by (rule async_next) (rule back_enter, simp add: sample_appended_def sample_async_def)
  then show ?thesis by (intro exI [of _ ?s3]) (simp add: stop_request_def sample_appended_def sample_async_def)
qed

text \<open>
  C37. Stopping the logger can lose lines: there is a run in which a line is accepted, the back end
  has left its loop, and nothing has been given to the log file, nor is anything in any continuation of the run. The loop ends as soon as it sees the flag
  cleared, without a last collection of the buffers.
\<close>

theorem async_stop_loses_lines:
  "\<exists>s. async_reach 4 sample_async s \<and> as_phase s = Done \<and> as_accepted s = ''ab'' \<and> as_chunks s = [] \<and>
    as_chunks ` {t. async_reach 4 s t} = {[]}"
proof -
  obtain s where s: "async_reach 4 sample_async s" "as_phase s = Done" "as_accepted s = ''ab''" "as_chunks s = []"
    using sample_stopped by blast
  have "as_chunks t = []" if "async_reach 4 s t" for t using done_stays [OF that s(2)] s(4) by simp
  then have "as_chunks ` {t. async_reach 4 s t} = {[]}" using async_init [of 4 s] s(4) by force
  with s show ?thesis by blast
qed

text \<open>
  C23. The log file behind the asynchronous logger. On storage on which files can be opened and every
  \<open>fwrite\<close> makes progress, a round of the back end from any reachable state \<open>s\<close> succeeds and does what the swap and the write of the
  interleaving model do from \<open>s\<close>: the logger and the back end end in the state of that swap and that write, and what the files have got are
  the chunks that the write gives to the list, which are the whole arrays of the filled buffers and of the current buffer of \<open>s\<close>, in that order, each completely into
  the file that is open by then (\<open>appends_to\<close>), whatever rolling happens between them. The log file stays open.
\<close>

theorem async_round_on_log_file:
  assumes "log_storage E" "async_start N s0" "N < 2 ^ 31" "async_reach N s0 s" "as_phase s = Collecting"
    and "lf_file lf \<noteq> None"
  shows "\<exists>a bk bk' ncs lf' io'. threadFunc_swap (as_log s) (as_back s) = (a, bk) \<and>
    threadFunc_write record_chunk Inr bk (as_chunks s) = Inr (bk', as_chunks s @ map snd ncs) \<and>
    async_reach N s0 (s\<lparr>as_log := a, as_back := bk', as_chunks := as_chunks s @ map snd ncs,
      as_phase := (if al_running a then Collecting else Done)\<rparr>) \<and>
    threadFunc_round E (as_log s, as_back s, lf, io) = Inr (a, bk', lf', io') \<and> lf_file lf' \<noteq> None \<and>
    map snd ncs = map (fb_data \<circ> the) (al_buffers (as_log s) @ [al_current (as_log s)]) \<and>
    appends_to E ncs (lf, io) \<and> io_files io' = write_chunks ncs (io_files io)"
proof -
  have inv: "front_inv N (as_log s)" "back_inv N Collecting (as_back s)"
    using async_reach_inv [OF assms(4,2,3)] assms(5) by (simp_all add: async_inv_def)
  obtain a bk where swap: "threadFunc_swap (as_log s) (as_back s) = (a, bk)" by fastforce
  let ?u = "s\<lparr>as_log := a, as_back := bk, as_phase := Writing\<rparr>"
  have u: "async_reach N s0 ?u" using assms(4) back_swap [OF assms(5) swap] by (rule async_next)
  have "bk_toWrite bk = al_buffers (as_log s) @ [al_current (as_log s)]"
    using swap by (auto simp: threadFunc_swap_def Let_def split: if_splits)
  moreover obtain bk' ncs st' where w: "threadFunc_write record_chunk Inr bk (as_chunks s) = Inr (bk', as_chunks s @ map snd ncs)"
    "threadFunc_write (output_append E) (output_flush E) bk (lf, io) = Inr (bk', st')" "lf_file (fst st') \<noteq> None" "appends_to E ncs (lf, io)"
    "io_files (snd st') = write_chunks ncs (io_files io)"
    using log_storage.write_refines [OF assms(1) swap_ok(2) [OF inv swap] assms(3), of "(lf, io)" "as_chunks s"] assms(6) by auto
  moreover have "map snd ncs = map (fb_data \<circ> the) (bk_toWrite bk)"
    using write_ok(1) [OF swap_ok(2) [OF inv swap], of "as_chunks s"] w(1) by auto
  moreover have "threadFunc_round E (as_log s, as_back s, lf, io) = Inr (a, bk', fst st', snd st')"
    using w(2) swap by (simp add: threadFunc_round_def)
  moreover have "async_reach N s0 (s\<lparr>as_log := a, as_back := bk', as_chunks := as_chunks s @ map snd ncs,
      as_phase := (if al_running a then Collecting else Done)\<rparr>)"
    using async_next [OF u back_write [of ?u bk' "as_chunks s @ map snd ncs" N]] w(1) by simp
  ultimately show ?thesis using swap by (intro exI conjI) simp_all
qed

theorem async_round_on_log_file_witness:
  "\<exists>a bk bk' lf' io'. threadFunc_swap (as_log sample_collecting) (as_back sample_collecting) = (a, bk) \<and>
    threadFunc_write record_chunk Inr bk [] = Inr (bk', [''ab'' @ [NUL, NUL]]) \<and>
    threadFunc_round ref_env (as_log sample_collecting, as_back sample_collecting, sample_lf, sample_io) = Inr (a, bk', lf', io') \<and>
    lf_file lf' \<noteq> None \<and> io_files io' ''a.log'' = ''ab'' @ [NUL, NUL]"
proof -
  have s: "(4 :: nat) < 2 ^ 31" "as_phase sample_collecting = Collecting" "lf_file sample_lf \<noteq> None"
    "as_chunks sample_collecting = []" "al_current (as_log sample_collecting) = Some \<lparr>fb_data = ''ab'' @ [NUL, NUL], fb_cur = 2\<rparr>"
    "al_buffers (as_log sample_collecting) = []"
    by (simp_all add: sample_lf_def sample_collecting_def sample_appended_def sample_async_def AsyncLogging_start_def AsyncLogging_ctor_def)
  have data: "map (fb_data \<circ> the) (al_buffers (as_log sample_collecting) @ [al_current (as_log sample_collecting)]) = [''ab'' @ [NUL, NUL]]"
    by (simp add: s(5,6))
  obtain a bk bk' ncs lf' io' where r: "threadFunc_swap (as_log sample_collecting) (as_back sample_collecting) = (a, bk)"
    "threadFunc_write record_chunk Inr bk [] = Inr (bk', map snd ncs)"
    "threadFunc_round ref_env (as_log sample_collecting, as_back sample_collecting, sample_lf, sample_io) = Inr (a, bk', lf', io')"
    "lf_file lf' \<noteq> None" "map snd ncs = [''ab'' @ [NUL, NUL]]" "appends_to ref_env ncs (sample_lf, sample_io)"
    "io_files io' = write_chunks ncs (io_files sample_io)"
    using async_round_on_log_file [OF re.log_storage_axioms sample_async_start s(1) sample_collecting_reach s(2,3), of sample_io]
    unfolding s(4) data append_Nil by (elim exE conjE) (rule that)
  from r(5) obtain name where ncs: "ncs = [(name, ''ab'' @ [NUL, NUL])]" by auto
  then have "name = ''a.log''" using r(6) by (simp add: sample_lf_def sample_fu_def)
  with r ncs show ?thesis by (auto simp: sample_io_def)
qed

end
