(* ===== verification/Log_Test.thy ===== *)
theory Log_Test
  imports Log_Logging Log_Async
begin

text \<open>
  The test program of the logger (\<open>src/logger/test/AsyncLoggingTest.cc\<close>), which puts the parts of the logger
  together: log statements go to the console first and to the asynchronous logger afterwards, whose back end
  works at the same time. The back end's turns between two statements, the clock, the
  stack and the heap are an environment; statement number \<open>i\<close> of the run sees the \<open>i\<close>-th value of each.
\<close>

section \<open>The environment and the state of the program\<close>

text \<open>
  \<open>le_turns E i\<close> is the number of steps the back end takes before the append of statement \<open>i\<close> gets the mutex.
  The heap blocks 0 to 3 are the four buffers that exist at the start.
\<close>

record log_env =
  le_file :: bytes
  le_localtime :: "int \<Rightarrow> tm"
  le_now :: "nat \<Rightarrow> int"
  le_stack :: "nat \<Rightarrow> bytes"
  le_heap :: "nat \<Rightarrow> bytes"
  le_turns :: "nat \<Rightarrow> nat"

text \<open>\<open>ts_g_asyncLog\<close>: whether the global pointer \<open>g_asyncLog\<close> has been set to the logger.\<close>

record test_state =
  ts_async :: async_state
  ts_g_asyncLog :: bool
  ts_stdout :: bytes
  ts_time :: bytes
  ts_count :: nat

text \<open>One step of the back end thread: it enters its loop, takes the buffers, or writes what it took.\<close>

definition back_turn :: "async_state \<Rightarrow> async_state" where
  "back_turn s =
     (case as_phase s of
        Starting \<Rightarrow> s\<lparr>as_phase := (if al_running (as_log s) then Collecting else Done)\<rparr>
      | Collecting \<Rightarrow> (case threadFunc_swap (as_log s) (as_back s) of (a, bk) \<Rightarrow>
          s\<lparr>as_log := a, as_back := bk, as_phase := Writing\<rparr>)
      | Writing \<Rightarrow> (case threadFunc_write record_chunk Inr (as_back s) (as_chunks s) of
          Inl _ \<Rightarrow> s
        | Inr (bk, chunks) \<Rightarrow> s\<lparr>as_back := bk, as_chunks := chunks,
            as_phase := (if al_running (as_log s) then Collecting else Done)\<rparr>)
      | Done \<Rightarrow> s)"


section \<open>The program\<close>

definition kRollSize :: int where
  "kRollSize = 1 * 1024 * 1024"

definition asyncLog :: "log_env \<Rightarrow> bytes \<Rightarrow> test_state \<Rightarrow> test_state res" where
  "asyncLog E msg st =
     (if ts_g_asyncLog st
      then (let s = (back_turn ^^ le_turns E (ts_count st)) (ts_async st)
            in rbind (AsyncLogging_append (le_heap E (4 + ts_count st)) msg (as_log s)) (\<lambda>a.
                 Inr (st\<lparr>ts_async := s\<lparr>as_log := a,
                   as_accepted := as_accepted s @ (if length msg < kLargeBuffer then msg else [])\<rparr>\<rparr>)))
      else Inr st)"

definition console_output :: "bytes \<Rightarrow> test_state \<Rightarrow> test_state res" where
  "console_output data st = rbind (defaultOutput data (ts_stdout st)) (\<lambda>out. Inr (st\<lparr>ts_stdout := out\<rparr>))"

definition console_globals :: "test_state logging_globals" where
  "console_globals = \<lparr>g_logLevel = initLogLevel, g_output = console_output, g_flush = Inr\<rparr>"

text \<open>A log statement of a function: its level, its line in the file and the inserted values.\<close>

type_synonym statement = "LogLevel \<times> int \<times> stream_arg list"

definition LOG :: "log_env \<Rightarrow> test_state logging_globals \<Rightarrow> bytes \<Rightarrow> statement \<Rightarrow> test_state \<Rightarrow> test_state res" where
  "LOG E g func stmt st =
     (case stmt of (level, line, args) \<Rightarrow>
        rbind (log_statement g (le_localtime E) (le_now E (ts_count st)) (le_stack E (ts_count st)) (ts_time st)
                 (le_file E) line func level args st) (\<lambda>(st', t_time).
          Inr (st'\<lparr>ts_time := t_time, ts_count := Suc (ts_count st)\<rparr>)))"

definition hello_args :: "nat \<Rightarrow> stream_arg list" where
  "hello_args i = [A_cstr (Some ''Hello, ''), A_int (int i), A_cstr (Some '' abc...xyz'')]"

definition test_Logging_statements :: "statement list" where
  "test_Logging_statements =
     [(DEBUG, 18, [A_cstr (Some ''debug'')]), (INFO, 19, [A_cstr (Some ''info'')]),
      (WARN, 20, [A_cstr (Some ''warn'')]), (ERROR, 21, [A_cstr (Some ''error'')])] @
     map (\<lambda>i. (INFO, 26, hello_args i)) [0..<10]"

definition test_Logging :: "log_env \<Rightarrow> test_state logging_globals \<Rightarrow> test_state \<Rightarrow> test_state res" where
  "test_Logging E g st = res_iter (LOG E g ''test_Logging'') test_Logging_statements st"

definition test_AsyncLogging_statements :: "statement list" where
  "test_AsyncLogging_statements = map (\<lambda>i. (INFO, 34, hello_args i)) [0..<1024]"

definition test_AsyncLogging :: "log_env \<Rightarrow> test_state logging_globals \<Rightarrow> test_state \<Rightarrow> test_state res" where
  "test_AsyncLogging E g st = res_iter (LOG E g ''test_AsyncLogging'') test_AsyncLogging_statements st"

text \<open>
  \<open>log.stop()\<close> and the end of the scope of \<open>log\<close>: the flag is cleared, the join returns when the back end
  has left its loop, for which three of its turns are enough, and the destructor has nothing left to stop.
\<close>

definition test_stop :: "log_env \<Rightarrow> test_state \<Rightarrow> test_state res" where
  "test_stop E st =
     (let s = (back_turn ^^ le_turns E (ts_count st)) (ts_async st);
          s1 = (back_turn ^^ 3) (s\<lparr>as_log := stop_request (as_log s)\<rparr>)
      in rbind (Thread_join (al_thread (as_log s1))) (\<lambda>th.
         rbind (AsyncLogging_dtor ((as_log s1)\<lparr>al_thread := th\<rparr>)) (\<lambda>a.
           Inr (st\<lparr>ts_async := s1\<lparr>as_log := a\<rparr>\<rparr>))))"

text \<open>
  \<open>main\<close>: \<open>base\<close> is what \<open>basename\<close> returns for the name of the program, \<open>gettid\<close> the id of the new thread and
  \<open>numCreated\<close> the counter of the class \<open>Thread\<close>. The sleeps have no effect but the turns of the back end.
\<close>

definition test_initial :: "log_env \<Rightarrow> int \<Rightarrow> int \<Rightarrow> bytes \<Rightarrow> test_state" where
  "test_initial E pid numCreated base =
     \<lparr>ts_async = \<lparr>as_log = AsyncLogging_ctor numCreated (le_heap E 0) (le_heap E 1) base kRollSize 3,
        as_back = threadFunc_init (le_heap E 2) (le_heap E 3), as_phase = Starting, as_chunks = [],
        as_accepted = []\<rparr>,
      ts_g_asyncLog = False, ts_stdout = ''pid = '' @ show_int pid @ [LF], ts_time = replicate 64 NUL, ts_count = 0\<rparr>"

definition test_start :: "int \<Rightarrow> test_state \<Rightarrow> test_state" where
  "test_start gettid st = st\<lparr>ts_g_asyncLog := True,
     ts_async := (ts_async st)\<lparr>as_log := AsyncLogging_start gettid (as_log (ts_async st))\<rparr>\<rparr>"

definition AsyncLoggingTest_main :: "log_env \<Rightarrow> int \<Rightarrow> int \<Rightarrow> int \<Rightarrow> bytes \<Rightarrow> test_state res" where
  "AsyncLoggingTest_main E pid gettid numCreated base =
     (let g = console_globals; g' = Logger_setOutput (asyncLog E) g
      in rbind (test_Logging E g (test_initial E pid numCreated base)) (\<lambda>st1.
         rbind (test_Logging E g' (test_start gettid st1)) (\<lambda>st2.
         rbind (test_AsyncLogging E g' st2) (\<lambda>st3. test_stop E st3))))"

section \<open>The back end's turns are steps of the interleaving model\<close>

lemma async_reach_trans: "async_reach N s t \<Longrightarrow> async_reach N t u \<Longrightarrow> async_reach N s u"
  by (rotate_tac, induction rule: async_reach.induct) (auto intro: async_next)

lemma back_turn_reach: "async_reach N s (back_turn s)"
proof (cases "as_phase s")
  case Starting
  then show ?thesis using async_next [OF async_init back_enter] by (simp add: back_turn_def)
next
  case Collecting
  then show ?thesis
    using async_next [OF async_init back_swap, of s] by (simp add: back_turn_def split: prod.split)
next
  case Writing
  then show ?thesis
    using async_next [OF async_init back_write [OF Writing]]
    by (auto simp: back_turn_def async_init simp del: if_split split: sum.split)
qed (simp add: back_turn_def async_init)

lemma back_turns_reach: "async_reach N s ((back_turn ^^ n) s)"
  by (induction n) (auto intro: async_init async_reach_trans back_turn_reach)

lemma back_turn_accepted [simp]: "as_accepted (back_turn s) = as_accepted s"
  by (simp add: back_turn_def split: back_phase.split prod.split sum.split)

lemma back_turns_accepted [simp]: "as_accepted ((back_turn ^^ n) s) = as_accepted s"
  by (induction n) simp_all

lemma async_step_thread: "async_step N s t \<Longrightarrow> al_thread (as_log t) = al_thread (as_log s)"
  by (induction rule: async_step.induct)
    (auto simp: AsyncLogging_append_def threadFunc_swap_def stop_request_def Let_def rbind_eq_Inr_iff
      split: option.splits if_splits)

lemma async_reach_thread: "async_reach N s t \<Longrightarrow> al_thread (as_log t) = al_thread (as_log s)"
  by (induction rule: async_reach.induct) (auto dest: async_step_thread)

lemma back_turn_stopped:
  assumes "async_inv N s" "\<not> al_running (as_log s)"
  shows "\<not> al_running (as_log (back_turn s))"
    and "as_phase (back_turn s) = (if as_phase s = Collecting then Writing else Done)"
  using assms write_ok(1) [of N "as_back s" "as_chunks s"]
  by (auto simp: back_turn_def async_inv_def threadFunc_swap_def Let_def split: back_phase.split prod.split sum.split)

lemma back_turns_leave_loop:
  assumes "async_inv N s" "\<not> al_running (as_log s)" "N < 2 ^ 31"
  shows "as_phase ((back_turn ^^ 3) s) = Done" "\<not> al_running (as_log ((back_turn ^^ 3) s))"
proof -
  have inv: "async_inv N (back_turn t)" if "async_inv N t" for t
    using back_turn_reach [of N t] that assms(3) by (induction rule: async_reach.induct) (auto intro: async_step_inv)
  note s1 = inv [OF assms(1)] back_turn_stopped [OF assms(1,2)]
  note s2 = inv [OF s1(1)] back_turn_stopped [OF s1(1,2)]
  note s3 = back_turn_stopped [OF s2(1,2)]
  show "as_phase ((back_turn ^^ 3) s) = Done" "\<not> al_running (as_log ((back_turn ^^ 3) s))"
    using s1 s2 s3 by (simp_all add: eval_nat_numeral)
qed


section \<open>What a sequence of statements outputs\<close>

text \<open>
  The output of statement number \<open>i\<close>: nothing below the global level; otherwise 4000 characters that begin with the line.
\<close>

definition output_of :: "log_env \<Rightarrow> bytes \<Rightarrow> nat \<Rightarrow> statement \<Rightarrow> bytes \<Rightarrow> bool" where
  "output_of E func i stmt out \<longleftrightarrow>
     (case stmt of (level, line, args) \<Rightarrow>
        if log_enabled initLogLevel level
        then length out = kSmallBuffer \<and>
          (\<exists>rest. out = log_line (le_localtime E) (le_now E i) (le_file E) line level (body_args func level args) @ rest)
        else out = [])"

fun outputs :: "log_env \<Rightarrow> bytes \<Rightarrow> nat \<Rightarrow> statement list \<Rightarrow> bytes \<Rightarrow> bool" where
  "outputs E func i [] out \<longleftrightarrow> out = []"
| "outputs E func i (stmt # stmts) out \<longleftrightarrow>
     (\<exists>out1 out2. out = out1 @ out2 \<and> output_of E func i stmt out1 \<and> outputs E func (Suc i) stmts out2)"

lemma outputs_length:
  "outputs E func i stmts out \<Longrightarrow>
     length out = kSmallBuffer * length (filter (\<lambda>stmt. log_enabled initLogLevel (fst stmt)) stmts)"
  by (induction stmts arbitrary: i out) (fastforce simp: output_of_def split: if_splits)+

definition statement_ok :: "log_env \<Rightarrow> bytes \<Rightarrow> statement \<Rightarrow> bool" where
  "statement_ok E func stmt \<longleftrightarrow>
     (case stmt of (level, line, args) \<Rightarrow> list_all arg_ok (body_args func level args) \<and>
        - (2 ^ 31) \<le> line \<and> line < 2 ^ 31 \<and> level \<noteq> FATAL \<and>
        length (puts_text (body_args func level args)) + length (SourceFile_ctor (le_file E)) \<le> 3800)"

text \<open>
  The laws of an environment: the clock shows a date of four-digit years, arrays have their size, and the name of the source
  file is one that file systems allow.
\<close>

locale test_env =
  fixes E :: log_env
  assumes now_ok: "0 \<le> le_now E i" "tm_ok (le_localtime E (le_now E i div kMicroSecondsPerSecond))"
    and stack_ok: "length (le_stack E i) = kSmallBuffer"
    and heap_ok: "length (le_heap E i) = kLargeBuffer"
    and file_ok: "length (SourceFile_ctor (le_file E)) \<le> 255"
begin

lemma statement_length:
  assumes "statement_ok E func (level, line, args)"
  shows "length (log_line (le_localtime E) (le_now E i) (le_file E) line level (body_args func level args)) + kMaxNumericSize
    \<le> kSmallBuffer"
proof -
  have "length (printf_0d 6 (le_now E i mod kMicroSecondsPerSecond)) = 6"
    by (rule length_printf_06d) (simp_all add: kMicroSecondsPerSecond_def)
  moreover have "length (show_int line) \<le> 21"
    using assms by (intro length_show_int64) (auto simp: statement_ok_def)
  ultimately show ?thesis
    using assms length_minute_text [OF now_ok(2) [of i]] length_getLevelName [of level]
    by (simp add: statement_ok_def log_line_def kMaxNumericSize_def kSmallBuffer_def)
qed

end

text \<open>
  A place for log lines: what the output function does with a line of 4000 characters, what it has received, and the
  part of the state it leaves alone.
\<close>

locale line_sink = test_env E for E :: log_env +
  fixes g :: "test_state logging_globals" and received :: "test_state \<Rightarrow> bytes"
    and kept :: "test_state \<Rightarrow> 'kept" and ready :: "test_state \<Rightarrow> bool"
  assumes level: "g_logLevel g = initLogLevel"
    and receives: "ready st \<Longrightarrow> length line = kSmallBuffer \<Longrightarrow> \<exists>st'. g_output g line st = Inr st' \<and> ready st' \<and>
      received st' = received st @ line \<and> kept st' = kept st \<and> ts_count st' = ts_count st \<and> ts_time st' = ts_time st"
    and frame: "ready (st\<lparr>ts_time := t, ts_count := n\<rparr>) = ready st"
      "received (st\<lparr>ts_time := t, ts_count := n\<rparr>) = received st" "kept (st\<lparr>ts_time := t, ts_count := n\<rparr>) = kept st"
begin

lemma LOG_output:
  assumes "ready st" "length (ts_time st) = 64" "statement_ok E func stmt"
  shows "\<exists>st' out. LOG E g func stmt st = Inr st' \<and> output_of E func (ts_count st) stmt out \<and> ready st' \<and>
    received st' = received st @ out \<and> kept st' = kept st \<and> ts_count st' = Suc (ts_count st) \<and> length (ts_time st') = 64"
proof -
  obtain level line args where [simp]: "stmt = (level, line, args)" by (cases stmt) auto
  let ?i = "ts_count st"
  show ?thesis
  proof (cases "log_enabled initLogLevel level")
    case True
    have en: "log_enabled (g_logLevel g) level" using True by (simp add: level)
    from assms(3) have ok: "list_all arg_ok (body_args func level args)" "- (2 ^ 31) \<le> line" "line < 2 ^ 31" "level \<noteq> FATAL"
      by (auto simp: statement_ok_def)
    obtain rest t where out: "length (log_line (le_localtime E) (le_now E ?i) (le_file E) line level (body_args func level args) @ rest)
        = kSmallBuffer" "length t = 64"
      "log_statement g (le_localtime E) (le_now E ?i) (le_stack E ?i) (ts_time st) (le_file E) line func level args st =
        rbind (g_output g (log_line (le_localtime E) (le_now E ?i) (le_file E) line level (body_args func level args) @ rest) st)
          (\<lambda>st1. Inr (st1, t))"
      using log_statement_line [where localtime = "le_localtime E", OF stack_ok [of ?i] assms(2) now_ok [of ?i] ok(1-3) statement_length en,
          where st = st] assms(3) ok(4) by auto
    show ?thesis
      using receives [OF assms(1) out(1)] out True
      by (auto simp: LOG_def output_of_def frame)
  next
    case False
    then show ?thesis
      using assms frame [where st = st and t = "ts_time st"]
      by (auto simp: LOG_def log_statement_def level output_of_def intro!: exI [of _ "[]"])
  qed
qed

lemma LOGs_output:
  assumes "ready st" "length (ts_time st) = 64" "list_all (statement_ok E func) stmts"
  shows "\<exists>st' out. res_iter (LOG E g func) stmts st = Inr st' \<and> outputs E func (ts_count st) stmts out \<and> ready st' \<and>
    received st' = received st @ out \<and> kept st' = kept st \<and> ts_count st' = ts_count st + length stmts \<and>
    length (ts_time st') = 64"
  using assms
proof (induction stmts arbitrary: st)
  case (Cons stmt stmts)
  obtain st1 out1 where 1: "LOG E g func stmt st = Inr st1" "output_of E func (ts_count st) stmt out1" "ready st1"
    "received st1 = received st @ out1" "kept st1 = kept st" "ts_count st1 = Suc (ts_count st)" "length (ts_time st1) = 64"
    using LOG_output [of st func stmt] Cons.prems by auto
  obtain st' out2 where "res_iter (LOG E g func) stmts st1 = Inr st'" "outputs E func (ts_count st1) stmts out2" "ready st'"
    "received st' = received st1 @ out2" "kept st' = kept st1" "ts_count st' = ts_count st1 + length stmts"
    "length (ts_time st') = 64"
    using Cons.IH [OF 1(3,7)] Cons.prems by auto
  then show ?case using 1 by (intro exI [of _ st'] exI [of _ "out1 @ out2"]) auto
qed simp

end

section \<open>The console and the asynchronous logger receive lines\<close>

definition async_ready :: "test_state \<Rightarrow> bool" where
  "async_ready st \<longleftrightarrow> ts_g_asyncLog st \<and> (\<exists>s0. async_start kLargeBuffer s0 \<and> async_reach kLargeBuffer s0 (ts_async st))"

lemma async_ready_frame [simp]: "async_ready (st\<lparr>ts_time := t, ts_count := n\<rparr>) = async_ready st"
  by (simp add: async_ready_def)

lemma kLargeBuffer_int: "kLargeBuffer < 2 ^ 31" "kSmallBuffer < kLargeBuffer"
  by (simp_all add: kLargeBuffer_def kSmallBuffer_def)

lemma asyncLog_receives:
  assumes "async_ready st" "length line = kSmallBuffer" "length (le_heap E (4 + ts_count st)) = kLargeBuffer"
  shows "\<exists>st'. asyncLog E line st = Inr st' \<and> async_ready st' \<and>
    as_accepted (ts_async st') = as_accepted (ts_async st) @ line \<and> ts_stdout st' = ts_stdout st \<and>
    ts_count st' = ts_count st \<and> ts_time st' = ts_time st"
proof -
  let ?N = kLargeBuffer and ?s = "(back_turn ^^ le_turns E (ts_count st)) (ts_async st)"
  obtain s0 where s0: "async_start ?N s0" "async_reach ?N s0 (ts_async st)" "ts_g_asyncLog st"
    using assms(1) by (auto simp: async_ready_def)
  then have reach: "async_reach ?N s0 ?s" using back_turns_reach async_reach_trans by blast
  have short: "length line < 2 ^ 31" "length line < ?N" using assms(2) kLargeBuffer_int by simp_all
  have "front_inv ?N (as_log ?s)"
    using async_reach_inv [OF reach s0(1) kLargeBuffer_int(1)] by (simp add: async_inv_def)
  then obtain a where a: "AsyncLogging_append (le_heap E (4 + ts_count st)) line (as_log ?s) = Inr a"
    using front_append_ok [OF _ assms(3) kLargeBuffer_int(1) short(1)] by blast
  have "async_reach ?N s0 (?s\<lparr>as_log := a, as_accepted := as_accepted ?s @ (if length line < ?N then line else [])\<rparr>)"
    by (rule async_next [OF reach front_append [OF assms(3) short(1) a]])
  then show ?thesis using a s0 short(2) by (auto simp: asyncLog_def async_ready_def)
qed

sublocale test_env \<subseteq> console: line_sink E console_globals ts_stdout ts_async "\<lambda>_. True"
  by unfold_locales (simp_all add: console_globals_def console_output_def defaultOutput_def)

sublocale test_env \<subseteq> async: line_sink E "Logger_setOutput (asyncLog E) console_globals"
    "\<lambda>st. as_accepted (ts_async st)" ts_stdout async_ready
  by unfold_locales (simp_all add: Logger_setOutput_def console_globals_def asyncLog_receives heap_ok)

text \<open>An environment in which the back end takes a turn before every line.\<close>

definition sample_log_env :: log_env where
  "sample_log_env = \<lparr>le_file = ''test/AsyncLoggingTest.cc'', le_localtime = \<lambda>_. sample_tm,
     le_now = \<lambda>i. 1704164645000000 + int i, le_stack = \<lambda>_. replicate kSmallBuffer (CHR ''?''),
     le_heap = \<lambda>_. replicate kLargeBuffer (CHR ''?''), le_turns = \<lambda>_. 1\<rparr>"

interpretation sample: test_env sample_log_env
  by unfold_locales (simp_all add: sample_log_env_def tm_ok_def sample_tm_def SourceFile_ctor_def c_str_def NUL_def)

lemma hello_ok:
  assumes "i < 2 ^ 31"
  shows "list_all arg_ok (hello_args i)" "length (puts_text (hello_args i)) \<le> 38"
  using assms length_show_int64 [of "int i"] by (simp_all add: hello_args_def puts_text_def c_str_def NUL_def)

context test_env
begin

lemma test_statements_ok:
  "list_all (statement_ok E ''test_Logging'') test_Logging_statements"
  "list_all (statement_ok E ''test_AsyncLogging'') test_AsyncLogging_statements"
proof -
  have hello: "statement_ok E func (INFO, line, hello_args i)" if "i < 2 ^ 31" "0 \<le> line" "line < 100" for func line i
    using hello_ok [OF that(1)] that(2,3) file_ok by (simp add: statement_ok_def body_args_def)
  moreover have "list_all (statement_ok E ''test_Logging'') (take 4 test_Logging_statements)"
    using file_ok by (simp add: test_Logging_statements_def statement_ok_def body_args_def puts_text_def c_str_def NUL_def)
  ultimately show "list_all (statement_ok E ''test_Logging'') test_Logging_statements"
    by (simp add: test_Logging_statements_def list_all_iff)
  show "list_all (statement_ok E ''test_AsyncLogging'') test_AsyncLogging_statements"
    using hello by (simp add: test_AsyncLogging_statements_def list_all_iff)
qed

lemma test_stop_ok:
  assumes "async_ready st"
  shows "\<exists>s0 s th st'. test_stop E st = Inr st' \<and> async_start kLargeBuffer s0 \<and> async_reach kLargeBuffer s0 s \<and>
    as_phase s = Done \<and> ts_async st' = s\<lparr>as_log := (as_log s)\<lparr>al_thread := th\<rparr>\<rparr> \<and> th_joined th \<and>
    as_accepted s = as_accepted (ts_async st) \<and> ts_stdout st' = ts_stdout st"
proof -
  let ?N = kLargeBuffer and ?s = "(back_turn ^^ le_turns E (ts_count st)) (ts_async st)"
  let ?t = "?s\<lparr>as_log := stop_request (as_log ?s)\<rparr>"
  let ?u = "(back_turn ^^ 3) ?t"
  obtain s0 where s0: "async_start ?N s0" "async_reach ?N s0 (ts_async st)"
    using assms by (auto simp: async_ready_def)
  then have "async_reach ?N s0 ?s" using back_turns_reach async_reach_trans by blast
  then have t: "async_reach ?N s0 ?t" by (rule async_next) (rule front_stop)
  then have u: "async_reach ?N s0 ?u" using back_turns_reach async_reach_trans by blast
  have inv: "async_inv ?N ?t" by (rule async_reach_inv [OF t s0(1) kLargeBuffer_int(1)])
  have "\<not> al_running (as_log ?t)" by (simp add: stop_request_def)
  note left = back_turns_leave_loop [OF inv this kLargeBuffer_int(1)]
  have "th_started (al_thread (as_log ?u))"
    using async_reach_thread [OF u] s0(1) by (auto simp: async_start_def AsyncLogging_start_def Thread_start_def)
  then have "test_stop E st = Inr (st\<lparr>ts_async := ?u\<lparr>as_log := (as_log ?u)\<lparr>al_thread := (al_thread (as_log ?u))\<lparr>th_joined := True\<rparr>\<rparr>\<rparr>\<rparr>)"
    using left(2) by (simp add: test_stop_def Let_def Thread_join_def AsyncLogging_dtor_def)
  then show ?thesis
    using s0(1) u left(1)
    by (intro exI [of _ s0] exI [of _ ?u] exI [of _ "(al_thread (as_log ?u))\<lparr>th_joined := True\<rparr>"]) simp
qed

lemma main_output:
  "\<exists>st out1 out2 out3 s0 s th. AsyncLoggingTest_main E pid gettid numCreated base = Inr st \<and>
     outputs E ''test_Logging'' 0 test_Logging_statements out1 \<and>
     outputs E ''test_Logging'' 14 test_Logging_statements out2 \<and>
     outputs E ''test_AsyncLogging'' 28 test_AsyncLogging_statements out3 \<and>
     ts_stdout st = ''pid = '' @ show_int pid @ [LF] @ out1 \<and>
     async_start kLargeBuffer s0 \<and> async_reach kLargeBuffer s0 s \<and> as_phase s = Done \<and>
     ts_async st = s\<lparr>as_log := (as_log s)\<lparr>al_thread := th\<rparr>\<rparr> \<and> th_joined th \<and> as_accepted s = out2 @ out3"
proof -
  let ?st0 = "test_initial E pid numCreated base"
  let ?g = "Logger_setOutput (asyncLog E) console_globals"
  have len: "length test_Logging_statements = 14" by (simp add: test_Logging_statements_def)
  obtain st1 out1 where 1: "test_Logging E console_globals ?st0 = Inr st1" "outputs E ''test_Logging'' 0 test_Logging_statements out1"
    "ts_stdout st1 = ''pid = '' @ show_int pid @ [LF] @ out1" "ts_async st1 = ts_async ?st0" "ts_count st1 = 14" "length (ts_time st1) = 64"
    using console.LOGs_output [of ?st0 "''test_Logging''" test_Logging_statements] test_statements_ok(1) len
    by (auto simp: test_Logging_def test_initial_def)
  have "async_start kLargeBuffer (ts_async (test_start gettid st1))"
    using heap_ok 1(4) unfolding async_start_def test_start_def test_initial_def
    by (intro exI [of _ gettid] exI [of _ numCreated] exI [of _ base] exI [of _ kRollSize] exI [of _ 3] exI [of _ "le_heap E _"]) simp
  then have ready: "async_ready (test_start gettid st1)"
    by (auto simp: async_ready_def test_start_def intro: async_init)
  obtain st2 out2 where 2: "test_Logging E ?g (test_start gettid st1) = Inr st2"
    "outputs E ''test_Logging'' 14 test_Logging_statements out2" "async_ready st2" "as_accepted (ts_async st2) = out2"
    "ts_stdout st2 = ts_stdout st1" "ts_count st2 = 28" "length (ts_time st2) = 64"
    using async.LOGs_output [OF ready, of "''test_Logging''" test_Logging_statements] test_statements_ok(1) len 1(4-6)
    by (auto simp: test_Logging_def test_start_def test_initial_def)
  obtain st3 out3 where 3: "test_AsyncLogging E ?g st2 = Inr st3" "outputs E ''test_AsyncLogging'' 28 test_AsyncLogging_statements out3"
    "async_ready st3" "as_accepted (ts_async st3) = out2 @ out3" "ts_stdout st3 = ts_stdout st2"
    using async.LOGs_output [OF 2(3,7), of "''test_AsyncLogging''" test_AsyncLogging_statements] test_statements_ok(2) 2(4,6)
    by (auto simp: test_AsyncLogging_def)
  have "AsyncLoggingTest_main E pid gettid numCreated base = test_stop E st3"
    using 1(1) 2(1) 3(1) by (simp add: AsyncLoggingTest_main_def Let_def)
  then show ?thesis using test_stop_ok [OF 3(3)] 1(2,3) 2(2,5) 3(2,4,5) by (metis append_assoc)
qed

end

section \<open>Properties\<close>

lemma test_statement_counts:
  "length (filter (\<lambda>stmt. log_enabled initLogLevel (fst stmt)) test_Logging_statements) = 13"
  "length (filter (\<lambda>stmt. log_enabled initLogLevel (fst stmt)) test_AsyncLogging_statements) = 1024"
  by (simp_all add: test_Logging_statements_def test_AsyncLogging_statements_def initLogLevel_def less_eq_LogLevel_def
      filter_map comp_def)

text \<open>
  C24. The test program of the logger, whatever the back end does between the statements: it returns with the back-end thread joined and out of its loop.
  The first round of statements is on the console, thirteen lines of 4000 characters, the
  \<open>LOG_DEBUG\<close> statement being below the level. The 1037 lines of the other two rounds were accepted by the asynchronous
  logger, in program order, each beginning with its text. The back end has given the log file whole arrays of 4000000 characters that begin with
  texts \<open>ws\<close>, the rest being stale: these texts in order are the first of the accepted characters, and the others are lost, in the buffers that nobody will
  write. The console got nothing more.
\<close>

theorem AsyncLoggingTest_main_output:
  assumes "test_env E"
  shows "\<exists>st out1 out2 out3 ws. AsyncLoggingTest_main E pid gettid numCreated base = Inr st \<and>
    outputs E ''test_Logging'' 0 test_Logging_statements out1 \<and> length out1 = 13 * 4000 \<and>
    outputs E ''test_Logging'' 14 test_Logging_statements out2 \<and>
    outputs E ''test_AsyncLogging'' 28 test_AsyncLogging_statements out3 \<and> length (out2 @ out3) = 1037 * 4000 \<and>
    ts_stdout st = ''pid = '' @ show_int pid @ [LF] @ out1 \<and>
    as_phase (ts_async st) = Done \<and> th_joined (al_thread (as_log (ts_async st))) \<and>
    as_accepted (ts_async st) = out2 @ out3 \<and>
    list_all2 (chunk_holds (4000 * 1000)) ws (as_chunks (ts_async st)) \<and>
    out2 @ out3 = concat ws @ texts (al_buffers (as_log (ts_async st))) @ text_of (al_current (as_log (ts_async st)))"
proof -
  obtain st out1 out2 out3 s0 s th where main: "AsyncLoggingTest_main E pid gettid numCreated base = Inr st"
    and out: "outputs E ''test_Logging'' 0 test_Logging_statements out1"
      "outputs E ''test_Logging'' 14 test_Logging_statements out2"
      "outputs E ''test_AsyncLogging'' 28 test_AsyncLogging_statements out3"
      "ts_stdout st = ''pid = '' @ show_int pid @ [LF] @ out1"
    and s: "async_start kLargeBuffer s0" "async_reach kLargeBuffer s0 s" "as_phase s = Done"
      "ts_async st = s\<lparr>as_log := (as_log s)\<lparr>al_thread := th\<rparr>\<rparr>" "th_joined th" "as_accepted s = out2 @ out3"
    using test_env.main_output [OF assms, of pid gettid numCreated base] by blast
  have "async_inv kLargeBuffer s" by (rule async_reach_inv [OF s(2,1) kLargeBuffer_int(1)])
  then obtain ws where ws: "list_all2 (chunk_holds (4000 * 1000)) ws (as_chunks s)"
    "out2 @ out3 = concat ws @ texts (al_buffers (as_log s)) @ text_of (al_current (as_log s))"
    using s(3,6) by (auto simp: async_inv_def chunks_hold_def pending_text_def back_inv_def kLargeBuffer_def)
  have "length out1 = 13 * 4000" "length (out2 @ out3) = 1037 * 4000"
    using outputs_length [OF out(1)] outputs_length [OF out(2)] outputs_length [OF out(3)] test_statement_counts
    by (simp_all add: kSmallBuffer_def)
  then show ?thesis
    using main out s(3-6) ws
    by (intro exI [of _ st] exI [of _ out1] exI [of _ out2] exI [of _ out3] exI [of _ ws] conjI) simp_all
qed

theorem AsyncLoggingTest_main_output_witness:
  "\<exists>st out1 out2 out3 ws. AsyncLoggingTest_main sample_log_env 4711 4712 0 ''AsyncLoggingTest'' = Inr st \<and>
    outputs sample_log_env ''test_Logging'' 0 test_Logging_statements out1 \<and> length out1 = 13 * 4000 \<and>
    outputs sample_log_env ''test_Logging'' 14 test_Logging_statements out2 \<and>
    outputs sample_log_env ''test_AsyncLogging'' 28 test_AsyncLogging_statements out3 \<and> length (out2 @ out3) = 1037 * 4000 \<and>
    ts_stdout st = ''pid = 4711'' @ [LF] @ out1 \<and>
    as_phase (ts_async st) = Done \<and> th_joined (al_thread (as_log (ts_async st))) \<and>
    as_accepted (ts_async st) = out2 @ out3 \<and>
    list_all2 (chunk_holds (4000 * 1000)) ws (as_chunks (ts_async st)) \<and>
    out2 @ out3 = concat ws @ texts (al_buffers (as_log (ts_async st))) @ text_of (al_current (as_log (ts_async st)))"
  using AsyncLoggingTest_main_output [OF sample.test_env_axioms, of 4711 4712 0 "''AsyncLoggingTest''"]
  by (simp add: show_int_def show_nat.simps)

end
