(* ===== verification/Spec2Isabelle.thy ===== *)
theory Spec2Isabelle
  imports Http_EndToEnd Example_Session Programs Net_Closing Log_Test
begin

text \<open>
  \<^bold>\<open>A verification of tiny\_network\_lib\<close>

  The library is a C++ network library in the reactor style, with an HTTP server and an asynchronous logger on top. This
  development models its code (everything under \<open>src/src\<close> and \<open>src/example\<close> that has
  run-time behaviour; below, paths are relative to \<open>src/\<close>) and proves what makes it correct, or where it is not.

  \<^bold>\<open>The parts and how they interact\<close>

  \<^item> One \<open>EventLoop\<close> per thread polls an epoll instance through its \<open>EpollPoller\<close>, dispatches the reported events to
    \<open>Channel\<close> objects, and then runs the functors that its own or other threads have queued. An eventfd
    wakes it up.
  \<^item> A \<open>TcpConnection\<close> owns a channel, an input and an output \<open>Buffer\<close>. Its channel calls its handlers; the handlers
    call the user's callbacks; sends go to the kernel directly or wait in the output buffer.
  \<^item> A \<open>TcpServer\<close> owns an \<open>Acceptor\<close> and a pool of loop threads. It names new connections, hands each to the next
    loop, and removes it when it closes; the hand-over between the threads is by functors.
  \<^item> \<open>HttpServer\<close> and the echo example are users of \<open>TcpServer\<close>. \<open>HttpContext\<close> parses a request out of the input
    buffer, \<open>HttpResponse\<close> renders the answer into an output buffer.
  \<^item> A log statement collects its line in a \<open>LogStream\<close>; \<open>AsyncLogging\<close> passes lines to a back-end thread, which
    writes them with \<open>LogFile\<close> and \<open>FileUtil\<close>.

  \<^bold>\<open>The model\<close>

  Objects that several components share (channels, loops, connections, strings passed by address) live in an explicit store, the
  record \<open>'k world\<close>; pointers are addresses. \<open>'k server\<close> extends it by the server's members. Operations take and return the world;
  every abort, thrown exception, null pointer, access out of bounds and signed overflow is a value of \<open>failure\<close> in
  the result type \<open>res\<close>. The operating system is the parameter \<open>'k kernel\<close>, the C
  library of the logger the parameter \<open>'e file_env\<close>: records of the calls the code makes, whose documented behaviour is stated in locales.
  Threads appear as step relations whose steps are the critical sections. A loop that may not end is a partial function into
  \<open>option\<close>; no fuel is used anywhere, so that \<open>None\<close> means exactly that the call does not return. The
  platform has a 64-bit \<open>size_t\<close> and a 32-bit \<open>int\<close>; both conversions are written out where the code makes them. Hypotheses on
  lengths (\<open>conn_room\<close>, \<open>Buffer_room\<close>, \<open>INT_MAX\<close>) keep the \<open>int\<close> computations of \<open>Buffer::resize_\<close> and of the parser in
  range; \<open>Buffer_append_limit\<close> is the exact limit of an append, behind which every call fails.

  \<^bold>\<open>The theories\<close>

  \<^item> \<open>Prelude\<close>: failures, sequencing, integer conversions, the used parts of the C++ standard library, decimal output.
  \<^item> \<open>Net_Buffer\<close>: \<open>src/net/Buffer.h\<close>, \<open>Buffer.cc\<close>. The buffer implements a queue of bytes (locale \<open>byte_queue\<close>, interpreted on the
    buffer operations); \<open>append\<close> and its limit, \<open>readFd\<close>, \<open>findCRLF\<close>.
  \<^item> \<open>Net_World\<close>, \<open>Net_Kernel\<close>: the store, the system calls, the laws (\<open>epoll_kernel\<close>, \<open>stream_kernel\<close>, \<open>net_kernel\<close>,
    \<open>polling_kernel\<close>, \<open>eventfd_kernel\<close>) and an executable kernel that satisfies them.
  \<^item> \<open>Base_Time\<close>: \<open>src/base/Timestamp.h\<close>, \<open>Timestamp.cc\<close>.
  \<^item> \<open>Net_Poller\<close>: \<open>src/net/Channel.h\<close>, \<open>Channel.cc\<close>, \<open>src/poller/\<close>. Channel, poller and kernel agree after any sequence of
    operations; what \<open>poll\<close> reports; what \<open>disableWriting\<close> really does.
  \<^item> \<open>Net_EventLoop\<close>: \<open>src/net/EventLoop.h\<close>, \<open>EventLoop.cc\<close>. The functor queue under all interleavings: first-in first-out,
    nothing lost, no lost wake-up; when the loop returns; what \<open>quit\<close> does.
  \<^item> \<open>Net_TcpConnection\<close>: \<open>src/net/TcpConnection.h\<close>, \<open>TcpConnection.cc\<close>, \<open>Socket.h\<close>, \<open>socket.cc\<close>. No byte of a stream is lost, repeated or
    reordered; reading, closing, high-water mark; the dangling pointer of a send from another thread; the missing half-close.
  \<^item> \<open>Net_Thread\<close>: \<open>src/base/Thread.h\<close>, \<open>CurrentThread.h\<close>, \<open>src/net/EventLoopThread.h\<close>, \<open>EventLoopThreadPool.h\<close> and their
    \<open>.cc\<close> files. The hand-over of a new loop, the round robin.
  \<^item> \<open>Net_InetAddress\<close>: \<open>src/net/InetAddress.h\<close>, \<open>InetAddress.cc\<close>. Byte order, text of an address.
  \<^item> \<open>Net_TcpServer\<close>: \<open>src/net/Acceptor.h\<close>, \<open>TcpServer.h\<close> and their \<open>.cc\<close> files. The locale \<open>server_user\<close> is the contract between the
    server and its callbacks; under it the connection table keeps its invariant and names are unique.
  \<^item> \<open>Net_Isolation\<close>: events of several connections interleave without touching each other's streams.
  \<^item> \<open>Net_InLoop\<close>: what a message callback may assume of \<open>send\<close> and \<open>shutdown\<close> in the connection's own thread.
  \<^item> \<open>Net_ConnState\<close>: the state machine of a connection; under the contract \<open>forward_callbacks\<close>, interpreted on the
    callbacks of the HTTP demonstration and of the echo server, no sequence of operations moves a connection back, but for a \<open>shutdown\<close> from another
    thread, whose test and assignment are two steps (\<open>conn_life\<close>): it can turn \<open>kDisconnected\<close> into \<open>kDisconnecting\<close>.
  \<^item> \<open>Net_Turn\<close>, \<open>Net_Lifecycle\<close>, \<open>Net_Drain\<close>: one turn of a loop, with the event, the dispatch through the guard of the channel, the
    handler and the functors. Who owns a connection (\<open>conn_held\<close>); the turn that accepts a connection and the one that removes it, for servers whose
    connection callback only logs (locale \<open>quiet_server\<close>, interpreted on both servers); the turn that drains the output and what
    \<open>disableWriting\<close> makes of the connection then. \<open>reports\<close> in \<open>Net_Turn\<close> is the kernel's side of a session of many turns.
  \<^item> \<open>Net_Closing\<close>: which callbacks a connection calls when it ends, in which order and how often, and what the server's close callback
    asks for, with callbacks that record their calls.
  \<^item> \<open>Net_Handover\<close>: servers with loop threads. The eventfd wakes a loop; the base loop accepts and the loop of another thread
    establishes; closing takes three turns in two threads, and the connection is held until the last.
  \<^item> \<open>Http_Message\<close>, \<open>Http_Context\<close>, \<open>Http_Server\<close>: \<open>src/http/\<close>. Rendering a response; the parser against a reference
    parser on byte lists, its round trip, resumption and divergence; the server's callbacks; the demonstration program. \<open>server_user\<close> is interpreted
    on the HTTP callbacks.
  \<^item> \<open>Http_EndToEnd\<close>: one turn of a loop from the kernel's event to the response, and the turns after the answer, which send nothing. The last section of this theory states the properties of
    whole turns: accepting, answering (once), draining, removing.
  \<^item> \<open>Example_Echo\<close>, \<open>Example_Multiplex\<close>, \<open>Example_Session\<close>: \<open>example/echoServer.cc\<close>; \<open>server_user\<close> is interpreted on its callbacks. Over any
    number of turns, with events of any of its connections in each, the server echoes to every peer what that peer sends; a session
    with one peer is the special case.
  \<^item> \<open>Net_Startup\<close>, \<open>Programs\<close>: the construction of loops, threads and server and the start, for any server and for the two programs
    \<open>http/main.cc\<close> and \<open>example/echoServer.cc\<close>. They reach their loop in a state from which the turns of the theories above go on.
  \<^item> \<open>Log_Stream\<close>, \<open>Log_Logging\<close>: \<open>src/logger/FixedBuffer.h\<close>, \<open>LogStream.h\<close>, \<open>Logging.h\<close> and their \<open>.cc\<close> files. The
    integer formatter equals the decimal representation; insertions are all or nothing; what a log statement outputs.
  \<^item> \<open>Log_File\<close>, \<open>Log_Async\<close>: \<open>src/logger/FileUtil.h\<close>, \<open>LogFile.h\<close>, \<open>AsyncLogging.h\<close> and their \<open>.cc\<close> files. Complete writes,
    rolling, at most once in a second; front end and back end under all interleavings: the chunks given to the log file begin with the lines, in order
    (\<open>chunk_holds\<close>); a back-end round on the real log file refines the round of the interleaving model (locale \<open>log_storage\<close>).
  \<^item> \<open>Log_Test\<close>: \<open>src/logger/test/AsyncLoggingTest.cc\<close>, the logger as a whole: log statements, the redirection of the output, and the asynchronous logger
    with a back end that works in between. The locale \<open>line_sink\<close> is the contract of an output function; it holds for the console and for
    \<open>asyncLog\<close>.

  \<^bold>\<open>Partial functions\<close>

  \<open>HttpContext_parse_loop\<close> returns on every context that expects a request line (\<open>parseRequest_refines_parse_bytes\<close>) and does not on a
  finished one (\<open>parseRequest_diverges\<close>). \<open>FileUtil_append_loop\<close> returns if every \<open>fwrite\<close> makes progress
  (\<open>FileUtil_append_complete\<close>) and does not if none does (\<open>FileUtil_append_hangs\<close>). \<open>EventLoop_while\<close> is meant to run until \<open>quit\<close>
  (\<open>EventLoop_loop_returns\<close>). All other recursive definitions are total.

  \<^bold>\<open>Not modelled\<close>

  \<^item> \<open>base/noncopyable.h\<close> has no run-time behaviour; \<open>include/tiny_network/\<close> are copies of the headers.
  \<^item> \<open>LOG_INFO\<close> and \<open>LOG_DEBUG\<close> statements inside the network code, and what programs print to standard output and standard error.
    \<open>LOG_ERROR\<close> is recorded in the world, \<open>LOG_FATAL\<close> is the failure \<open>Aborted\<close>.
  \<^item> Lifetimes of objects other than connections and temporary strings: the implicit destruction of members and the destructors at the end of the
    network programs' \<open>main\<close>. A connection's lifetime is \<open>conn_held\<close>, which looks at the server's table and the queued functors; the theories below
    \<open>Net_Turn\<close> and the main programs leave it open as the argument \<open>alive\<close>. Functors that run on a dead object are not a failure of the model.
  \<^item> Timing: the time-out of \<open>epoll_wait\<close> and the three seconds of the logger's wait may elapse at any moment.
  \<^item> Data races on members that the code reads without the mutex (\<open>quit_\<close>, \<open>running_\<close>): a step reads the current value. In \<open>conn_life\<close> the
    handlers, functors and callbacks of one loop, and the calls of \<open>send\<close>, are single steps; only \<open>shutdown\<close> from another thread, which writes the state, is divided.
  \<^item> Signals: a \<open>write\<close> to a connection whose peer is gone also raises \<open>SIGPIPE\<close>, which nothing under \<open>src/\<close> ignores; the model has the error return
    \<open>EPIPE\<close> alone, that is, a process in which the signal is ignored.
  \<^item> Smaller simplifications: the \<open>int\<close> length of \<open>LogFile::append\<close> is the length of the list, which the property bounds by \<open>2 ^ 31\<close>; the entries whose pointers
    \<open>~TcpServer\<close> resets are removed from the table instead of being left there as null pointers; \<open>log_enabled\<close> is defined on all levels, although
    no macro exists for \<open>TRACE\<close>.
\<close>

section \<open>Properties\<close>

text \<open>
  C5. From the kernel's event to the answer. Suppose \<open>epoll_wait\<close> reports input on an established
  connection of the HTTP server, and the bytes that are read complete a well-formed request in the input
  buffer. Then one turn of the connection's event loop adds exactly the rendered response to what the
  peer is sent, leaves exactly the bytes behind the request in the input buffer, and shuts the connection down
  if the response says so; the loop has no functor left to run. The request handed to the HTTP callback carries the
  time at which \<open>poll\<close> returned. The only failure is the abort of a refused \<open>epoll_ctl\<close>. The callback
  may depend on the kernel state it finds (the clock).
\<close>

theorem HttpServer_turn_answers:
  assumes "polling_kernel K interest sent" "conn_served l c s"
    and "conn_ready K tid (length (render_response (iter (resp_headers resp)) resp)) c s"
    and "epoll_wait K (epollfd (loops s l)) (poller_events_size (loops s l)) (kern s) =
      (Inr [(EPOLLIN, conn_channel (conns s c))], k1)"
    and "sys_gettimeofday K k1 = ((ts, us), k2)" "t = ts * kMicroSecondsPerSecond + us"
    and "sys_read K (ch_fd (chan_of c s)) (readv_capacity (conn_inputBuffer (conns s c))) k2 = (Inr xs, k3)" "xs \<noteq> []"
    and "Buffer_inv (conn_inputBuffer (conns s c))"
    and "Buffer_size (conn_inputBuffer (conns s c)) + length xs \<le> nat INT_MAX"
    and "Buffer_abs (conn_inputBuffer (conns s c)) @ xs = render_request m p q v hs @ rest"
    and "m \<noteq> kInvalid" "v \<noteq> kUnknownVersion" "wf_target p q" "list_all wf_header hs"
    and "\<And>w. kern w = k3 \<Longrightarrow> callback_answers sent cb (parsed_request m p q v t hs) resp w"
  shows "aborts_or (\<lambda>s'. Buffer_abs (conn_inputBuffer (conns s' c)) = rest \<and>
      conn_stream sent c s' = conn_stream sent c s @ render_response (iter (resp_headers resp)) resp \<and>
      conn_state (conns s' c) = (if resp_closeConnection resp then kDisconnecting else kConnected) \<and>
      pendingFunctors (loops s' l) = [])
    (EventLoop_turn K (Server_call K (http_callbacks K tid iter cb tmp) alloc tid) conn_held
      (Server_exec K (http_callbacks K tid iter cb tmp) wc hw tid) l s)"
proof -
  have "req_query HttpRequest_ctor = []" by (simp add: HttpRequest_ctor_def)
  then have "parse_bytes t HttpRequest_ctor (Buffer_abs (conn_inputBuffer (conns s c)) @ xs) =
      (True, kGotAll, parsed_request m p q v t hs, rest)"
    using parse_bytes_render [OF assms(12-14)] assms(11,15) by (simp add: parsed_request_def list_all_iff)
  from polling_kernel.turn_answers [where iter = iter, OF assms(1-5,7-10) this [unfolded assms(6)] assms(16) [unfolded assms(6)]]
  show ?thesis by (rule aborts_or_mono) blast+
qed

text \<open>Loop 0 is told that connection 1 has input, a request followed by one more byte.\<close>

definition sample_bytes :: bytes where
  "sample_bytes = render_request kGet ''/a'' ''?b'' kHttp11 [(''Host'', ''h'')] @ ''x''"

definition sample_turn :: "ref_state server" where
  "sample_turn = sample_blank\<lparr>kern := (kern sample_blank)\<lparr>rk_ready := [(EPOLLIN, 1)], rk_delivers := [sample_bytes]\<rparr>,
     chans := (\<lambda>_. sample_chan\<lparr>ch_readCallback := Some (H_TcpConnection_handleRead 1),
       ch_writeCallback := Some (H_TcpConnection_handleWrite 1)\<rparr>), srv_connections := [''c'' \<mapsto> 1],
     conns := (\<lambda>_. sample_conn\<lparr>conn_hasWriteCompleteCallback := False, conn_hasHighWaterMarkCallback := False\<rparr>)\<rparr>"

lemmas sample_turn_defs = sample_turn_def sample_blank_def sample_defs

lemma sample_turn_served: "conn_served 0 1 sample_turn"
  by (simp add: conn_served_def sample_turn_defs)

lemma sample_turn_ready: "n \<le> 1000 \<Longrightarrow> conn_ready ref_kernel 100 n 1 sample_turn"
  by (auto simp: conn_ready_def conn_ok_def conn_room_def sample_turn_defs link_up_def ref_defs
      Buffer_chunk_def limit_defs InitialPrependSize_def EWOULDBLOCK_def EPIPE_def ECONNRESET_def split: list.splits)

lemma sample_bytes_length: "length sample_bytes = 31" "sample_bytes \<noteq> []"
  by (simp_all add: sample_bytes_def render_request_def render_request_line_def render_headers_def CRLF_def)

lemma sample_turn_wait:
  "epoll_wait ref_kernel (epollfd (loops sample_turn 0)) (poller_events_size (loops sample_turn 0)) (kern sample_turn) =
    (Inr [(EPOLLIN, conn_channel (conns sample_turn 1))], (kern sample_turn)\<lparr>rk_ready := []\<rparr>)"
  by (simp add: sample_turn_defs ref_defs)

lemma sample_turn_read:
  "sys_read ref_kernel (ch_fd (chan_of 1 sample_turn)) (readv_capacity (conn_inputBuffer (conns sample_turn 1)))
     ((kern sample_turn)\<lparr>rk_ready := []\<rparr>) = (Inr sample_bytes, (kern sample_turn)\<lparr>rk_ready := [], rk_delivers := []\<rparr>)"
  using sample_bytes_length by (simp add: sample_turn_defs ref_defs readv_capacity_def Let_def extrabuf_size_def)

theorem HttpServer_turn_answers_witness:
  "aborts_or (\<lambda>s'. Buffer_abs (conn_inputBuffer (conns s' 1)) = ''x'' \<and>
      conn_stream rk_sent 1 s' = conn_stream rk_sent 1 sample_turn @ render_response [] not_found \<and>
      conn_state (conns s' 1) = (if resp_closeConnection not_found then kDisconnecting else kConnected) \<and>
      pendingFunctors (loops s' 0) = [])
    (EventLoop_turn ref_kernel
      (Server_call ref_kernel (http_callbacks ref_kernel 100 (\<lambda>_. []) (main_onRequest ref_kernel (\<lambda>_. epoch_tm)) 3) (\<lambda>s. (6, 6)) 100)
      conn_held
      (Server_exec ref_kernel (http_callbacks ref_kernel 100 (\<lambda>_. []) (main_onRequest ref_kernel (\<lambda>_. epoch_tm)) 3)
         (\<lambda>c s. Inr s) (\<lambda>c n s. Inr s) 100) 0 sample_turn)"
proof (rule HttpServer_turn_answers [where iter = "\<lambda>_. []" and resp = not_found and t = 0 and ts = 0 and us = 0
      and m = kGet and p = "''/a''" and q = "''?b''" and v = kHttp11 and hs = "[(''Host'', ''h'')]",
      OF rk.polling_kernel_axioms sample_turn_served _ sample_turn_wait _ _ sample_turn_read])
  show "conn_ready ref_kernel 100 (length (render_response [] not_found)) 1 sample_turn"
    by (rule sample_turn_ready) (simp add: not_found_rendered CRLF_def)
  show "callback_answers rk_sent (main_onRequest ref_kernel (\<lambda>_. epoch_tm))
      (parsed_request kGet ''/a'' ''?b'' kHttp11 0 [(''Host'', ''h'')]) not_found w" for w :: "ref_state server"
    by (auto simp: callback_answers_def main_onRequest_def parsed_request_def not_found_def HttpResponse_ctor_def
        HttpResponse_setCloseConnection_def HttpResponse_setStatusMessage_def HttpResponse_setStatusCode_def
        intro: exI [of _ "kern w"])
  show "sys_gettimeofday ref_kernel ((kern sample_turn)\<lparr>rk_ready := []\<rparr>) = ((0, 0), (kern sample_turn)\<lparr>rk_ready := []\<rparr>)"
    by (simp add: ref_defs)
  show "Buffer_size (conn_inputBuffer (conns sample_turn 1)) + length sample_bytes \<le> nat INT_MAX" "sample_bytes \<noteq> []"
    using sample_bytes_length by (simp_all add: sample_turn_defs limit_defs)
qed (simp_all add: sample_bytes_def sample_turn_defs wf_target_def wf_header_def trimmed_def isspace_def CR_def)

text \<open>
  C6. The HTTP server answers a connection once. Take the turn of the previous property, with a response that closes the connection (as every response does
  whose callback does not clear the flag, since \<open>onRequest\<close> sets it whatever the request says), and after it any number of turns in which
  the kernel reports input or room for output on the connection: further requests in the same or in later pieces, malformed ones, anything. Then after all of them the
  peer has been sent exactly the one response, completely up to what is still in the output buffer. The callback is still called
  for each later request. The only failure is the abort of a refused \<open>epoll_ctl\<close>; the bytes have to fit the range of the buffer's \<open>int\<close> computations.
\<close>

theorem HttpServer_answers_once:
  assumes "polling_kernel K interest sent" "conn_served l c s"
    and "conn_ready K tid (length (render_response (iter (resp_headers resp)) resp)) c s"
    and "epoll_wait K (epollfd (loops s l)) (poller_events_size (loops s l)) (kern s) =
      (Inr [(EPOLLIN, conn_channel (conns s c))], k1)"
    and "sys_gettimeofday K k1 = ((ts, us), k2)" "t = ts * kMicroSecondsPerSecond + us"
    and "sys_read K (ch_fd (chan_of c s)) (readv_capacity (conn_inputBuffer (conns s c))) k2 = (Inr xs, k3)" "xs \<noteq> []"
    and "Buffer_inv (conn_inputBuffer (conns s c))"
    and "Buffer_size (conn_inputBuffer (conns s c)) + length xs + length (concat (map event_input evs)) \<le> nat INT_MAX"
    and "Buffer_abs (conn_inputBuffer (conns s c)) @ xs = render_request m p q v hs @ rest"
    and "m \<noteq> kInvalid" "v \<noteq> kUnknownVersion" "wf_target p q" "list_all wf_header hs"
    and "\<And>w. kern w = k3 \<Longrightarrow> callback_answers sent cb (parsed_request m p q v t hs) resp w"
    and "resp_closeConnection resp" "callback_quiet sent iter cb"
    and "\<And>s1. http_turn K iter cb tmp alloc tid l s = Inr s1 \<Longrightarrow> reports K (http_turn K iter cb tmp alloc tid l) l c evs s1"
  shows "aborts_or (\<lambda>s'. conn_stream sent c s' = conn_stream sent c s @ render_response (iter (resp_headers resp)) resp \<and>
      conn_state (conns s' c) = kDisconnecting \<and> conn_served l c s')
    (res_iter (\<lambda>_. http_turn K iter cb tmp alloc tid l) (Some xs # evs) s)"
proof -
  let ?R = "render_response (iter (resp_headers resp)) resp" and ?n = "length (concat (map event_input evs)) + 0"
  have "req_query HttpRequest_ctor = []" by (simp add: HttpRequest_ctor_def)
  then have parse: "parse_bytes t HttpRequest_ctor (Buffer_abs (conn_inputBuffer (conns s c)) @ xs) =
      (True, kGotAll, parsed_request m p q v t hs, rest)"
    using parse_bytes_render [OF assms(12-14)] assms(11,15) by (simp add: parsed_request_def list_all_iff)
  have first: "aborts_or (\<lambda>s'. http_done ?n l c s' \<and> conn_stream sent c s' = conn_stream sent c s @ ?R \<and>
      conn_channel (conns s' c) = conn_channel (conns s c)) (http_turn K iter cb tmp alloc tid l s)"
    by (rule polling_kernel.turn_finishes [where iter = iter, OF assms(1-5,7-9) _ parse [unfolded assms(6)] assms(16) [unfolded assms(6)] assms(17)])
      (use assms(10) in simp)
  show ?thesis
    unfolding res_iter.simps
  proof (cases "http_turn K iter cb tmp alloc tid l s")
    case (Inl e)
    then show "aborts_or (\<lambda>s'. conn_stream sent c s' = conn_stream sent c s @ ?R \<and> conn_state (conns s' c) = kDisconnecting \<and> conn_served l c s')
      (rbind (http_turn K iter cb tmp alloc tid l s) (res_iter (\<lambda>_. http_turn K iter cb tmp alloc tid l) evs))"
      using first by simp
  next
    case (Inr s1)
    then have s1: "http_done ?n l c s1" "conn_stream sent c s1 = conn_stream sent c s @ ?R" using first by simp_all
    show "aborts_or (\<lambda>s'. conn_stream sent c s' = conn_stream sent c s @ ?R \<and> conn_state (conns s' c) = kDisconnecting \<and> conn_served l c s')
      (rbind (http_turn K iter cb tmp alloc tid l s) (res_iter (\<lambda>_. http_turn K iter cb tmp alloc tid l) evs))"
      unfolding Inr rbind_Inr
      by (rule aborts_or_mono [OF polling_kernel.done_session [OF assms(1) s1(1) assms(18) assms(19) [OF Inr]]])
        (simp add: s1(2) http_done_def)
  qed
qed

text \<open>A peer that sends the same request again and again, answered by the callback the server has when nobody sets one.\<close>

definition asking_kernel :: "ref_state kernel" where
  "asking_kernel = ref_kernel\<lparr>epoll_wait := \<lambda>ep n k. (Inr [(EPOLLIN, 1)], k), sys_read := \<lambda>f n k. (Inr (take n sample_bytes), k)\<rparr>"

interpretation ak: polling_kernel asking_kernel rk_interest rk_sent
  by unfold_locales (auto simp: asking_kernel_def ref_defs min_def split: if_splits list.splits ctl_op.splits)

lemma asking_calls:
  "epoll_wait asking_kernel ep n k = (Inr [(EPOLLIN, 1)], k)" "sys_gettimeofday asking_kernel k = ((0, 0), k)"
  "sys_read asking_kernel f (readv_capacity b) k = (Inr sample_bytes, k)"
  using sample_bytes_length by (simp_all add: asking_kernel_def ref_defs readv_capacity_def Let_def extrabuf_size_def)

lemma default_callback_answers: "callback_answers rk_sent defaultHttpCallback req not_found w"
  by (auto simp: callback_answers_def defaultHttpCallback_def not_found_def HttpResponse_ctor_def HttpResponse_setCloseConnection_def
      HttpResponse_setStatusMessage_def HttpResponse_setStatusCode_def intro: exI [of _ "kern w"])

lemma default_callback_quiet: "callback_quiet rk_sent (\<lambda>_. []) defaultHttpCallback"
proof -
  have "length (render_response [] not_found) \<le> Buffer_chunk"
    by (simp add: not_found_rendered CRLF_def Buffer_chunk_def limit_defs InitialPrependSize_def)
  then show ?thesis unfolding callback_quiet_def using default_callback_answers by fastforce
qed

abbreviation asking_turn :: "ref_state server \<Rightarrow> ref_state server res" where
  "asking_turn \<equiv> http_turn asking_kernel (\<lambda>_. []) defaultHttpCallback 3 (\<lambda>s. (6, 6)) 100 0"

lemma asking_reports:
  assumes "http_done (length (concat (map event_input (replicate n (Some sample_bytes))))) 0 1 s" "conn_channel (conns s 1) = 1"
  shows "reports asking_kernel asking_turn 0 1 (replicate n (Some sample_bytes)) s"
  using assms
proof (induction n arbitrary: s)
  case (Suc n)
  let ?m = "length (concat (map event_input (replicate n (Some sample_bytes))))"
  have wait: "epoll_wait asking_kernel (epollfd (loops s 0)) (poller_events_size (loops s 0)) (kern s) =
      (Inr [(EPOLLIN, conn_channel (conns s 1))], kern s)"
    using Suc.prems(2) by (simp add: asking_calls)
  have "http_done (length sample_bytes + ?m) 0 1 s" using Suc.prems(1) by simp
  from ak.done_turn_input [where tid = 100 and tmp = 3 and alloc = "\<lambda>s. (6, 6)", OF this default_callback_quiet sample_bytes_length(2) wait asking_calls(2,3)]
  have "aborts_or (\<lambda>s'. http_done ?m 0 1 s' \<and> conn_channel (conns s' 1) = 1) (asking_turn s)"
    using Suc.prems(2) by (auto elim!: aborts_or_mono)
  then have "reports asking_kernel asking_turn 0 1 (replicate n (Some sample_bytes)) s'" if "asking_turn s = Inr s'" for s'
    using Suc.IH [of s'] that by simp
  then show ?case using wait sample_bytes_length(2) by (simp add: asking_calls)
qed simp

lemma not_found_closes: "resp_closeConnection not_found"
  by (simp add: not_found_def HttpResponse_ctor_def HttpResponse_setCloseConnection_def HttpResponse_setStatusMessage_def
      HttpResponse_setStatusCode_def)

lemma asking_ready: "conn_ready asking_kernel 100 (length (render_response ((\<lambda>_. []) (resp_headers not_found)) not_found)) 1 sample_turn"
  using sample_turn_ready [of "length (render_response [] not_found)"]
  by (simp add: conn_ready_def link_up_def asking_kernel_def not_found_rendered CRLF_def)

lemma asking_wait:
  "epoll_wait asking_kernel (epollfd (loops sample_turn 0)) (poller_events_size (loops sample_turn 0)) (kern sample_turn) =
    (Inr [(EPOLLIN, conn_channel (conns sample_turn 1))], kern sample_turn)"
  by (simp add: asking_calls sample_turn_defs)

lemma sample_bytes_parsed:
  "parse_bytes 0 HttpRequest_ctor sample_bytes = (True, kGotAll, parsed_request kGet ''/a'' ''?b'' kHttp11 0 [(''Host'', ''h'')], ''x'')"
  using parse_bytes_render [of kGet kHttp11 "''/a''" "''?b''" HttpRequest_ctor "[(''Host'', ''h'')]" 0 "''x''"]
  by (simp add: sample_bytes_def parsed_request_def HttpRequest_ctor_def wf_target_def wf_header_def trimmed_def isspace_def CR_def)

lemma asking_first:
  "aborts_or (\<lambda>s'. http_done 62 0 1 s' \<and> conn_stream rk_sent 1 s' = conn_stream rk_sent 1 sample_turn @ render_response [] not_found \<and>
     conn_channel (conns s' 1) = conn_channel (conns sample_turn 1)) (asking_turn sample_turn)"
  by (rule ak.turn_finishes [where iter = "\<lambda>_. []" and xs = sample_bytes and ts = 0 and us = 0, OF sample_turn_served asking_ready asking_wait
        asking_calls(2,3) sample_bytes_length(2) _ _ _ default_callback_answers not_found_closes])
    (use sample_bytes_length sample_bytes_parsed in \<open>simp_all add: sample_turn_defs limit_defs\<close>)

lemma sample_turn_channel: "conn_channel (conns sample_turn 1) = 1"
  by (simp add: sample_turn_defs)

lemma sample_evs_length: "length (concat (map event_input (replicate 2 (Some sample_bytes)))) = 62"
  using sample_bytes_length(1) by (simp add: eval_nat_numeral)

theorem HttpServer_answers_once_witness:
  "aborts_or (\<lambda>s'. conn_stream rk_sent 1 s' = conn_stream rk_sent 1 sample_turn @ render_response [] not_found \<and>
      conn_state (conns s' 1) = kDisconnecting \<and> conn_served 0 1 s')
    (res_iter (\<lambda>_. asking_turn) (Some sample_bytes # replicate 2 (Some sample_bytes)) sample_turn)"
proof (rule HttpServer_answers_once [where iter = "\<lambda>_. []" and resp = not_found and t = 0 and ts = 0 and us = 0
      and m = kGet and p = "''/a''" and q = "''?b''" and v = kHttp11 and hs = "[(''Host'', ''h'')]" and rest = "''x''",
      OF ak.polling_kernel_axioms sample_turn_served asking_ready asking_wait asking_calls(2) _ asking_calls(3) sample_bytes_length(2)])
  show "reports asking_kernel asking_turn 0 1 (replicate 2 (Some sample_bytes)) s1" if "asking_turn sample_turn = Inr s1" for s1
  proof (rule asking_reports)
    show "http_done (length (concat (map event_input (replicate 2 (Some sample_bytes))))) 0 1 s1"
      unfolding sample_evs_length using asking_first [unfolded that] by simp
    show "conn_channel (conns s1 1) = 1"
      using asking_first [unfolded that] sample_turn_channel by simp
  qed
  show "Buffer_size (conn_inputBuffer (conns sample_turn 1)) + length sample_bytes +
      length (concat (map event_input (replicate 2 (Some sample_bytes)))) \<le> nat INT_MAX"
    unfolding sample_evs_length sample_bytes_length(1) by (simp add: sample_turn_defs limit_defs)
qed (use default_callback_answers default_callback_quiet not_found_closes in
  \<open>simp_all add: sample_bytes_def sample_turn_defs limit_defs wf_target_def wf_header_def trimmed_def isspace_def CR_def\<close>)

text \<open>
  C10. A new connection, from the kernel's event to the registration. When \<open>epoll_wait\<close> reports input on the
  listening socket of a server without extra threads and \<open>accept4\<close> delivers a descriptor, one turn of the loop enters the connection in the table
  under the next name, establishes it, and registers its channel for reading with the poller and the kernel. The connection is then
  served by the loop and ready to send: the two conditions under which \<open>HttpServer_turn_answers\<close> speaks of a request. The only
  failure is the abort of a refused \<open>epoll_ctl\<close>.
\<close>

theorem TcpServer_turn_accepts:
  assumes "quiet_server K interest sent U" "server_listens l tid s"
    and "epoll_wait K (epollfd (loops s l)) (poller_events_size (loops s l)) (kern s) = (Inr [(EPOLLIN, acc_chan s)], k1)"
    and "sys_gettimeofday K k1 = ((ts, us), k2)"
    and "sys_accept4 K (acc_fd s) k2 = (Inr (f, peer), k3)" "0 \<le> f"
    and "\<And>s'. alloc s' = (c, ch)" "ch \<noteq> acc_chan s"
    and "f \<noteq> wakeupFd (loops s l)" "link_up K f" "Buffer_size fresh_buffer + n \<le> Buffer_chunk"
  shows "aborts_or (\<lambda>s'. conn_served l c s' \<and> conn_ready K tid n c s' \<and> Buffer_abs (conn_inputBuffer (conns s' c)) = [] \<and>
      srv_connections s' = (srv_connections s)(server_connName (srv_name s) (srv_ipPort s) (srv_nextConnId s) \<mapsto> c) \<and>
      poller_channels (loops s' l) f = Some ch \<and> interest (kern s') (epollfd (loops s' l)) f = Some (kReadEvent, ch))
    (EventLoop_turn K (Server_call K U alloc tid) conn_held (Server_exec K U wc hw tid) l s)"
  using quiet_server.accept_turn [OF assms(1-8)]
proof (rule aborts_or_mono, elim exE conjE)
  fix s' sp
  assume est: "established interest l c ch f sp s'" and sp: "server_listens l tid sp" "wakeupFd (loops sp l) = wakeupFd (loops s l)"
    "srv_connections sp = srv_connections s" "srv_name sp = srv_name s" "srv_ipPort sp = srv_ipPort s" "srv_nextConnId sp = srv_nextConnId s"
  have "conn_served l c s'" using established_serves [OF est] sp(1) by (simp add: server_listens_def)
  moreover have "conn_ready K tid n c s'" "Buffer_abs (conn_inputBuffer (conns s' c)) = []"
    using established_ready [OF est _ _ assms(10,11)] sp(1,2) assms(9) by (simp_all add: server_listens_def)
  moreover have "poller_channels (loops s' l) f = Some ch" "interest (kern s') (epollfd (loops s' l)) f = Some (kReadEvent, ch)"
    "srv_connections s' = (srv_connections sp)(server_connName (srv_name sp) (srv_ipPort sp) (srv_nextConnId sp) \<mapsto> c)"
    using est unfolding established_def by blast+
  ultimately show "conn_served l c s' \<and> conn_ready K tid n c s' \<and> Buffer_abs (conn_inputBuffer (conns s' c)) = [] \<and>
      srv_connections s' = (srv_connections s)(server_connName (srv_name s) (srv_ipPort s) (srv_nextConnId s) \<mapsto> c) \<and>
      poller_channels (loops s' l) f = Some ch \<and> interest (kern s') (epollfd (loops s' l)) f = Some (kReadEvent, ch)"
    using sp(3-6) by simp
qed

definition sample_listening :: "ref_state server" where
  "sample_listening = sample_blank\<lparr>kern := (kern sample_blank)\<lparr>rk_ready := [(EPOLLIN, 2)], rk_incoming := [(8, sample_addr)]\<rparr>,
     chans := (chans sample_blank)(2 := (Channel_ctor 0 3)\<lparr>ch_readCallback := Some H_Acceptor_handleRead,
       ch_events := kReadEvent, ch_index := kAdded\<rparr>), srv_hasConnectionCallback := True, srv_hasMessageCallback := True\<rparr>"

abbreviation sample_http_callbacks :: "ref_state server callbacks" where
  "sample_http_callbacks \<equiv> http_callbacks ref_kernel 100 (\<lambda>_. []) (main_onRequest ref_kernel (\<lambda>_. epoch_tm)) 3"

theorem TcpServer_turn_accepts_witness:
  "aborts_or (\<lambda>s'. conn_served 0 6 s' \<and> conn_ready ref_kernel 100 1000 6 s' \<and> Buffer_abs (conn_inputBuffer (conns s' 6)) = [] \<and>
      srv_connections s' = (srv_connections sample_listening)(server_connName (srv_name sample_listening)
        (srv_ipPort sample_listening) (srv_nextConnId sample_listening) \<mapsto> 6) \<and>
      poller_channels (loops s' 0) 8 = Some 6 \<and> rk_interest (kern s') (epollfd (loops s' 0)) 8 = Some (kReadEvent, 6))
    (EventLoop_turn ref_kernel (Server_call ref_kernel sample_http_callbacks (\<lambda>s. (6, 6)) 100) conn_held
      (Server_exec ref_kernel sample_http_callbacks (\<lambda>c s. Inr s) (\<lambda>c n s. Inr s) 100) 0 sample_listening)"
proof (rule TcpServer_turn_accepts [where ts = 0 and us = 0 and peer = sample_addr and ?k3.0 = "(kern sample_blank)\<lparr>rk_ready := [], rk_incoming := []\<rparr>"
      and ?k1.0 = "(kern sample_blank)\<lparr>rk_ready := [], rk_incoming := [(8, sample_addr)]\<rparr>"
      and ?k2.0 = "(kern sample_blank)\<lparr>rk_ready := [], rk_incoming := [(8, sample_addr)]\<rparr>", OF http_quiet.quiet_server_axioms])
  show "server_listens 0 100 sample_listening"
    by (simp add: server_listens_def sample_listening_def sample_blank_def sample_defs EventLoopThreadPool_ctor_def limit_defs)
  show "link_up ref_kernel 8"
    by (auto simp: link_up_def ref_defs EWOULDBLOCK_def EPIPE_def ECONNRESET_def split: list.splits)
qed (simp_all add: sample_listening_def sample_blank_def sample_defs ref_defs Buffer_chunk_def limit_defs InitialPrependSize_def)

text \<open>
  C11. The end of a connection. When \<open>epoll_wait\<close> reports input on a connection of a server without extra threads
  and the read returns nothing (the peer has closed), one turn of the loop does not fail and takes the connection away
  completely: it is in state \<open>kDisconnected\<close>, out of the server's table, unknown to the poller and the kernel, and no functor
  is left. It is owned until its channel has left the poller (the dispatch goes through the guard of the
  channel, and the functor that destroys it holds it), and owned by nobody afterwards.
\<close>

theorem TcpServer_turn_removes:
  assumes "quiet_server K interest sent U" "conn_served l c s" "server_inv s"
    and "Buffer_inv (conn_inputBuffer (conns s c))" "Buffer_size (conn_inputBuffer (conns s c)) \<le> vector_max_size"
    and "chan_ok interest (conn_channel (conns s c)) s" "ch_index (chan_of c s) = kAdded"
    and "conn_hasConnectionCallback (conns s c)" "conn_hasCloseCallback (conns s c)"
    and "srv_loop s = l" "threadId (loops s l) = tid" "conn_loop (conns s c) = l"
    and "pool_loops (srv_pool s) = []" "pool_baseLoop (srv_pool s) = l"
    and "epoll_wait K (epollfd (loops s l)) (poller_events_size (loops s l)) (kern s) =
      (Inr [(EPOLLIN, conn_channel (conns s c))], k1)"
    and "sys_gettimeofday K k1 = ((ts, us), k2)"
    and "sys_read K (ch_fd (chan_of c s)) (readv_capacity (conn_inputBuffer (conns s c))) k2 = (Inr [], k3)"
  shows "\<exists>s'. EventLoop_turn K (Server_call K U alloc tid) conn_held (Server_exec K U wc hw tid) l s = Inr s' \<and>
    conn_state (conns s' c) = kDisconnected \<and> srv_connections s' = (srv_connections s)(conn_name (conns s c) := None) \<and>
    interest (kern s') (epollfd (loops s' (ch_loop (chan_of c s')))) (ch_fd (chan_of c s')) = None \<and>
    poller_channels (loops s' (ch_loop (chan_of c s'))) (ch_fd (chan_of c s')) = None \<and>
    pendingFunctors (loops s' l) = [] \<and> \<not> conn_held c s'"
  using quiet_server.close_turn [OF assms, of alloc wc hw] by (auto simp: removed_def)

definition sample_closing :: "ref_state server" where
  "sample_closing = sample_turn\<lparr>kern := (kern sample_turn)\<lparr>rk_delivers := [[]]\<rparr>,
     srv_connections := [server_connName [] [] 1 \<mapsto> 1], srv_nextConnId := 2,
     conns := (\<lambda>_. (conns sample_turn 1)\<lparr>conn_name := server_connName [] [] 1\<rparr>)\<rparr>"

theorem TcpServer_turn_removes_witness:
  "\<exists>s'. EventLoop_turn ref_kernel (Server_call ref_kernel sample_http_callbacks (\<lambda>s. (6, 6)) 100) conn_held
      (Server_exec ref_kernel sample_http_callbacks (\<lambda>c s. Inr s) (\<lambda>c n s. Inr s) 100) 0 sample_closing = Inr s' \<and>
    conn_state (conns s' 1) = kDisconnected \<and>
    srv_connections s' = (srv_connections sample_closing)(conn_name (conns sample_closing 1) := None) \<and>
    rk_interest (kern s') (epollfd (loops s' (ch_loop (chan_of 1 s')))) (ch_fd (chan_of 1 s')) = None \<and>
    poller_channels (loops s' (ch_loop (chan_of 1 s'))) (ch_fd (chan_of 1 s')) = None \<and>
    pendingFunctors (loops s' 0) = [] \<and> \<not> conn_held 1 s'"
proof (rule TcpServer_turn_removes [where ts = 0 and us = 0 and ?k1.0 = "(kern sample_closing)\<lparr>rk_ready := []\<rparr>"
      and ?k2.0 = "(kern sample_closing)\<lparr>rk_ready := []\<rparr>" and ?k3.0 = "(kern sample_closing)\<lparr>rk_ready := [], rk_delivers := []\<rparr>",
      OF http_quiet.quiet_server_axioms])
  show "conn_served 0 1 sample_closing" by (simp add: conn_served_def sample_closing_def sample_turn_defs)
  show "server_inv sample_closing"
    by (auto simp: server_inv_def sample_closing_def sample_turn_defs pool_wf_def EventLoopThreadPool_ctor_def limit_defs c_str_def
        intro!: exI [of _ 1])
  show "chan_ok rk_interest (conn_channel (conns sample_closing 1)) sample_closing"
    by (simp add: chan_ok_def Let_def sample_closing_def sample_turn_defs)
qed (simp_all add: sample_closing_def sample_turn_defs EventLoopThreadPool_ctor_def limit_defs ref_defs readv_capacity_def Let_def extrabuf_size_def)

text \<open>
  C12. A connection goes deaf when its output has been sent. When \<open>epoll_wait\<close> reports a served connection writable and
  the kernel takes all of its pending output, one turn of the loop sends the output, and leaves the connection registered with the
  kernel for \<open>EPOLLOUT\<close> alone: \<open>disableWriting\<close> has taken the interest in reading instead of the interest in writing. No input
  of the peer, not even its end of file, is ever reported for the connection again. The only failure is the
  abort of a refused \<open>epoll_ctl\<close>.
\<close>

theorem TcpServer_turn_deafens:
  assumes "polling_kernel K interest sent" "conn_served l c s" "conn_ok c s"
    and "chan_ok interest (conn_channel (conns s c)) s" "ch_index (chan_of c s) = kAdded" "Channel_isWriting (chan_of c s)"
    and "length (Buffer_abs (conn_outputBuffer (conns s c))) \<le> nat INT_MAX" "Buffer_abs (conn_outputBuffer (conns s c)) \<noteq> []"
    and "epoll_wait K (epollfd (loops s l)) (poller_events_size (loops s l)) (kern s) =
      (Inr [(EPOLLOUT, conn_channel (conns s c))], k1)"
    and "sys_gettimeofday K k1 = ((ts, us), k2)"
    and "sys_write K (ch_fd (chan_of c s)) (Buffer_abs (conn_outputBuffer (conns s c))) k2 =
      (Inr (length (Buffer_abs (conn_outputBuffer (conns s c)))), k3)"
  shows "aborts_or (\<lambda>s'. sent (kern s') (ch_fd (chan_of c s)) =
        sent (kern s) (ch_fd (chan_of c s)) @ Buffer_abs (conn_outputBuffer (conns s c)) \<and>
      interest (kern s') (epollfd (loops s' (ch_loop (chan_of c s')))) (ch_fd (chan_of c s')) =
        Some (EPOLLOUT, conn_channel (conns s' c)) \<and> conn_deaf interest l c s')
    (EventLoop_turn K (Server_call K U alloc tid) conn_held (Server_exec K U wc hw tid) l s)"
  by (rule aborts_or_mono [OF polling_kernel.drain_turn [OF assms]]) (simp add: conn_deaf_def conn_stream_def)

definition sample_writable :: "ref_state server" where
  "sample_writable = sample_turn\<lparr>kern := (kern sample_turn)\<lparr>rk_ready := [(EPOLLOUT, 1)], rk_accepts := [2],
       rk_interest := (\<lambda>_. Map.empty)(4 := [7 \<mapsto> (kReadEvent OR kWriteEvent, 1)])\<rparr>,
     chans := (\<lambda>_. (chans sample_turn 1)\<lparr>ch_events := kReadEvent OR kWriteEvent\<rparr>),
     conns := (\<lambda>_. (conns sample_turn 1)\<lparr>conn_outputBuffer :=
       fresh_buffer\<lparr>buffer_data := replicate 8 NUL @ ''ok'', writeIndex := 10\<rparr>\<rparr>)\<rparr>"

theorem TcpServer_turn_deafens_witness:
  "aborts_or (\<lambda>s'. rk_sent (kern s') (ch_fd (chan_of 1 sample_writable)) =
        rk_sent (kern sample_writable) (ch_fd (chan_of 1 sample_writable)) @ Buffer_abs (conn_outputBuffer (conns sample_writable 1)) \<and>
      rk_interest (kern s') (epollfd (loops s' (ch_loop (chan_of 1 s')))) (ch_fd (chan_of 1 s')) =
        Some (EPOLLOUT, conn_channel (conns s' 1)) \<and> conn_deaf rk_interest 0 1 s')
    (EventLoop_turn ref_kernel (Server_call ref_kernel sample_http_callbacks (\<lambda>s. (6, 6)) 100) conn_held
      (Server_exec ref_kernel sample_http_callbacks (\<lambda>c s. Inr s) (\<lambda>c n s. Inr s) 100) 0 sample_writable)"
  by (rule TcpServer_turn_deafens [where ts = 0 and us = 0 and ?k1.0 = "(kern sample_writable)\<lparr>rk_ready := []\<rparr>"
        and ?k2.0 = "(kern sample_writable)\<lparr>rk_ready := []\<rparr>", OF rk.polling_kernel_axioms])
    (simp_all add: conn_served_def conn_ok_def chan_ok_def Let_def sample_writable_def sample_turn_defs Buffer_abs_def Buffer_inv_def
      Buffer_size_def limit_defs ref_defs Channel_isWriting_def event_defs kWriteEvent_def kReadEvent_def kNoneEvent_def
      fresh_buffer_def InitialPrependSize_def segment_def)

text \<open>
  C13. A deaf connection keeps its loop busy. As long as it is writable, which \<open>epoll_wait\<close> reports again and again, every turn
  of the loop calls \<open>handleWrite\<close> with nothing to write, logs an error, and changes nothing else of the connection, which
  stays deaf, in the table, and ready for the next such turn.
\<close>

theorem TcpServer_turn_spins:
  assumes "polling_kernel K interest sent" "conn_deaf interest l c s"
    and "epoll_wait K (epollfd (loops s l)) (poller_events_size (loops s l)) (kern s) =
      (Inr [(EPOLLOUT, conn_channel (conns s c))], k1)"
    and "sys_gettimeofday K k1 = ((ts, us), k2)"
  shows "\<exists>s'. EventLoop_turn K (Server_call K U alloc tid) conn_held (Server_exec K U wc hw tid) l s = Inr s' \<and>
    conn_deaf interest l c s' \<and> sent (kern s') = sent (kern s) \<and> conns s' = conns s \<and>
    error_log s' = error_log s @ [''TcpConnection::handleWrite() failed'']"
  by (rule polling_kernel.spin_turn [OF assms])

definition sample_deaf :: "ref_state server" where
  "sample_deaf = sample_turn\<lparr>kern := (kern sample_turn)\<lparr>rk_ready := [(EPOLLOUT, 1)],
       rk_interest := (\<lambda>_. Map.empty)(4 := [7 \<mapsto> (EPOLLOUT, 1)])\<rparr>,
     chans := (\<lambda>_. (chans sample_turn 1)\<lparr>ch_events := EPOLLOUT\<rparr>)\<rparr>"

theorem TcpServer_turn_spins_witness:
  "\<exists>s'. EventLoop_turn ref_kernel (Server_call ref_kernel sample_http_callbacks (\<lambda>s. (6, 6)) 100) conn_held
      (Server_exec ref_kernel sample_http_callbacks (\<lambda>c s. Inr s) (\<lambda>c n s. Inr s) 100) 0 sample_deaf = Inr s' \<and>
    conn_deaf rk_interest 0 1 s' \<and> rk_sent (kern s') = rk_sent (kern sample_deaf) \<and> conns s' = conns sample_deaf \<and>
    error_log s' = error_log sample_deaf @ [''TcpConnection::handleWrite() failed'']"
  by (rule TcpServer_turn_spins [where ts = 0 and us = 0 and ?k1.0 = "(kern sample_deaf)\<lparr>rk_ready := []\<rparr>"
        and ?k2.0 = "(kern sample_deaf)\<lparr>rk_ready := []\<rparr>", OF rk.polling_kernel_axioms])
    (simp_all add: conn_deaf_def conn_served_def sample_deaf_def sample_turn_defs ref_defs)




end
